theory Spec2Isabelle
  imports Complex_Main
begin

section \<open>JavaScript numbers\<close>

text \<open>
  The engine computes on JavaScript numbers, the doubles of IEEE 754. A number is modelled
  as the real it denotes or one of the three non-finite values. Every arithmetic operation
  rounds its exact result to the nearest double, ties to even, and overflows to
  \<open>Infinity\<close>; every comparison is exact and false on \<open>NaN\<close>. A division by a zero hand
  length or hand width gives \<open>Infinity\<close> or \<open>NaN\<close> as it does in the program: the only
  divisors of the program that can be zero are results of \<open>Math.hypot\<close>, which is never
  \<open>-0\<close>, so a zero divisor is \<open>+0\<close>, and the sign of a zero is observable nowhere else.
\<close>

datatype jsnum = Fin real | PInf | NInf | NaN

text \<open>
  Rounding to a double. \<open>expo x\<close> is the binary exponent \<open>\<lfloor>log\<^sub>2 x\<rfloor>\<close> of a positive \<open>x\<close>,
  found by halving or doubling (and cut off far outside the range of doubles, where its
  value no longer matters); \<open>pow2 k\<close> is \<open>2\<^sup>k\<close>. A double has 53 significant bits and its
  exponent is at least \<open>-1022\<close>, so the doubles around \<open>x\<close> are the multiples of
  \<open>u = 2\<^sup>e\<^sup>-\<^sup>5\<^sup>2\<close> with \<open>e = max (expo x) (-1022)\<close>. \<open>rhe\<close> rounds to the nearest integer,
  a tie to the even one. A result of magnitude \<open>2\<^sup>1\<^sup>0\<^sup>2\<^sup>4\<close> is beyond the largest double and
  becomes infinite.
\<close>

fun up :: "nat \<Rightarrow> real \<Rightarrow> int" where
  "up 0 x = 0"
| "up (Suc n) x = (if 2 \<le> x then up n (x / 2) + 1 else 0)"

fun down :: "nat \<Rightarrow> real \<Rightarrow> int" where
  "down 0 x = 0"
| "down (Suc n) x = (if x < 1 then down n (x * 2) - 1 else 0)"

definition expo :: "real \<Rightarrow> int" where
  "expo x = (if 1 \<le> x then up 1100 x else down 1100 x)"

definition pow2 :: "int \<Rightarrow> real" where
  "pow2 k = (if 0 \<le> k then 2 ^ nat k else 1 / 2 ^ nat (- k))"

definition rhe :: "real \<Rightarrow> int" where
  "rhe q = (let f = \<lfloor>q\<rfloor>; d = q - of_int f in
     if d < 1 / 2 then f else if 1 / 2 < d then f + 1 else if even f then f else f + 1)"

definition rnd :: "real \<Rightarrow> jsnum" where
  "rnd x = (if x = 0 then Fin 0 else
     let u = pow2 (max (expo \<bar>x\<bar>) (- 1022) - 52);
         m = of_int (rhe (\<bar>x\<bar> / u)) * u
     in if 2 ^ 1024 \<le> m then (if 0 < x then PInf else NInf)
        else Fin (if 0 < x then m else - m))"

text \<open>
  A decimal literal of the program denotes the double nearest to it: \<open>0.15\<close> is
  \<open>rnd (15 / 100)\<close>. The literals that are doubles themselves (\<open>0\<close>, \<open>1\<close>, \<open>2\<close>, \<open>4\<close>, \<open>5\<close>,
  \<open>0.5\<close>, \<open>1.5\<close>, \<open>0.25\<close>, \<open>0.75\<close>) are written \<open>Fin\<close>.
\<close>

fun js_neg :: "jsnum \<Rightarrow> jsnum" where
  "js_neg (Fin a) = Fin (- a)"
| "js_neg PInf = NInf"
| "js_neg NInf = PInf"
| "js_neg NaN = NaN"

fun js_add :: "jsnum \<Rightarrow> jsnum \<Rightarrow> jsnum" where
  "js_add (Fin a) (Fin b) = rnd (a + b)"
| "js_add NaN _ = NaN"
| "js_add _ NaN = NaN"
| "js_add PInf NInf = NaN"
| "js_add NInf PInf = NaN"
| "js_add PInf _ = PInf"
| "js_add _ PInf = PInf"
| "js_add NInf _ = NInf"
| "js_add _ NInf = NInf"

definition js_sub :: "jsnum \<Rightarrow> jsnum \<Rightarrow> jsnum" where
  "js_sub a b = js_add a (js_neg b)"

fun js_mul :: "jsnum \<Rightarrow> jsnum \<Rightarrow> jsnum" where
  "js_mul (Fin a) (Fin b) = rnd (a * b)"
| "js_mul NaN _ = NaN"
| "js_mul _ NaN = NaN"
| "js_mul PInf (Fin b) = (if b = 0 then NaN else if 0 < b then PInf else NInf)"
| "js_mul NInf (Fin b) = (if b = 0 then NaN else if 0 < b then NInf else PInf)"
| "js_mul (Fin a) PInf = (if a = 0 then NaN else if 0 < a then PInf else NInf)"
| "js_mul (Fin a) NInf = (if a = 0 then NaN else if 0 < a then NInf else PInf)"
| "js_mul PInf PInf = PInf"
| "js_mul NInf NInf = PInf"
| "js_mul PInf NInf = NInf"
| "js_mul NInf PInf = NInf"

fun js_div :: "jsnum \<Rightarrow> jsnum \<Rightarrow> jsnum" where
  "js_div (Fin a) (Fin b) =
     (if b = 0 then (if a = 0 then NaN else if 0 < a then PInf else NInf)
      else rnd (a / b))"
| "js_div NaN _ = NaN"
| "js_div _ NaN = NaN"
| "js_div (Fin a) PInf = Fin 0"
| "js_div (Fin a) NInf = Fin 0"
| "js_div PInf (Fin b) = (if 0 \<le> b then PInf else NInf)"
| "js_div NInf (Fin b) = (if 0 \<le> b then NInf else PInf)"
| "js_div PInf PInf = NaN"
| "js_div PInf NInf = NaN"
| "js_div NInf PInf = NaN"
| "js_div NInf NInf = NaN"

fun js_lt :: "jsnum \<Rightarrow> jsnum \<Rightarrow> bool" where
  "js_lt (Fin a) (Fin b) = (a < b)"
| "js_lt NaN _ = False"
| "js_lt _ NaN = False"
| "js_lt NInf NInf = False"
| "js_lt NInf _ = True"
| "js_lt PInf _ = False"
| "js_lt (Fin a) PInf = True"
| "js_lt (Fin a) NInf = False"

definition js_gt :: "jsnum \<Rightarrow> jsnum \<Rightarrow> bool" where
  "js_gt a b = js_lt b a"

fun js_ge :: "jsnum \<Rightarrow> jsnum \<Rightarrow> bool" where
  "js_ge (Fin a) (Fin b) = (b \<le> a)"
| "js_ge NaN _ = False"
| "js_ge _ NaN = False"
| "js_ge PInf _ = True"
| "js_ge _ NInf = True"
| "js_ge NInf _ = False"
| "js_ge (Fin a) PInf = False"

fun js_abs :: "jsnum \<Rightarrow> jsnum" where
  "js_abs (Fin a) = Fin \<bar>a\<bar>"
| "js_abs PInf = PInf"
| "js_abs NInf = PInf"
| "js_abs NaN = NaN"

text \<open>\<open>Math.min\<close> of two numbers: \<open>NaN\<close> if either is, the smaller otherwise.\<close>

definition js_min :: "jsnum \<Rightarrow> jsnum \<Rightarrow> jsnum" where
  "js_min a b = (if a = NaN \<or> b = NaN then NaN else if js_lt b a then b else a)"

definition is_inf :: "jsnum \<Rightarrow> bool" where
  "is_inf a = (a = PInf \<or> a = NInf)"

fun fin_val :: "jsnum \<Rightarrow> real" where
  "fin_val (Fin a) = a"
| "fin_val _ = 0"

text \<open>
  \<open>Math.hypot\<close> of three numbers is implementation-approximated: the language fixes no
  rounding for it, and engines differ in the last bit. It is therefore a parameter of
  every function below that measures a distance, and every property is proved for every
  function in its place. \<open>hypotNearest\<close> is the correctly rounded one, used on concrete
  hands: \<open>Infinity\<close> if an argument is infinite (even beside a \<open>NaN\<close>), else \<open>NaN\<close> if an
  argument is \<open>NaN\<close>, else the root of the sum of squares, rounded once.
\<close>

type_synonym hypot = "jsnum \<Rightarrow> jsnum \<Rightarrow> jsnum \<Rightarrow> jsnum"

definition hypotNearest :: hypot where
  "hypotNearest a b c =
     (if is_inf a \<or> is_inf b \<or> is_inf c then PInf
      else if a = NaN \<or> b = NaN \<or> c = NaN then NaN
      else rnd (sqrt (fin_val a * fin_val a + fin_val b * fin_val b + fin_val c * fin_val c)))"

section \<open>Landmarks, errors and the node tables\<close>

text \<open>
  A landmark is \<open>{x, y, z}\<close>; \<open>z\<close> may be absent (boundary points and the palm centre
  carry no \<open>z\<close>). The fields are named \<open>px\<close>, \<open>py\<close>, \<open>pz\<close>.
\<close>

record point =
  px :: jsnum
  py :: jsnum
  pz :: "jsnum option"

text \<open>
  The only exception the engine can raise is the \<open>TypeError\<close> of reading a property of
  \<open>undefined\<close>. A function that can raise returns \<open>error + 'a\<close>.
\<close>

datatype error = TypeError

definition bindE :: "error + 'a \<Rightarrow> ('a \<Rightarrow> error + 'b) \<Rightarrow> error + 'b" where
  "bindE m f = (case m of Inl e \<Rightarrow> Inl e | Inr v \<Rightarrow> f v)"

text \<open>Reading a property of a value that may be \<open>undefined\<close>.\<close>

definition deref :: "'a option \<Rightarrow> error + 'a" where
  "deref v = (case v of None \<Rightarrow> Inl TypeError | Some a \<Rightarrow> Inr a)"

text \<open>
  The landmark array: an entry is a landmark, or \<open>null\<close> or \<open>undefined\<close> (\<open>None\<close>).
  \<open>landmarks[i]\<close> is the entry, and \<open>undefined\<close> outside the array.
\<close>

definition lm_at :: "point option list \<Rightarrow> int \<Rightarrow> point option" where
  "lm_at landmarks i =
     (if 0 \<le> i \<and> nat i < length landmarks then landmarks ! nat i else None)"

text \<open>\<open>(p.z || 0)\<close>: an absent, zero or \<open>NaN\<close> depth reads as \<open>0\<close>.\<close>

definition zOr0 :: "point \<Rightarrow> jsnum" where
  "zOr0 p = (case pz p of None \<Rightarrow> Fin 0
             | Some z \<Rightarrow> if z = Fin 0 \<or> z = NaN then Fin 0 else z)"

datatype zone = GREEN | BLUE | YELLOW | RED

record nodes =
  name :: string
  mcp :: int
  pip :: int
  dip :: int
  tip :: int

definition FINGER_NODES :: "int \<Rightarrow> nodes option" where
  "FINGER_NODES i =
     (if i = 0 then Some \<lparr>name = ''thumb'', mcp = 1, pip = 2, dip = 3, tip = 4\<rparr>
      else if i = 1 then Some \<lparr>name = ''index'', mcp = 5, pip = 6, dip = 7, tip = 8\<rparr>
      else if i = 2 then Some \<lparr>name = ''middle'', mcp = 9, pip = 10, dip = 11, tip = 12\<rparr>
      else if i = 3 then Some \<lparr>name = ''ring'', mcp = 13, pip = 14, dip = 15, tip = 16\<rparr>
      else if i = 4 then Some \<lparr>name = ''pinky'', mcp = 17, pip = 18, dip = 19, tip = 20\<rparr>
      else None)"

definition FINGER_NAMES :: "string list" where
  "FINGER_NAMES = [''thumb'', ''index'', ''middle'', ''ring'', ''pinky'']"

definition ALL_TIPS :: "int list" where
  "ALL_TIPS = [4, 8, 12, 16, 20]"

section \<open>Utility functions\<close>

definition distance :: "hypot \<Rightarrow> point \<Rightarrow> point \<Rightarrow> jsnum" where
  "distance hypot p1 p2 =
     hypot (js_sub (px p1) (px p2)) (js_sub (py p1) (py p2)) (js_sub (zOr0 p1) (zOr0 p2))"

record frame =
  wrist :: point
  handLength :: jsnum
  handWidth :: jsnum
  palmCenter :: point

text \<open>
  \<open>getHandFrame\<close> reads landmarks 0, 12, 5, 17, 9 and 13 and checks no length. Reading a
  coordinate of a missing landmark raises. The sums of the palm centre are rounded term by
  term, from the left.
\<close>

definition getHandFrame :: "hypot \<Rightarrow> point option list \<Rightarrow> error + frame" where
  "getHandFrame hypot landmarks =
     bindE (deref (lm_at landmarks 0)) (\<lambda>w.
     bindE (deref (lm_at landmarks 12)) (\<lambda>middleTip.
     bindE (deref (lm_at landmarks 5)) (\<lambda>indexMcp.
     bindE (deref (lm_at landmarks 17)) (\<lambda>pinkyMcp.
     bindE (deref (lm_at landmarks 9)) (\<lambda>l9.
     bindE (deref (lm_at landmarks 13)) (\<lambda>l13.
       Inr \<lparr>wrist = w,
            handLength = distance hypot w middleTip,
            handWidth = distance hypot indexMcp pinkyMcp,
            palmCenter =
              \<lparr>px = js_div (js_add (js_add (js_add (js_add (px w) (px indexMcp)) (px l9))
                                      (px l13)) (px pinkyMcp)) (Fin 5),
               py = js_div (js_add (js_add (js_add (js_add (py w) (py indexMcp)) (py l9))
                                      (py l13)) (py pinkyMcp)) (Fin 5),
               pz = None\<rparr>\<rparr>))))))"

definition getYOnLine :: "jsnum \<Rightarrow> point \<Rightarrow> point \<Rightarrow> jsnum" where
  "getYOnLine x lineStart lineEnd =
     (if js_lt (js_abs (js_sub (px lineEnd) (px lineStart))) (rnd (1 / 10000))
      then js_div (js_add (py lineStart) (py lineEnd)) (Fin 2)
      else let slope = js_div (js_sub (py lineEnd) (py lineStart))
                              (js_sub (px lineEnd) (px lineStart))
           in js_add (py lineStart) (js_mul slope (js_sub x (px lineStart))))"

definition isAboveLine :: "point \<Rightarrow> point \<Rightarrow> point \<Rightarrow> bool" where
  "isAboveLine p lineStart lineEnd = js_lt (py p) (getYOnLine (px p) lineStart lineEnd)"

section \<open>Dynamic boundary creation\<close>

text \<open>
  A boundary line \<open>{start, end, level, referenceNode}\<close>. The end points of a line between
  two target fingers are landmarks read from the array without a check, so they may be
  \<open>undefined\<close>; \<open>referenceNode\<close> is present only on a single finger's lines.
\<close>

record boundaryLine =
  lineStart :: "point option"
  lineEnd :: "point option"
  level :: string
  referenceNode :: "int option"

record boundaries =
  greenBoundary :: boundaryLine
  acceptableBoundary :: boundaryLine
  lowBoundary :: boundaryLine

definition createBoundaryForFinger :: "int \<Rightarrow> point option list \<Rightarrow> frame \<Rightarrow> error + boundaries" where
  "createBoundaryForFinger fingerIdx landmarks frm =
     bindE (deref (FINGER_NODES fingerIdx)) (\<lambda>nodes.
     bindE (deref (lm_at landmarks (pip nodes))) (\<lambda>pip.
     bindE (deref (lm_at landmarks (dip nodes))) (\<lambda>dip.
     bindE (deref (lm_at landmarks (mcp nodes))) (\<lambda>mcp.
       let lineExtent = js_mul (handWidth frm) (Fin (3 / 2)) in
       Inr \<lparr>greenBoundary =
              \<lparr>lineStart = Some \<lparr>px = js_sub (px pip) lineExtent, py = py pip, pz = None\<rparr>,
               lineEnd = Some \<lparr>px = js_add (px pip) lineExtent, py = py pip, pz = None\<rparr>,
               level = ''GREEN'', referenceNode = Some (nodes.pip nodes)\<rparr>,
            acceptableBoundary =
              \<lparr>lineStart = Some \<lparr>px = js_sub (px dip) lineExtent, py = py dip, pz = None\<rparr>,
               lineEnd = Some \<lparr>px = js_add (px dip) lineExtent, py = py dip, pz = None\<rparr>,
               level = ''ACCEPTABLE'', referenceNode = Some (nodes.dip nodes)\<rparr>,
            lowBoundary =
              \<lparr>lineStart = Some \<lparr>px = js_sub (px mcp) lineExtent, py = py mcp, pz = None\<rparr>,
               lineEnd = Some \<lparr>px = js_add (px mcp) lineExtent, py = py mcp, pz = None\<rparr>,
               level = ''LOW'', referenceNode = Some (nodes.mcp nodes)\<rparr>\<rparr>))))"

text \<open>
  With two or more targets the list is copied and sorted ascending; its first and last
  entries are the outermost targets.
\<close>

definition createBoundariesForTargets :: "int list \<Rightarrow> point option list \<Rightarrow> frame \<Rightarrow> error + boundaries" where
  "createBoundariesForTargets targetFingers landmarks frm =
     (if length targetFingers = 0 then createBoundaryForFinger 2 landmarks frm
      else if length targetFingers = 1
      then createBoundaryForFinger (targetFingers ! 0) landmarks frm
      else
        let sortedTargets = sort targetFingers;
            leftFinger = sortedTargets ! 0;
            rightFinger = sortedTargets ! (length sortedTargets - 1)
        in bindE (deref (FINGER_NODES leftFinger)) (\<lambda>leftNodes.
           bindE (deref (FINGER_NODES rightFinger)) (\<lambda>rightNodes.
             Inr \<lparr>greenBoundary =
                    \<lparr>lineStart = lm_at landmarks (pip leftNodes),
                     lineEnd = lm_at landmarks (pip rightNodes),
                     level = ''GREEN'', referenceNode = None\<rparr>,
                  acceptableBoundary =
                    \<lparr>lineStart = lm_at landmarks (dip leftNodes),
                     lineEnd = lm_at landmarks (dip rightNodes),
                     level = ''ACCEPTABLE'', referenceNode = None\<rparr>,
                  lowBoundary =
                    \<lparr>lineStart = lm_at landmarks (mcp leftNodes),
                     lineEnd = lm_at landmarks (mcp rightNodes),
                     level = ''LOW'', referenceNode = None\<rparr>\<rparr>)))"

section \<open>Finger evaluation\<close>

text \<open>
  One record for every per-finger result object; a field the object does not carry is
  \<open>None\<close>. \<open>finger\<close>, \<open>fingerIndex\<close> and \<open>isTarget\<close> are the tags the strategies add.
\<close>

record fingerResult =
  zone :: zone
  score :: jsnum
  detail :: "string option"
  extended :: "bool option"
  pass :: "bool option"
  inSafeZone :: "bool option"
  violation :: "bool option"
  severity :: "string option"
  ignored :: "bool option"
  curled :: "bool option"
  finger :: "string option"
  fingerIndex :: "int option"
  isTarget :: "bool option"

definition resultObj :: "zone \<Rightarrow> jsnum \<Rightarrow> fingerResult" where
  "resultObj z s =
     \<lparr>zone = z, score = s, detail = None, extended = None, pass = None, inSafeZone = None,
      violation = None, severity = None, ignored = None, curled = None, finger = None,
      fingerIndex = None, isTarget = None\<rparr>"

definition evaluateTargetFinger :: "hypot \<Rightarrow> int \<Rightarrow> point option list \<Rightarrow> frame \<Rightarrow> error + fingerResult" where
  "evaluateTargetFinger hypot fingerIdx landmarks frm =
     bindE (deref (FINGER_NODES fingerIdx)) (\<lambda>nodes.
     bindE (deref (lm_at landmarks (tip nodes))) (\<lambda>tip.
     bindE (deref (lm_at landmarks (dip nodes))) (\<lambda>dip.
     bindE (deref (lm_at landmarks (pip nodes))) (\<lambda>pip.
     bindE (deref (lm_at landmarks (mcp nodes))) (\<lambda>mcp.
     bindE (deref (lm_at landmarks 0)) (\<lambda>l0.
       let tipAboveMcp = js_sub (py mcp) (py tip);
           normalizedExtension = js_div tipAboveMcp (handLength frm);
           tipToWrist = distance hypot tip l0;
           mcpToWrist = distance hypot mcp l0;
           extensionRatio = js_div tipToWrist mcpToWrist
       in Inr
        (if js_gt normalizedExtension (rnd (15 / 100)) \<and> js_gt extensionRatio (rnd (13 / 10))
         then (resultObj GREEN (js_min (Fin 1) (js_add (rnd (85 / 100)) normalizedExtension)))
                \<lparr>extended := Some True, detail := Some ''fully extended''\<rparr>
         else if js_gt normalizedExtension (rnd (8 / 100)) \<and> js_gt extensionRatio (rnd (115 / 100))
         then (resultObj BLUE (Fin (75 / 100)))
                \<lparr>extended := Some True, detail := Some ''well extended''\<rparr>
         else if js_gt normalizedExtension (rnd (2 / 100)) \<and> js_gt extensionRatio (Fin 1)
         then (resultObj YELLOW (rnd (55 / 100)))
                \<lparr>extended := Some True, detail := Some ''partially extended''\<rparr>
         else if js_gt normalizedExtension (rnd (- (5 / 100)))
         then (resultObj YELLOW (rnd (40 / 100)))
                \<lparr>extended := Some False, detail := Some ''minimal extension''\<rparr>
         else (resultObj RED (rnd (20 / 100)))
                \<lparr>extended := Some False, detail := Some ''not extended''\<rparr>)))))))"

definition evaluateNonTargetFinger ::
    "int \<Rightarrow> point option list \<Rightarrow> boundaries \<Rightarrow> frame \<Rightarrow> error + fingerResult" where
  "evaluateNonTargetFinger fingerIdx landmarks bnds frm =
     bindE (deref (FINGER_NODES fingerIdx)) (\<lambda>nodes.
     bindE (deref (lm_at landmarks (tip nodes))) (\<lambda>tip.
     bindE (deref (lineStart (greenBoundary bnds))) (\<lambda>gs.
     bindE (deref (lineEnd (greenBoundary bnds))) (\<lambda>ge.
     bindE (deref (lineStart (acceptableBoundary bnds))) (\<lambda>as.
     bindE (deref (lineEnd (acceptableBoundary bnds))) (\<lambda>ae.
       let aboveGreen = isAboveLine tip gs ge;
           aboveAcceptable = isAboveLine tip as ae
       in Inr
        (if aboveGreen
         then (resultObj RED (rnd (3 / 10)))
                \<lparr>inSafeZone := Some False, violation := Some True, severity := Some ''major'',
                 detail := Some ''finger extended into target zone''\<rparr>
         else if aboveAcceptable
         then (resultObj YELLOW (rnd (7 / 10)))
                \<lparr>inSafeZone := Some True, violation := Some False, severity := Some ''none'',
                 detail := Some ''finger slightly raised but acceptable''\<rparr>
         else (resultObj GREEN (Fin 1))
                \<lparr>inSafeZone := Some True, violation := Some False, severity := Some ''none'',
                 detail := Some ''in safe zone''\<rparr>)))))))"

text \<open>
  \<open>evaluateThumb\<close>; the third parameter is the source's \<open>isTarget\<close>. Landmarks 3 (and 5
  or 2, by branch) are fetched but never read, so their absence raises nothing.
\<close>

definition evaluateThumb :: "hypot \<Rightarrow> point option list \<Rightarrow> frame \<Rightarrow> bool \<Rightarrow> error + fingerResult" where
  "evaluateThumb hypot landmarks frm asTarget =
     (if asTarget then
        bindE (deref (lm_at landmarks 4)) (\<lambda>thumbTip.
        bindE (deref (lm_at landmarks 0)) (\<lambda>l0.
        bindE (deref (lm_at landmarks 2)) (\<lambda>thumbMcp.
          let tipToWrist = distance hypot thumbTip l0;
              mcpToWrist = distance hypot thumbMcp l0;
              extensionRatio = js_div tipToWrist mcpToWrist;
              thumbAwayFromPalm = js_div (distance hypot thumbTip (palmCenter frm)) (handWidth frm)
          in Inr
           (if js_gt extensionRatio (rnd (14 / 10)) \<and> js_gt thumbAwayFromPalm (rnd (4 / 10))
            then (resultObj GREEN (Fin 1))
                   \<lparr>pass := Some True, detail := Some ''thumb fully extended''\<rparr>
            else if js_gt extensionRatio (rnd (12 / 10)) \<and> js_gt thumbAwayFromPalm (rnd (3 / 10))
            then (resultObj BLUE (Fin (75 / 100)))
                   \<lparr>pass := Some True, detail := Some ''thumb well extended''\<rparr>
            else if js_gt extensionRatio (Fin 1)
            then (resultObj YELLOW (Fin (50 / 100)))
                   \<lparr>pass := Some True, detail := Some ''thumb partially extended''\<rparr>
            else (resultObj RED (Fin (25 / 100)))
                   \<lparr>pass := Some False, detail := Some ''thumb not extended''\<rparr>))))
      else
        bindE (deref (lm_at landmarks 4)) (\<lambda>thumbTip.
        bindE (deref (lm_at landmarks 5)) (\<lambda>indexMcp.
        bindE (deref (lm_at landmarks 0)) (\<lambda>l0.
          let thumbPastIndex =
                js_lt (px thumbTip) (js_sub (px indexMcp) (js_mul (handWidth frm) (rnd (3 / 10))));
              thumbVeryExtended =
                js_gt (distance hypot thumbTip l0) (js_mul (handLength frm) (rnd (6 / 10)))
          in Inr
           (if thumbPastIndex \<and> thumbVeryExtended
            then (resultObj YELLOW (rnd (8 / 10)))
                   \<lparr>inSafeZone := Some True, violation := Some False,
                    detail := Some ''thumb extended but acceptable''\<rparr>
            else (resultObj GREEN (Fin 1))
                   \<lparr>inSafeZone := Some True, violation := Some False, ignored := Some True,
                    detail := Some ''thumb in safe zone (lenient)''\<rparr>)))))"

section \<open>Main evaluation functions\<close>

text \<open>A \<open>for\<close> loop over the listed indices, left as soon as a step raises.\<close>

fun forE :: "int list \<Rightarrow> (int \<Rightarrow> 's \<Rightarrow> error + 's) \<Rightarrow> 's \<Rightarrow> error + 's" where
  "forE [] f s = Inr s"
| "forE (i # is) f s = bindE (f i s) (forE is f)"

record violationEntry =
  v_finger :: string
  v_fingerIndex :: "int option"
  v_severity :: "string option"

record isolationResult =
  targets :: "fingerResult list"
  nonTargets :: "fingerResult list"
  thumb :: "fingerResult option"
  violations :: "violationEntry list"
  overallZone :: zone
  overallScore :: jsnum
  passed :: bool

text \<open>The \<open>results\<close> object and the four local variables of \<open>evaluateIsolation\<close>.\<close>

record isoVars =
  results :: isolationResult
  targetScoreSum :: jsnum
  targetCount :: int
  allTargetsOk :: bool
  hasMajorViolation :: bool

definition isoInit :: isoVars where
  "isoInit =
     \<lparr>results = \<lparr>targets = [], nonTargets = [], thumb = None, violations = [],
                  overallZone = RED, overallScore = Fin 0, passed = False\<rparr>,
      targetScoreSum = Fin 0, targetCount = 0, allTargetsOk = True,
      hasMajorViolation = False\<rparr>"

text \<open>The body of the loop over the five fingers.\<close>

definition isoStep ::
    "hypot \<Rightarrow> point option list \<Rightarrow> int list \<Rightarrow> frame \<Rightarrow> boundaries \<Rightarrow> int \<Rightarrow> isoVars \<Rightarrow> error + isoVars" where
  "isoStep hypot landmarks targetFingers frm bnds i v =
     (let isTgt = (i \<in> set targetFingers);
          fingerName = FINGER_NAMES ! nat i
      in
      if i = 0 then
        bindE (evaluateThumb hypot landmarks frm isTgt) (\<lambda>r.
          let thumbResult = r\<lparr>finger := Some fingerName, fingerIndex := Some i,
                               isTarget := Some isTgt\<rparr>;
              v1 = v\<lparr>results := (results v)\<lparr>thumb := Some thumbResult\<rparr>\<rparr>
          in Inr (if isTgt
                  then v1\<lparr>targetScoreSum := js_add (targetScoreSum v1) (score thumbResult),
                          targetCount := targetCount v1 + 1,
                          allTargetsOk := (if pass thumbResult \<noteq> Some True then False
                                           else allTargetsOk v1)\<rparr>
                  else v1))
      else if isTgt then
        bindE (evaluateTargetFinger hypot i landmarks frm) (\<lambda>r.
          let result = r\<lparr>finger := Some fingerName, fingerIndex := Some i,
                          isTarget := Some True\<rparr>
          in Inr (v\<lparr>results := (results v)\<lparr>targets := targets (results v) @ [result]\<rparr>,
                    targetScoreSum := js_add (targetScoreSum v) (score result),
                    targetCount := targetCount v + 1,
                    allTargetsOk := (if zone result = RED then False else allTargetsOk v)\<rparr>))
      else
        bindE (evaluateNonTargetFinger i landmarks bnds frm) (\<lambda>r.
          let result = r\<lparr>finger := Some fingerName, fingerIndex := Some i,
                          isTarget := Some False\<rparr>;
              v1 = v\<lparr>results := (results v)\<lparr>nonTargets := nonTargets (results v) @ [result]\<rparr>\<rparr>
          in Inr (if violation result = Some True
                  then v1\<lparr>results := (results v1)
                             \<lparr>violations := violations (results v1) @
                                [\<lparr>v_finger = fingerName, v_fingerIndex = Some i,
                                  v_severity = severity result\<rparr>]\<rparr>,
                          hasMajorViolation := (if severity result = Some ''major'' then True
                                                else hasMajorViolation v1)\<rparr>
                  else v1)))"

definition evaluateIsolation :: "hypot \<Rightarrow> point option list \<Rightarrow> int list \<Rightarrow> error + isolationResult" where
  "evaluateIsolation hypot landmarks targetFingers =
     bindE (getHandFrame hypot landmarks) (\<lambda>frm.
     bindE (createBoundariesForTargets (filter (\<lambda>f. f \<noteq> 0) targetFingers) landmarks frm)
       (\<lambda>bnds.
     bindE (forE [0, 1, 2, 3, 4] (isoStep hypot landmarks targetFingers frm bnds) isoInit) (\<lambda>v.
       let avg0 = (if targetCount v > 0
                   then js_div (targetScoreSum v) (Fin (real_of_int (targetCount v)))
                   else Fin 0);
           avgScore = (if hasMajorViolation v then js_mul avg0 (Fin (1 / 2))
                       else if length (violations (results v)) > 0
                       then js_mul avg0 (rnd (85 / 100))
                       else avg0)
       in Inr ((results v)
                \<lparr>overallScore := avgScore,
                 overallZone := (if js_ge avgScore (rnd (85 / 100)) then GREEN
                                 else if js_ge avgScore (rnd (65 / 100)) then BLUE
                                 else if js_ge avgScore (rnd (40 / 100)) then YELLOW
                                 else RED),
                 passed := (allTargetsOk v \<and> \<not> hasMajorViolation v
                            \<and> js_ge avgScore (rnd (65 / 100)))\<rparr>))))"

text \<open>\<open>Array.prototype.indexOf\<close>: the first position of the value, or \<open>-1\<close>.\<close>

fun indexOf :: "int list \<Rightarrow> int \<Rightarrow> int" where
  "indexOf [] v = - 1"
| "indexOf (a # as) v =
     (if a = v then 0 else let r = indexOf as v in if r < 0 then - 1 else r + 1)"

text \<open>\<open>array[i]\<close> of a list of indices: \<open>undefined\<close> outside the array.\<close>

definition idx_at :: "int list \<Rightarrow> nat \<Rightarrow> int option" where
  "idx_at xs i = (if i < length xs then Some (xs ! i) else None)"

record pinchResult =
  p_distance :: jsnum
  p_zone :: zone
  p_score :: jsnum
  p_passed :: bool
  p_violations :: "violationEntry list"
  involvedFingers :: "int list"
  thumbHandling :: string

text \<open>The body of the loop over the fingers 1 to 4 of \<open>evaluatePinch\<close>.\<close>

definition pinchStep ::
    "point option list \<Rightarrow> int list \<Rightarrow> boundaries \<Rightarrow> frame \<Rightarrow> int \<Rightarrow> violationEntry list
     \<Rightarrow> error + violationEntry list" where
  "pinchStep landmarks involved bnds frm i vs =
     (if i \<in> set involved then Inr vs
      else bindE (evaluateNonTargetFinger i landmarks bnds frm) (\<lambda>result.
        Inr (if violation result = Some True \<and> severity result = Some ''major''
             then vs @ [\<lparr>v_finger = FINGER_NAMES ! nat i, v_fingerIndex = None,
                         v_severity = Some ''major''\<rparr>]
             else vs)))"

text \<open>
  \<open>evaluatePinch\<close>. The pair is destructured into its first two entries; a missing entry
  indexes the landmarks with \<open>undefined\<close>, and \<open>distance\<close> raises on the missing point.
\<close>

definition evaluatePinch :: "hypot \<Rightarrow> point option list \<Rightarrow> int list \<Rightarrow> error + pinchResult" where
  "evaluatePinch hypot landmarks pinchPair =
     bindE (getHandFrame hypot landmarks) (\<lambda>frm.
     bindE (deref (idx_at pinchPair 0)) (\<lambda>tip1Idx.
     bindE (deref (idx_at pinchPair 1)) (\<lambda>tip2Idx.
     bindE (deref (lm_at landmarks tip1Idx)) (\<lambda>tip1.
     bindE (deref (lm_at landmarks tip2Idx)) (\<lambda>tip2.
       let dist = distance hypot tip1 tip2;
           normalizedDist = js_div dist (handWidth frm);
           zs = (if js_lt normalizedDist (rnd (5 / 100)) then (GREEN, Fin 1)
                 else if js_lt normalizedDist (rnd (8 / 100)) then (GREEN, rnd (90 / 100))
                 else if js_lt normalizedDist (rnd (12 / 100)) then (BLUE, Fin (75 / 100))
                 else if js_lt normalizedDist (rnd (18 / 100)) then (YELLOW, rnd (55 / 100))
                 else if js_lt normalizedDist (rnd (28 / 100)) then (YELLOW, rnd (40 / 100))
                 else (RED, rnd (20 / 100)));
           involved = map (indexOf ALL_TIPS) [tip1Idx, tip2Idx];
           nonThumbInvolved = filter (\<lambda>f. f \<noteq> 0) involved
       in
       bindE (if length nonThumbInvolved > 0
              then createBoundariesForTargets nonThumbInvolved landmarks frm
              else createBoundaryForFinger 2 landmarks frm) (\<lambda>bnds.
       bindE (forE [1, 2, 3, 4] (pinchStep landmarks involved bnds frm) []) (\<lambda>vs.
         let finalScore = (if length vs > 0 then js_mul (snd zs) (rnd (7 / 10)) else snd zs);
             z = (if length vs > 0 \<and> fst zs = GREEN then BLUE else fst zs)
         in Inr \<lparr>p_distance = normalizedDist, p_zone = z, p_score = finalScore,
                 p_passed = js_ge finalScore (rnd (65 / 100)), p_violations = vs,
                 involvedFingers = involved, thumbHandling = ''lenient''\<rparr>)))))))"

text \<open>
  The extension loop shared by \<open>evaluateSpread\<close> and \<open>evaluateFlat\<close>: every finger is
  scored as a target; the state is the result list and the running sum. Spread tags a
  result with \<open>finger\<close> and \<open>fingerIndex\<close>, flat with \<open>finger\<close> only.
\<close>

definition extensionStep ::
    "hypot \<Rightarrow> bool \<Rightarrow> point option list \<Rightarrow> frame \<Rightarrow> int \<Rightarrow> fingerResult list \<times> jsnum
     \<Rightarrow> error + fingerResult list \<times> jsnum" where
  "extensionStep hypot withIndex landmarks frm i st =
     bindE (if i = 0 then evaluateThumb hypot landmarks frm True
            else evaluateTargetFinger hypot i landmarks frm) (\<lambda>r.
       let result = (if withIndex
                     then r\<lparr>finger := Some (FINGER_NAMES ! nat i), fingerIndex := Some i\<rparr>
                     else r\<lparr>finger := Some (FINGER_NAMES ! nat i)\<rparr>)
       in Inr (fst st @ [result], js_add (snd st) (score result)))"

text \<open>The gap between the tips of fingers \<open>i\<close> and \<open>i + 1\<close>, over the hand width.\<close>

definition tipGap :: "hypot \<Rightarrow> point option list \<Rightarrow> frame \<Rightarrow> int \<Rightarrow> error + jsnum" where
  "tipGap hypot landmarks frm i =
     bindE (deref (lm_at landmarks (ALL_TIPS ! nat i))) (\<lambda>a.
     bindE (deref (lm_at landmarks (ALL_TIPS ! nat (i + 1)))) (\<lambda>b.
       Inr (js_div (distance hypot a b) (handWidth frm))))"

definition spreadGapStep ::
    "hypot \<Rightarrow> point option list \<Rightarrow> frame \<Rightarrow> int \<Rightarrow> jsnum \<times> jsnum list \<Rightarrow> error + jsnum \<times> jsnum list" where
  "spreadGapStep hypot landmarks frm i st =
     bindE (tipGap hypot landmarks frm i) (\<lambda>normalizedGap.
       Inr (js_add (fst st)
              (if js_gt normalizedGap (rnd (30 / 100)) then Fin 1
               else if js_gt normalizedGap (rnd (20 / 100)) then rnd (80 / 100)
               else if js_gt normalizedGap (rnd (12 / 100)) then rnd (60 / 100)
               else if js_gt normalizedGap (rnd (6 / 100)) then rnd (40 / 100)
               else rnd (20 / 100)),
            snd st @ [normalizedGap]))"

record spreadResult =
  s_fingerResults :: "fingerResult list"
  s_extensionScore :: jsnum
  s_gapScore :: jsnum
  s_gaps :: "jsnum list"
  s_zone :: zone
  s_score :: jsnum
  s_passed :: bool

definition evaluateSpread :: "hypot \<Rightarrow> point option list \<Rightarrow> error + spreadResult" where
  "evaluateSpread hypot landmarks =
     bindE (getHandFrame hypot landmarks) (\<lambda>frm.
     bindE (forE [0, 1, 2, 3, 4] (extensionStep hypot True landmarks frm) ([], Fin 0)) (\<lambda>ext.
     bindE (forE [0, 1, 2, 3] (spreadGapStep hypot landmarks frm) (Fin 0, [])) (\<lambda>gp.
       let extensionScore = js_div (snd ext) (Fin 5);
           gapScore = js_div (fst gp) (Fin 4);
           finalScore = js_add (js_mul extensionScore (Fin (5 / 10)))
                               (js_mul gapScore (Fin (5 / 10)))
       in Inr \<lparr>s_fingerResults = fst ext, s_extensionScore = extensionScore,
               s_gapScore = gapScore, s_gaps = snd gp,
               s_zone = (if js_ge finalScore (rnd (85 / 100)) then GREEN
                         else if js_ge finalScore (rnd (65 / 100)) then BLUE
                         else if js_ge finalScore (rnd (45 / 100)) then YELLOW
                         else RED),
               s_score = finalScore,
               s_passed = js_ge finalScore (rnd (65 / 100))\<rparr>)))"

text \<open>The body of the loop of \<open>evaluateFist\<close>.\<close>

definition fistStep ::
    "hypot \<Rightarrow> point option list \<Rightarrow> frame \<Rightarrow> int \<Rightarrow> fingerResult list \<times> jsnum
     \<Rightarrow> error + fingerResult list \<times> jsnum" where
  "fistStep hypot landmarks frm i st =
     bindE (deref (FINGER_NODES i)) (\<lambda>nodes.
     bindE (deref (lm_at landmarks (tip nodes))) (\<lambda>tip.
     bindE (deref (lm_at landmarks (mcp nodes))) (\<lambda>mcp.
     bindE (deref (lm_at landmarks 0)) (\<lambda>l0.
       let tipBelowMcp = js_sub (py tip) (py mcp);
           normalizedCurl = js_div tipBelowMcp (handLength frm);
           tipToWrist = distance hypot tip l0;
           mcpToWrist = distance hypot mcp l0;
           curlRatio = js_div tipToWrist mcpToWrist;
           r = (if js_gt normalizedCurl (rnd (8 / 100)) \<and> js_lt curlRatio (rnd (9 / 10))
                then (resultObj GREEN (Fin 1))\<lparr>curled := Some True\<rparr>
                else if js_gt normalizedCurl (rnd (2 / 100)) \<and> js_lt curlRatio (Fin 1)
                then (resultObj BLUE (Fin (75 / 100)))\<lparr>curled := Some True\<rparr>
                else if js_gt normalizedCurl (rnd (- (5 / 100))) \<and> js_lt curlRatio (rnd (11 / 10))
                then (resultObj YELLOW (Fin (50 / 100)))\<lparr>curled := Some True\<rparr>
                else (resultObj RED (Fin (25 / 100)))\<lparr>curled := Some False\<rparr>);
           result = r\<lparr>finger := Some (FINGER_NAMES ! nat i), fingerIndex := Some i\<rparr>
       in Inr (fst st @ [result], js_add (snd st) (score result))))))"

record fistResult =
  f_fingerResults :: "fingerResult list"
  f_zone :: zone
  f_score :: jsnum
  f_passed :: bool

definition evaluateFist :: "hypot \<Rightarrow> point option list \<Rightarrow> error + fistResult" where
  "evaluateFist hypot landmarks =
     bindE (getHandFrame hypot landmarks) (\<lambda>frm.
     bindE (forE [0, 1, 2, 3, 4] (fistStep hypot landmarks frm) ([], Fin 0)) (\<lambda>st.
       let finalScore = js_div (snd st) (Fin 5)
       in Inr \<lparr>f_fingerResults = fst st,
               f_zone = (if js_ge finalScore (rnd (80 / 100)) then GREEN
                         else if js_ge finalScore (rnd (60 / 100)) then BLUE
                         else if js_ge finalScore (rnd (45 / 100)) then YELLOW
                         else RED),
               f_score = finalScore,
               f_passed = js_ge finalScore (rnd (55 / 100))\<rparr>))"

definition flatGapStep :: "hypot \<Rightarrow> point option list \<Rightarrow> frame \<Rightarrow> int \<Rightarrow> jsnum \<Rightarrow> error + jsnum" where
  "flatGapStep hypot landmarks frm i togetherScore =
     bindE (tipGap hypot landmarks frm i) (\<lambda>normalizedGap.
       Inr (js_add togetherScore
              (if js_lt normalizedGap (rnd (6 / 100)) then Fin 1
               else if js_lt normalizedGap (rnd (10 / 100)) then rnd (80 / 100)
               else if js_lt normalizedGap (rnd (15 / 100)) then rnd (60 / 100)
               else if js_lt normalizedGap (rnd (22 / 100)) then rnd (40 / 100)
               else rnd (20 / 100))))"

record flatResult =
  fl_fingerResults :: "fingerResult list"
  fl_extensionScore :: jsnum
  fl_togetherScore :: jsnum
  fl_zone :: zone
  fl_score :: jsnum
  fl_passed :: bool

definition evaluateFlat :: "hypot \<Rightarrow> point option list \<Rightarrow> error + flatResult" where
  "evaluateFlat hypot landmarks =
     bindE (getHandFrame hypot landmarks) (\<lambda>frm.
     bindE (forE [0, 1, 2, 3, 4] (extensionStep hypot False landmarks frm) ([], Fin 0)) (\<lambda>ext.
     bindE (forE [0, 1, 2, 3] (flatGapStep hypot landmarks frm) (Fin 0)) (\<lambda>tg.
       let extensionScore = js_div (snd ext) (Fin 5);
           togetherScore = js_div tg (Fin 4);
           finalScore = js_add (js_mul extensionScore (rnd (6 / 10)))
                               (js_mul togetherScore (rnd (4 / 10)))
       in Inr \<lparr>fl_fingerResults = fst ext, fl_extensionScore = extensionScore,
               fl_togetherScore = togetherScore,
               fl_zone = (if js_ge finalScore (rnd (85 / 100)) then GREEN
                          else if js_ge finalScore (rnd (65 / 100)) then BLUE
                          else if js_ge finalScore (rnd (45 / 100)) then YELLOW
                          else RED),
               fl_score = finalScore,
               fl_passed = js_ge finalScore (rnd (65 / 100))\<rparr>)))"

section \<open>The dispatcher\<close>

text \<open>
  The exercise descriptor \<open>{type, targetFingers, pinchPair}\<close>; the two lists are optional.
  The failure object is \<open>{error, passed, score, zone}\<close>. The \<open>console.warn\<close> of the
  default case writes to the console only and is left out.
\<close>

record exercise =
  ex_type :: string
  ex_targetFingers :: "int list option"
  ex_pinchPair :: "int list option"

record failureResult =
  e_error :: string
  e_passed :: bool
  e_score :: jsnum
  e_zone :: zone

datatype evalResult =
    IsolationR isolationResult
  | PinchR pinchResult
  | SpreadR spreadResult
  | FistR fistResult
  | FlatR flatResult
  | FailureR failureResult

definition evaluate :: "hypot \<Rightarrow> point option list option \<Rightarrow> exercise \<Rightarrow> error + evalResult" where
  "evaluate hypot landmarksOpt ex =
     (case landmarksOpt of
        None \<Rightarrow> Inr (FailureR \<lparr>e_error = ''Invalid landmarks'', e_passed = False,
                                e_score = Fin 0, e_zone = RED\<rparr>)
      | Some landmarks \<Rightarrow>
          if length landmarks < 21
          then Inr (FailureR \<lparr>e_error = ''Invalid landmarks'', e_passed = False,
                              e_score = Fin 0, e_zone = RED\<rparr>)
          else if ex_type ex = ''isolation''
          then bindE (evaluateIsolation hypot landmarks
                        (case ex_targetFingers ex of None \<Rightarrow> [] | Some t \<Rightarrow> t))
                 (\<lambda>r. Inr (IsolationR r))
          else if ex_type ex = ''pinch''
          then bindE (evaluatePinch hypot landmarks
                        (case ex_pinchPair ex of None \<Rightarrow> [4, 8] | Some pr \<Rightarrow> pr))
                 (\<lambda>r. Inr (PinchR r))
          else if ex_type ex = ''spread''
          then bindE (evaluateSpread hypot landmarks) (\<lambda>r. Inr (SpreadR r))
          else if ex_type ex = ''fist''
          then bindE (evaluateFist hypot landmarks) (\<lambda>r. Inr (FistR r))
          else if ex_type ex = ''flat''
          then bindE (evaluateFlat hypot landmarks) (\<lambda>r. Inr (FlatR r))
          else Inr (FailureR \<lparr>e_error = ''Unknown type'', e_passed = False,
                              e_score = Fin 0, e_zone = RED\<rparr>))"

section \<open>Reading results and concrete hands\<close>

text \<open>A score that is a finite number between 0 and 1.\<close>

fun unit_score :: "jsnum \<Rightarrow> bool" where
  "unit_score (Fin v) = (0 \<le> v \<and> v \<le> 1)"
| "unit_score _ = False"

text \<open>The sum of a list as a loop accumulates it: from 0, left to right, every addition
  rounded.\<close>

definition js_sum :: "jsnum list \<Rightarrow> jsnum" where
  "js_sum xs = foldl js_add (Fin 0) xs"

text \<open>A landmark with finite coordinates and depth 0.\<close>

definition lm :: "real \<Rightarrow> real \<Rightarrow> point" where
  "lm a b = \<lparr>px = Fin a, py = Fin b, pz = Some (Fin 0)\<rparr>"

text \<open>
  A pointing hand in camera coordinates (y grows downwards), on a grid of 1/128 so that
  every coordinate is a double: the index finger is stretched along the ray from the
  wrist, the other fingers are curled below their bases. Every distance the engine
  measures on the hands below is a multiple of 1/128 as well.
\<close>

definition pointHand :: "point list" where
  "pointHand =
     [lm (50 / 128) (90 / 128),
      lm (44 / 128) (86 / 128), lm (44 / 128) (82 / 128), lm (42 / 128) (80 / 128),
      lm (41 / 128) (78 / 128),
      lm (35 / 128) (70 / 128), lm (26 / 128) (58 / 128), lm (20 / 128) (50 / 128),
      lm (14 / 128) (42 / 128),
      lm (50 / 128) (70 / 128), lm (50 / 128) (62 / 128), lm (50 / 128) (66 / 128),
      lm (50 / 128) (75 / 128),
      lm (65 / 128) (70 / 128), lm (68 / 128) (63 / 128), lm (67 / 128) (68 / 128),
      lm (65 / 128) (76 / 128),
      lm (80 / 128) (70 / 128), lm (82 / 128) (65 / 128), lm (81 / 128) (69 / 128),
      lm (79 / 128) (76 / 128)]"

text \<open>The same hand with the middle finger stretched straight up as well.\<close>

definition twoUpHand :: "point list" where
  "twoUpHand =
     pointHand[10 := lm (50 / 128) (55 / 128), 11 := lm (50 / 128) (45 / 128),
               12 := lm (50 / 128) (30 / 128)]"

text \<open>Thumb tip and index tip at one point, once with the middle finger curled and once
  with it stretched.\<close>

definition pinchHand :: "point list" where
  "pinchHand = pointHand[4 := lm (14 / 128) (42 / 128)]"

definition pinchUpHand :: "point list" where
  "pinchUpHand = twoUpHand[4 := lm (14 / 128) (42 / 128)]"

text \<open>The pointing hand with the thumb stretched far out to the side, and its mirror image
  (the other hand): there the thumb is out towards larger x.\<close>

definition thumbOutHand :: "point list" where
  "thumbOutHand = pointHand[4 := lm (20 / 128) (74 / 128)]"

definition mirrorHand :: "point list" where
  "mirrorHand =
     [lm (50 / 128) (90 / 128),
      lm (56 / 128) (86 / 128), lm (56 / 128) (82 / 128), lm (58 / 128) (80 / 128),
      lm (80 / 128) (74 / 128),
      lm (65 / 128) (70 / 128), lm (74 / 128) (58 / 128), lm (80 / 128) (50 / 128),
      lm (86 / 128) (42 / 128),
      lm (50 / 128) (70 / 128), lm (50 / 128) (62 / 128), lm (50 / 128) (66 / 128),
      lm (50 / 128) (75 / 128),
      lm (35 / 128) (70 / 128), lm (32 / 128) (63 / 128), lm (33 / 128) (68 / 128),
      lm (35 / 128) (76 / 128),
      lm (20 / 128) (70 / 128), lm (18 / 128) (65 / 128), lm (19 / 128) (69 / 128),
      lm (21 / 128) (76 / 128)]"

text \<open>The frame of the pointing hand (and of every hand above with a curled middle finger),
  and of the mirrored hand.\<close>

definition pointFrame :: frame where
  "pointFrame =
     \<lparr>wrist = lm (50 / 128) (90 / 128), handLength = Fin (15 / 128),
      handWidth = Fin (45 / 128),
      palmCenter = \<lparr>px = Fin (56 / 128), py = Fin (74 / 128), pz = None\<rparr>\<rparr>"

definition mirrorFrame :: frame where
  "mirrorFrame =
     \<lparr>wrist = lm (50 / 128) (90 / 128), handLength = Fin (15 / 128),
      handWidth = Fin (45 / 128),
      palmCenter = \<lparr>px = Fin (44 / 128), py = Fin (74 / 128), pz = None\<rparr>\<rparr>"

text \<open>The frame of the hand with the middle finger stretched.\<close>

definition twoUpFrame :: frame where
  "twoUpFrame = pointFrame\<lparr>handLength := Fin (60 / 128)\<rparr>"

text \<open>The boundaries of these hands for the index finger as the only target.\<close>

definition indexLines :: boundaries where
  "indexLines =
     \<lparr>greenBoundary =
        \<lparr>lineStart = Some \<lparr>px = Fin (- (83 / 256)), py = Fin (58 / 128), pz = None\<rparr>,
         lineEnd = Some \<lparr>px = Fin (187 / 256), py = Fin (58 / 128), pz = None\<rparr>,
         level = ''GREEN'', referenceNode = Some 6\<rparr>,
      acceptableBoundary =
        \<lparr>lineStart = Some \<lparr>px = Fin (- (95 / 256)), py = Fin (50 / 128), pz = None\<rparr>,
         lineEnd = Some \<lparr>px = Fin (175 / 256), py = Fin (50 / 128), pz = None\<rparr>,
         level = ''ACCEPTABLE'', referenceNode = Some 7\<rparr>,
      lowBoundary =
        \<lparr>lineStart = Some \<lparr>px = Fin (- (65 / 256)), py = Fin (70 / 128), pz = None\<rparr>,
         lineEnd = Some \<lparr>px = Fin (205 / 256), py = Fin (70 / 128), pz = None\<rparr>,
         level = ''LOW'', referenceNode = Some 5\<rparr>\<rparr>"

text \<open>A degenerate hand: all 21 landmarks at one point, so hand length and width are 0.\<close>

definition degenerateHand :: "point list" where
  "degenerateHand = replicate 21 (lm (1 / 2) (1 / 2))"

text \<open>Exercise descriptors: a bare one of a given type, a pinch with a given pair, and
  isolation with given targets.\<close>

definition bareExercise :: "string \<Rightarrow> exercise" where
  "bareExercise t = \<lparr>ex_type = t, ex_targetFingers = None, ex_pinchPair = None\<rparr>"


definition isolationOf :: "int list \<Rightarrow> exercise" where
  "isolationOf ts = \<lparr>ex_type = ''isolation'', ex_targetFingers = Some ts, ex_pinchPair = None\<rparr>"

section \<open>Vocabulary of the properties\<close>

text \<open>
  The classifier result of finger \<open>i\<close> in an isolation exercise, chosen as the loop of
  \<open>evaluateIsolation\<close> chooses: the thumb by \<open>evaluateThumb\<close>, a target by
  \<open>evaluateTargetFinger\<close>, any other finger by \<open>evaluateNonTargetFinger\<close>.
\<close>

definition fingerOutcome ::
    "hypot \<Rightarrow> point option list \<Rightarrow> int list \<Rightarrow> frame \<Rightarrow> boundaries \<Rightarrow> int \<Rightarrow> fingerResult" where
  "fingerOutcome hypot landmarks targetFingers frm bnds i =
     projr (if i = 0 then evaluateThumb hypot landmarks frm (i \<in> set targetFingers)
            else if i \<in> set targetFingers then evaluateTargetFinger hypot i landmarks frm
            else evaluateNonTargetFinger i landmarks bnds frm)"

text \<open>The per-finger results of an isolation result, and every score and zone of a result.\<close>

definition isoFingerResults :: "isolationResult \<Rightarrow> fingerResult list" where
  "isoFingerResults r =
     targets r @ nonTargets r @ (case thumb r of None \<Rightarrow> [] | Some t \<Rightarrow> [t])"

fun scores_of :: "evalResult \<Rightarrow> jsnum list" where
  "scores_of (IsolationR r) = overallScore r # map score (isoFingerResults r)"
| "scores_of (PinchR r) = [p_score r]"
| "scores_of (SpreadR r) =
     s_score r # s_extensionScore r # s_gapScore r # map score (s_fingerResults r)"
| "scores_of (FistR r) = f_score r # map score (f_fingerResults r)"
| "scores_of (FlatR r) =
     fl_score r # fl_extensionScore r # fl_togetherScore r # map score (fl_fingerResults r)"
| "scores_of (FailureR r) = [e_score r]"

fun zones_of :: "evalResult \<Rightarrow> zone list" where
  "zones_of (IsolationR r) = overallZone r # map zone (isoFingerResults r)"
| "zones_of (PinchR r) = [p_zone r]"
| "zones_of (SpreadR r) = s_zone r # map zone (s_fingerResults r)"
| "zones_of (FistR r) = f_zone r # map zone (f_fingerResults r)"
| "zones_of (FlatR r) = fl_zone r # map zone (fl_fingerResults r)"
| "zones_of (FailureR r) = [e_zone r]"

text \<open>
  A descriptor within the interface contract: target fingers, when given, among 0 to 4,
  and a pinch pair, when given, two of the tip nodes 4, 8, 12, 16, 20.
\<close>

definition descriptor_ok :: "exercise \<Rightarrow> bool" where
  "descriptor_ok ex =
     ((case ex_targetFingers ex of None \<Rightarrow> True | Some t \<Rightarrow> set t \<subseteq> {0, 1, 2, 3, 4}) \<and>
      (case ex_pinchPair ex of None \<Rightarrow> True
       | Some pr \<Rightarrow> length pr = 2 \<and> set pr \<subseteq> set ALL_TIPS))"

section \<open>Rounding\<close>

text \<open>Rounding a literal is a computation.\<close>

lemma up_numeral: "up (numeral k) x = (if 2 \<le> x then up (pred_numeral k) (x / 2) + 1 else 0)"
  by (simp add: numeral_eq_Suc)

lemma down_numeral: "down (numeral k) x = (if x < 1 then down (pred_numeral k) (x * 2) - 1 else 0)"
  by (simp add: numeral_eq_Suc)

lemmas rnd_eval = rnd_def expo_def pow2_def rhe_def Let_def up_numeral down_numeral

lemma exact_literals:
  "rnd 0 = Fin 0" "rnd 1 = Fin 1" "rnd 2 = Fin 2" "rnd 4 = Fin 4" "rnd 5 = Fin 5"
  "rnd (1 / 2) = Fin (1 / 2)" "rnd (3 / 2) = Fin (3 / 2)" "rnd (25 / 100) = Fin (25 / 100)"
  "rnd (75 / 100) = Fin (75 / 100)"
  by (simp_all add: rnd_eval)

text \<open>Rounding is visible: the mean of 0.75, 0.75, 0.55 and 0.55 falls below 0.65, and
  \<open>0.1 + 0.2\<close> is above \<open>0.3\<close>.\<close>

lemma rounded_mean_below:
  "js_div (js_sum [Fin (75 / 100), Fin (75 / 100), rnd (55 / 100), rnd (55 / 100)]) (Fin 4)
     = Fin (1463669878895411 / 2251799813685248)"
  "\<not> js_ge (js_div (js_sum [Fin (75 / 100), Fin (75 / 100), rnd (55 / 100), rnd (55 / 100)])
               (Fin 4)) (rnd (65 / 100))"
  by (simp_all add: js_sum_def rnd_eval)

lemma rounded_sum_above: "js_gt (js_add (rnd (1 / 10)) (rnd (2 / 10))) (rnd (3 / 10))"
  by (simp add: js_gt_def rnd_eval)

text \<open>A tie goes to the even double: \<open>0.5 - 0.5 * 0.3\<close> is \<open>0.35\<close>. And a point that
  lies on a sloped line in exact arithmetic is above it in doubles.\<close>

lemma rounded_tie: "js_sub (Fin (1 / 2)) (js_mul (Fin (1 / 2)) (rnd (3 / 10))) = rnd (35 / 100)"
  by (simp add: js_sub_def rnd_eval)

lemma rounded_line:
  "getYOnLine (Fin (53 / 64)) (lm (14 / 64) (39 / 64)) (lm (40 / 64) (24 / 64))
     = Fin (4644337115725825 / 18014398509481984)"
  "isAboveLine (lm (53 / 64) (33 / 128)) (lm (14 / 64) (39 / 64)) (lm (40 / 64) (24 / 64))"
  by (simp_all add: isAboveLine_def getYOnLine_def lm_def js_sub_def rnd_eval)

text \<open>Powers of two.\<close>

lemma pow2_powi: "pow2 k = 2 powi k"
  by (simp add: pow2_def power_int_def inverse_eq_divide power_one_over)

lemma pow2_pos [simp]: "0 < pow2 k"
  by (simp add: pow2_powi)

lemma pow2_nonneg [simp]: "0 \<le> pow2 k"
  using pow2_pos [of k] by (rule less_imp_le)

lemma pow2_add: "pow2 (a + b) = pow2 a * pow2 b"
  by (simp add: pow2_powi power_int_add)

lemma pow2_nat: "0 \<le> k \<Longrightarrow> pow2 k = of_int (2 ^ nat k)"
  by (simp add: pow2_def)

lemma pow2_less_imp: "pow2 a < pow2 b \<Longrightarrow> a < b"
  by (metis not_le pow2_powi power_int_increasing one_le_numeral)

lemma pow2_mono: "a \<le> b \<Longrightarrow> pow2 a \<le> pow2 b"
  by (simp add: pow2_powi power_int_increasing)

lemma pow2_num: "pow2 0 = 1" "pow2 1 = 2" "pow2 (- 1) = 1 / 2"
  by (simp_all add: pow2_def)

text \<open>The exponent found is not above the true one, unless it is below the range of
  normal doubles.\<close>

lemma up_bound: "1 \<le> x \<Longrightarrow> pow2 (up n x) \<le> x"
proof (induction n arbitrary: x)
  case 0
  then show ?case by (simp add: pow2_num)
next
  case (Suc n)
  show ?case
  proof (cases "2 \<le> x")
    case True
    then have "1 \<le> x / 2" by simp
    from Suc.IH [OF this] have "pow2 (up n (x / 2)) * 2 \<le> x" by simp
    then show ?thesis using True by (simp add: pow2_add pow2_num)
  next
    case False
    with Suc.prems show ?thesis by (simp add: pow2_num)
  qed
qed

lemma down_ge1: "1 \<le> y \<Longrightarrow> down n y = 0"
  by (cases n) simp_all

lemma down_bound: "0 < x \<Longrightarrow> x < 1 \<Longrightarrow> pow2 (down n x) \<le> x \<or> down n x = - int n"
proof (induction n arbitrary: x)
  case 0
  then show ?case by simp
next
  case (Suc n)
  show ?case
  proof (cases "x * 2 < 1")
    case True
    from Suc.IH [OF _ True] Suc.prems
    have "pow2 (down n (x * 2)) \<le> x * 2 \<or> down n (x * 2) = - int n" by simp
    then show ?thesis
    proof
      assume "pow2 (down n (x * 2)) \<le> x * 2"
      moreover have "pow2 (down n (x * 2) - 1) = pow2 (down n (x * 2)) * pow2 (- 1)"
        using pow2_add [of "down n (x * 2)" "- 1"] by simp
      ultimately show ?thesis using Suc.prems True by (simp add: pow2_num)
    next
      assume "down n (x * 2) = - int n"
      then show ?thesis using Suc.prems by simp
    qed
  next
    case False
    then have "down n (x * 2) = 0" by (simp add: down_ge1)
    with False Suc.prems show ?thesis by (simp add: pow2_num)
  qed
qed

lemma expo_bound: "0 < x \<Longrightarrow> pow2 (expo x) \<le> x \<or> expo x \<le> - 1022"
  using up_bound [of x 1100] down_bound [of x 1100]
  by (auto simp add: expo_def)

lemma rhe_le: "q \<le> of_int m \<Longrightarrow> rhe q \<le> m"
  unfolding rhe_def Let_def by (auto simp add: floor_le_iff)

lemma rhe_nonneg: "0 \<le> q \<Longrightarrow> 0 \<le> rhe q"
  unfolding rhe_def Let_def by auto

text \<open>
  Rounding does not cross a double: a number between 0 and a double \<open>j 2\<^sup>p\<close> (with \<open>j\<close> of at
  most 53 bits) rounds to a finite number between 0 and that double.
\<close>

lemma rnd_upper_pos:
  assumes x: "0 < x" and le: "x \<le> of_int j * pow2 p" and j: "j < 2 ^ 53"
    and p: "- 1074 \<le> p" "p \<le> 970"
  shows "\<exists>v. rnd x = Fin v \<and> 0 \<le> v \<and> v \<le> of_int j * pow2 p"
proof -
  define ec where "ec = max (expo x) (- 1022)"
  define u where "u = pow2 (ec - 52)"
  define k where "k = nat (p + 52 - ec)"
  have u: "0 < u" by (simp add: u_def)
  have jr: "real_of_int j < 2 ^ 53" using j by (metis of_int_less_iff of_int_numeral of_int_power)
  have glt: "of_int j * pow2 p < pow2 (p + 53)"
  proof -
    have "of_int j * pow2 p < 2 ^ 53 * pow2 p" using jr by simp
    also have "\<dots> = pow2 (53 + p)" unfolding pow2_add by (simp add: pow2_def)
    finally show ?thesis by (simp add: add.commute)
  qed
  have ec: "ec \<le> p + 52"
  proof (cases "pow2 (expo x) \<le> x")
    case True
    with le glt have "pow2 (expo x) < pow2 (p + 53)" by linarith
    from pow2_less_imp [OF this] p show ?thesis by (simp add: ec_def)
  next
    case False
    with expo_bound [OF x] have "expo x \<le> - 1022" by simp
    with p show ?thesis by (simp add: ec_def)
  qed
  have g: "of_int j * pow2 p = of_int (j * 2 ^ k) * u"
  proof -
    have "pow2 p = pow2 ((p + 52 - ec) + (ec - 52))" by simp
    also have "\<dots> = pow2 (p + 52 - ec) * u" unfolding pow2_add u_def ..
    also have "pow2 (p + 52 - ec) = of_int (2 ^ k)" using ec by (simp add: pow2_nat k_def)
    finally show ?thesis by simp
  qed
  have "x / u \<le> of_int (j * 2 ^ k)" using le u unfolding g by (simp add: field_simps)
  from rhe_le [OF this] have "of_int (rhe (x / u)) \<le> (of_int (j * 2 ^ k) :: real)"
    by (simp only: of_int_le_iff)
  then have mle: "of_int (rhe (x / u)) * u \<le> of_int j * pow2 p"
    unfolding g using u by simp
  have "0 \<le> x / u" using x u by simp
  from rhe_nonneg [OF this] have m0: "0 \<le> of_int (rhe (x / u)) * u" using u by simp
  have "pow2 (p + 53) \<le> pow2 1023" using p by (intro pow2_mono) simp
  also have "\<dots> < 2 ^ 1024" by (simp add: pow2_def)
  finally have "of_int j * pow2 p < 2 ^ 1024" using glt by linarith
  with mle have nov: "\<not> 2 ^ 1024 \<le> of_int (rhe (x / u)) * u" by linarith
  have "rnd x = Fin (of_int (rhe (x / u)) * u)"
    using x nov unfolding rnd_def Let_def u_def ec_def by simp
  with m0 mle show ?thesis by blast
qed

lemma rnd_upper:
  assumes "0 \<le> x" "x \<le> of_int j * pow2 p" "j < 2 ^ 53" "- 1074 \<le> p" "p \<le> 970"
  shows "\<exists>v. rnd x = Fin v \<and> 0 \<le> v \<and> v \<le> of_int j * pow2 p"
proof (cases "x = 0")
  case True
  with assms(2) show ?thesis by (simp add: rnd_def)
next
  case False
  with assms(1) have "0 < x" by simp
  from rnd_upper_pos [OF this assms(2-5)] show ?thesis .
qed

lemma rnd_le_nat:
  assumes "0 \<le> x" "x \<le> real k" "k \<le> 8"
  shows "\<exists>v. rnd x = Fin v \<and> 0 \<le> v \<and> v \<le> real k"
proof -
  have "int k < 2 ^ 53" using assms(3) by simp
  from rnd_upper [of x "int k" 0, OF assms(1) _ this] assms(2)
  show ?thesis by (simp add: pow2_def)
qed

lemma rnd_unit: "0 \<le> x \<Longrightarrow> x \<le> 1 \<Longrightarrow> \<exists>v. rnd x = Fin v \<and> 0 \<le> v \<and> v \<le> 1"
  using rnd_le_nat [of x 1] by simp

lemma rnd_le_half:
  assumes "0 \<le> x" "x \<le> 1 / 2"
  shows "\<exists>v. rnd x = Fin v \<and> 0 \<le> v \<and> v \<le> 1 / 2"
  using rnd_upper [of x 1 "- 1"] assms by (simp add: pow2_num)

lemma rnd_nonneg: "0 \<le> x \<Longrightarrow> rnd x = PInf \<or> (\<exists>v. rnd x = Fin v \<and> 0 \<le> v)"
proof (cases "x = 0")
  case True
  then show ?thesis by (simp add: rnd_def)
next
  case False
  assume "0 \<le> x"
  with False have x: "0 < x" by simp
  let ?u = "pow2 (max (expo x) (- 1022) - 52)"
  have "0 \<le> x / ?u" using x by simp
  from rhe_nonneg [OF this] have "0 \<le> of_int (rhe (x / ?u)) * ?u" by simp
  then show ?thesis using x unfolding rnd_def Let_def by simp
qed

section \<open>Basic facts\<close>

lemma bindE_simps [simp]: "bindE (Inr v) f = f v" "bindE (Inl e) f = Inl e"
  by (simp_all add: bindE_def)

lemma deref_simps [simp]: "deref (Some a) = Inr a" "deref None = Inl TypeError"
  by (simp_all add: deref_def)

text \<open>An array all of whose entries are landmarks is \<open>map Some\<close> of the landmarks.\<close>

lemma lm_at_bound:
  assumes "n \<le> length lms" "0 \<le> i" "i < int n"
  shows "lm_at (map Some lms) i = Some (lms ! nat i)"
  using assms by (simp add: lm_at_def)

lemma lm_at_21:
  assumes "21 \<le> length lms" "0 \<le> i" "i \<le> 20"
  shows "lm_at (map Some lms) i = Some (lms ! nat i)"
  using assms by (simp add: lm_at_def)

lemma getHandFrame_ok:
  assumes "18 \<le> length lms"
  shows "getHandFrame hypot (map Some lms) =
     Inr \<lparr>wrist = lms ! 0,
          handLength = distance hypot (lms ! 0) (lms ! 12),
          handWidth = distance hypot (lms ! 5) (lms ! 17),
          palmCenter =
            \<lparr>px = js_div (js_add (js_add (js_add (js_add (px (lms ! 0)) (px (lms ! 5)))
                     (px (lms ! 9))) (px (lms ! 13))) (px (lms ! 17))) (Fin 5),
             py = js_div (js_add (js_add (js_add (js_add (py (lms ! 0)) (py (lms ! 5)))
                     (py (lms ! 9))) (py (lms ! 13))) (py (lms ! 17))) (Fin 5),
             pz = None\<rparr>\<rparr>"
proof -
  note at = lm_at_bound [OF assms]
  have "lm_at (map Some lms) 0 = Some (lms ! 0)" "lm_at (map Some lms) 12 = Some (lms ! 12)"
    "lm_at (map Some lms) 5 = Some (lms ! 5)" "lm_at (map Some lms) 17 = Some (lms ! 17)"
    "lm_at (map Some lms) 9 = Some (lms ! 9)" "lm_at (map Some lms) 13 = Some (lms ! 13)"
    using at [of 0] at [of 12] at [of 5] at [of 17] at [of 9] at [of 13] by simp_all
  then show ?thesis by (simp add: getHandFrame_def)
qed

lemma getHandFrame_short:
  assumes "length arr < 18"
  shows "getHandFrame hypot arr = Inl TypeError"
proof -
  have "lm_at arr 17 = None" using assms by (simp add: lm_at_def)
  then show ?thesis
    by (cases "lm_at arr 0"; cases "lm_at arr 12"; cases "lm_at arr 5")
       (simp_all add: getHandFrame_def)
qed

lemma lm_sel [simp]: "px (lm a b) = Fin a" "py (lm a b) = Fin b" "pz (lm a b) = Some (Fin 0)"
  by (simp_all add: lm_def)

text \<open>Evaluating a concrete hand.\<close>

lemmas hand_eval =
  pointHand_def twoUpHand_def pinchHand_def pinchUpHand_def thumbOutHand_def mirrorHand_def
  pointFrame_def twoUpFrame_def mirrorFrame_def indexLines_def
  distance_def hypotNearest_def is_inf_def zOr0_def real_sqrt_divide
  js_gt_def js_sub_def js_min_def rnd_eval
  FINGER_NODES_def lm_at_def isAboveLine_def getYOnLine_def resultObj_def

section \<open>The hand frame and short input\<close>

text \<open>
  Claim C9, as the code has it. \<open>getHandFrame\<close> checks no length and knows no
  \<open>InvalidInputError\<close>: with fewer than 18 landmarks it raises the \<open>TypeError\<close> of reading
  a coordinate of a missing landmark, and with 18 or more (20, say, which is still short
  of a hand) it returns a frame computed from landmarks 0, 5, 9, 12, 13 and 17. Nothing is
  padded. The check for 21 landmarks is the dispatcher's.
\<close>

theorem getHandFrame_length_behaviour:
  "(length entries < 18 \<longrightarrow> getHandFrame hypot entries = Inl TypeError) \<and>
   (18 \<le> length landmarks \<longrightarrow>
      (\<exists>f. getHandFrame hypot (map Some landmarks) = Inr f \<and> wrist f = landmarks ! 0
         \<and> handLength f = distance hypot (landmarks ! 0) (landmarks ! 12)
         \<and> handWidth f = distance hypot (landmarks ! 5) (landmarks ! 17)))"
  by (simp add: getHandFrame_short getHandFrame_ok)

theorem getHandFrame_length_behaviour_witness:
  "getHandFrame hypotNearest [] = Inl TypeError \<and>
   getHandFrame hypotNearest (map Some (take 18 pointHand)) \<noteq> Inl TypeError"
  using getHandFrame_length_behaviour [of "[]" hypotNearest "take 18 pointHand"]
  by (auto simp add: pointHand_def)

text \<open>
  The claim as the specification states it fails: eighteen landmarks are fewer than 21,
  and \<open>getHandFrame\<close> returns a frame for them.
\<close>

theorem getHandFrame_short_input_counterexample:
  "length (take 18 pointHand) < 21 \<and>
   getHandFrame hypotNearest (map Some (take 18 pointHand)) =
     Inr \<lparr>wrist = lm (50 / 128) (90 / 128), handLength = Fin (15 / 128),
          handWidth = Fin (45 / 128),
          palmCenter = \<lparr>px = Fin (56 / 128), py = Fin (74 / 128), pz = None\<rparr>\<rparr>"
proof -
  have len: "length (take 18 pointHand) = 18" by (simp add: pointHand_def)
  have "getHandFrame hypotNearest (map Some (take 18 pointHand)) =
     Inr \<lparr>wrist = lm (50 / 128) (90 / 128), handLength = Fin (15 / 128),
          handWidth = Fin (45 / 128),
          palmCenter = \<lparr>px = Fin (56 / 128), py = Fin (74 / 128), pz = None\<rparr>\<rparr>"
    unfolding getHandFrame_ok [of "take 18 pointHand", unfolded len, simplified]
    by (simp add: hand_eval)
  with len show ?thesis by simp
qed

lemma FINGER_NODES_valid:
  assumes "0 \<le> i" "i \<le> 4"
  shows "\<exists>n. FINGER_NODES i = Some n \<and> mcp n = 4 * i + 1 \<and> pip n = 4 * i + 2
           \<and> dip n = 4 * i + 3 \<and> tip n = 4 * i + 4"
proof -
  from assms have "i = 0 \<or> i = 1 \<or> i = 2 \<or> i = 3 \<or> i = 4" by arith
  then show ?thesis by (auto simp add: FINGER_NODES_def)
qed

lemma FINGER_NODES_invalid: "i < 0 \<or> 4 < i \<Longrightarrow> FINGER_NODES i = None"
  by (auto simp add: FINGER_NODES_def)

lemma evaluateTargetFinger_unfold:
  assumes len: "21 \<le> length landmarks" and i: "0 \<le> i" "i \<le> 4"
  shows "evaluateTargetFinger hypot i (map Some landmarks) frm =
     Inr (let tipJ = landmarks ! nat (4 * i + 4);
              mcpJ = landmarks ! nat (4 * i + 1);
              normalizedExtension = js_div (js_sub (py mcpJ) (py tipJ)) (handLength frm);
              extensionRatio = js_div (distance hypot tipJ (landmarks ! 0)) (distance hypot mcpJ (landmarks ! 0))
       in
        (if js_gt normalizedExtension (rnd (15 / 100)) \<and> js_gt extensionRatio (rnd (13 / 10))
         then (resultObj GREEN (js_min (Fin 1) (js_add (rnd (85 / 100)) normalizedExtension)))
                \<lparr>extended := Some True, detail := Some ''fully extended''\<rparr>
         else if js_gt normalizedExtension (rnd (8 / 100)) \<and> js_gt extensionRatio (rnd (115 / 100))
         then (resultObj BLUE (Fin (75 / 100)))
                \<lparr>extended := Some True, detail := Some ''well extended''\<rparr>
         else if js_gt normalizedExtension (rnd (2 / 100)) \<and> js_gt extensionRatio (Fin 1)
         then (resultObj YELLOW (rnd (55 / 100)))
                \<lparr>extended := Some True, detail := Some ''partially extended''\<rparr>
         else if js_gt normalizedExtension (rnd (- (5 / 100)))
         then (resultObj YELLOW (rnd (40 / 100)))
                \<lparr>extended := Some False, detail := Some ''minimal extension''\<rparr>
         else (resultObj RED (rnd (20 / 100)))
                \<lparr>extended := Some False, detail := Some ''not extended''\<rparr>))"
proof -
  obtain n where n: "FINGER_NODES i = Some n" "mcp n = 4 * i + 1" "pip n = 4 * i + 2"
      "dip n = 4 * i + 3" "tip n = 4 * i + 4"
    using FINGER_NODES_valid [OF i] by blast
  have at: "lm_at (map Some landmarks) (4 * i + 1) = Some (landmarks ! nat (4 * i + 1))"
     "lm_at (map Some landmarks) (4 * i + 2) = Some (landmarks ! nat (4 * i + 2))"
     "lm_at (map Some landmarks) (4 * i + 3) = Some (landmarks ! nat (4 * i + 3))"
     "lm_at (map Some landmarks) (4 * i + 4) = Some (landmarks ! nat (4 * i + 4))"
     "lm_at (map Some landmarks) 0 = Some (landmarks ! 0)"
    using lm_at_21 [OF len, of "4 * i + 1"] lm_at_21 [OF len, of "4 * i + 2"]
      lm_at_21 [OF len, of "4 * i + 3"] lm_at_21 [OF len, of "4 * i + 4"]
      lm_at_21 [OF len, of 0] i by simp_all
  show ?thesis
    by (simp add: evaluateTargetFinger_def n at Let_def)
qed

section \<open>The finger classifiers\<close>

text \<open>
  Claim C3. For at least 21 landmarks and a finger 1 to 4, \<open>evaluateTargetFinger\<close> returns
  a result, decided by the first tier that matches, from
  \<open>extension = (MCP.y - TIP.y) / handLength\<close> and
  \<open>ratio = dist(tip, wrist) / dist(mcp, wrist)\<close>, where MCP and TIP are landmarks
  \<open>4 i + 1\<close> and \<open>4 i + 4\<close> of finger \<open>i\<close>: both above 0.15 and 1.3 gives GREEN with
  score \<open>min(1, 0.85 + extension)\<close>; both above 0.08 and 1.15 gives BLUE, 0.75; both above
  0.02 and 1.0 gives YELLOW, 0.55, extended; extension above -0.05 gives YELLOW, 0.40, not
  extended; otherwise RED, 0.20. A finger past one threshold of the first tier but not the
  other is not GREEN.
\<close>

theorem evaluateTargetFinger_tiers:
  assumes "21 \<le> length landmarks" and "fingerIdx \<in> {1, 2, 3, 4}"
  shows "\<exists>r. evaluateTargetFinger hypot fingerIdx (map Some landmarks) frm = Inr r \<and>
     (let mcpJ = landmarks ! nat (4 * fingerIdx + 1);
          tipJ = landmarks ! nat (4 * fingerIdx + 4);
          extension = js_div (js_sub (py mcpJ) (py tipJ)) (handLength frm);
          ratio = js_div (distance hypot tipJ (landmarks ! 0)) (distance hypot mcpJ (landmarks ! 0))
      in (if js_gt extension (rnd (15 / 100)) \<and> js_gt ratio (rnd (13 / 10))
          then zone r = GREEN \<and> score r = js_min (Fin 1) (js_add (rnd (85 / 100)) extension)
          else if js_gt extension (rnd (8 / 100)) \<and> js_gt ratio (rnd (115 / 100))
          then zone r = BLUE \<and> score r = Fin (75 / 100)
          else if js_gt extension (rnd (2 / 100)) \<and> js_gt ratio (Fin 1)
          then zone r = YELLOW \<and> score r = rnd (55 / 100) \<and> extended r = Some True
          else if js_gt extension (rnd (- (5 / 100)))
          then zone r = YELLOW \<and> score r = rnd (40 / 100) \<and> extended r = Some False
          else zone r = RED \<and> score r = rnd (20 / 100))
       \<and> (js_gt extension (rnd (15 / 100)) \<and> \<not> js_gt ratio (rnd (13 / 10)) \<longrightarrow> zone r \<noteq> GREEN)
       \<and> (\<not> js_gt extension (rnd (15 / 100)) \<and> js_gt ratio (rnd (13 / 10)) \<longrightarrow> zone r \<noteq> GREEN))"
proof -
  from assms(2) have i: "0 \<le> fingerIdx" "fingerIdx \<le> 4" by auto
  show ?thesis
    unfolding evaluateTargetFinger_unfold [OF assms(1) i]
    by (simp add: Let_def resultObj_def)
qed

theorem evaluateTargetFinger_tiers_witness:
  "21 \<le> length pointHand \<and> (1 :: int) \<in> {1, 2, 3, 4} \<and>
   zone (projr (evaluateTargetFinger hypotNearest 1 (map Some pointHand) pointFrame)) = GREEN \<and>
   score (projr (evaluateTargetFinger hypotNearest 1 (map Some pointHand) pointFrame)) = Fin 1 \<and>
   zone (projr (evaluateTargetFinger hypotNearest 2 (map Some pointHand) pointFrame)) = RED"
proof -
  have len: "21 \<le> length pointHand" by (simp add: pointHand_def)
  from evaluateTargetFinger_tiers [OF len, of 1 hypotNearest pointFrame]
  have "zone (projr (evaluateTargetFinger hypotNearest 1 (map Some pointHand) pointFrame)) = GREEN \<and>
        score (projr (evaluateTargetFinger hypotNearest 1 (map Some pointHand) pointFrame)) = Fin 1"
    by (auto simp add: hand_eval)
  moreover from evaluateTargetFinger_tiers [OF len, of 2 hypotNearest pointFrame]
  have "zone (projr (evaluateTargetFinger hypotNearest 2 (map Some pointHand) pointFrame)) = RED"
    by (auto simp add: hand_eval)
  ultimately show ?thesis using len by simp
qed

text \<open>
  Claim C4. For at least 21 landmarks, a finger 1 to 4 and boundaries whose green and
  acceptable lines have both end points, \<open>evaluateNonTargetFinger\<close> returns a result
  decided by the finger tip (landmark \<open>4 i + 4\<close>) alone: tip above the green line gives
  RED, 0.3, a violation of severity major; else tip above the acceptable line gives YELLOW,
  0.7, no violation; else GREEN, 1.0, no violation. A tip not above the green line is
  never a violation. A point is above a line when its y is less than the line's y at the
  point's x, which the program computes as \<open>start.y + slope * (x - start.x)\<close>, and as
  the mean of the end points' y when they are less than 0.0001 apart in x.
\<close>

theorem evaluateNonTargetFinger_tiers:
  assumes "21 \<le> length landmarks" and "fingerIdx \<in> {1, 2, 3, 4}"
    and "lineStart (greenBoundary bnds) = Some gs" and "lineEnd (greenBoundary bnds) = Some ge"
    and "lineStart (acceptableBoundary bnds) = Some as"
    and "lineEnd (acceptableBoundary bnds) = Some ae"
  shows "\<exists>r. evaluateNonTargetFinger fingerIdx (map Some landmarks) bnds frm = Inr r \<and>
     (let tipJ = landmarks ! nat (4 * fingerIdx + 4)
      in (if isAboveLine tipJ gs ge
          then zone r = RED \<and> score r = rnd (3 / 10) \<and> violation r = Some True
               \<and> severity r = Some ''major''
          else if isAboveLine tipJ as ae
          then zone r = YELLOW \<and> score r = rnd (7 / 10) \<and> violation r = Some False
          else zone r = GREEN \<and> score r = Fin 1 \<and> violation r = Some False)
       \<and> (\<not> isAboveLine tipJ gs ge \<longrightarrow> violation r \<noteq> Some True))
     \<and> (\<forall>p s e.
          isAboveLine p s e =
            js_lt (py p)
              (if js_lt (js_abs (js_sub (px e) (px s))) (rnd (1 / 10000))
               then js_div (js_add (py s) (py e)) (Fin 2)
               else js_add (py s)
                      (js_mul (js_div (js_sub (py e) (py s)) (js_sub (px e) (px s)))
                              (js_sub (px p) (px s)))))"
proof -
  from assms(2) have i: "0 \<le> fingerIdx" "fingerIdx \<le> 4" by auto
  obtain n where n: "FINGER_NODES fingerIdx = Some n" "tip n = 4 * fingerIdx + 4"
    using FINGER_NODES_valid [OF i] by blast
  have at: "lm_at (map Some landmarks) (4 * fingerIdx + 4)
              = Some (landmarks ! nat (4 * fingerIdx + 4))"
    using lm_at_21 [OF assms(1), of "4 * fingerIdx + 4"] i by simp
  have run: "evaluateNonTargetFinger fingerIdx (map Some landmarks) bnds frm =
     Inr (if isAboveLine (landmarks ! nat (4 * fingerIdx + 4)) gs ge
         then (resultObj RED (rnd (3 / 10)))
                \<lparr>inSafeZone := Some False, violation := Some True, severity := Some ''major'',
                 detail := Some ''finger extended into target zone''\<rparr>
         else if isAboveLine (landmarks ! nat (4 * fingerIdx + 4)) as ae
         then (resultObj YELLOW (rnd (7 / 10)))
                \<lparr>inSafeZone := Some True, violation := Some False, severity := Some ''none'',
                 detail := Some ''finger slightly raised but acceptable''\<rparr>
         else (resultObj GREEN (Fin 1))
                \<lparr>inSafeZone := Some True, violation := Some False, severity := Some ''none'',
                 detail := Some ''in safe zone''\<rparr>)"
    by (simp add: evaluateNonTargetFinger_def n at assms Let_def)
  have above: "\<forall>p s e.
          isAboveLine p s e =
            js_lt (py p)
              (if js_lt (js_abs (js_sub (px e) (px s))) (rnd (1 / 10000))
               then js_div (js_add (py s) (py e)) (Fin 2)
               else js_add (py s)
                      (js_mul (js_div (js_sub (py e) (py s)) (js_sub (px e) (px s)))
                              (js_sub (px p) (px s))))"
    by (simp add: isAboveLine_def getYOnLine_def Let_def)
  show ?thesis
    unfolding run using above by (simp add: Let_def resultObj_def)
qed

theorem evaluateNonTargetFinger_tiers_witness:
  "21 \<le> length twoUpHand \<and> (2 :: int) \<in> {1, 2, 3, 4} \<and>
   zone (projr (evaluateNonTargetFinger 2 (map Some twoUpHand) indexLines twoUpFrame)) = RED \<and>
   violation (projr (evaluateNonTargetFinger 2 (map Some twoUpHand) indexLines twoUpFrame))
     = Some True \<and>
   zone (projr (evaluateNonTargetFinger 3 (map Some twoUpHand) indexLines twoUpFrame)) = GREEN \<and>
   violation (projr (evaluateNonTargetFinger 3 (map Some twoUpHand) indexLines twoUpFrame))
     = Some False"
proof -
  have len: "21 \<le> length twoUpHand" by (simp add: twoUpHand_def pointHand_def)
  note t = evaluateNonTargetFinger_tiers [OF len, of _ indexLines
      "\<lparr>px = Fin (- (83 / 256)), py = Fin (58 / 128), pz = None\<rparr>"
      "\<lparr>px = Fin (187 / 256), py = Fin (58 / 128), pz = None\<rparr>"
      "\<lparr>px = Fin (- (95 / 256)), py = Fin (50 / 128), pz = None\<rparr>"
      "\<lparr>px = Fin (175 / 256), py = Fin (50 / 128), pz = None\<rparr>" twoUpFrame]
  from t [of 2]
  have "zone (projr (evaluateNonTargetFinger 2 (map Some twoUpHand) indexLines twoUpFrame)) = RED \<and>
     violation (projr (evaluateNonTargetFinger 2 (map Some twoUpHand) indexLines twoUpFrame))
       = Some True"
    by (auto simp add: hand_eval)
  moreover from t [of 3]
  have "zone (projr (evaluateNonTargetFinger 3 (map Some twoUpHand) indexLines twoUpFrame)) = GREEN \<and>
     violation (projr (evaluateNonTargetFinger 3 (map Some twoUpHand) indexLines twoUpFrame))
       = Some False"
    by (auto simp add: hand_eval)
  ultimately show ?thesis using len by simp
qed

text \<open>
  Claim C6, as the code has it. For at least 21 landmarks \<open>evaluateThumb\<close> returns a
  result. As a target it is decided by \<open>ratio = dist(tip, wrist) / dist(mcp, wrist)\<close>
  (landmarks 4, 2 and 0) and \<open>away = dist(tip, palmCenter) / handWidth\<close>: above 1.4 and
  0.4 gives GREEN, 1.0; above 1.2 and 0.3 gives BLUE, 0.75; ratio above 1.0 gives YELLOW,
  0.50; otherwise RED, 0.25, with \<open>pass = false\<close>. As a non-target it is GREEN, 1.0,
  unless the x of the tip is less than the x of the index base minus 0.3 hand widths and
  the tip is farther than 0.6 hand lengths from the wrist, which gives YELLOW, 0.8; it is
  never a violation and never of severity major. The test is one-sided: only a thumb past
  the index base towards smaller x is downgraded.
\<close>

theorem evaluateThumb_tiers:
  assumes "21 \<le> length landmarks"
  shows "(\<exists>r. evaluateThumb hypot (map Some landmarks) frm True = Inr r \<and>
       (let ratio = js_div (distance hypot (landmarks ! 4) (landmarks ! 0))
                           (distance hypot (landmarks ! 2) (landmarks ! 0));
            away = js_div (distance hypot (landmarks ! 4) (palmCenter frm)) (handWidth frm)
        in if js_gt ratio (rnd (14 / 10)) \<and> js_gt away (rnd (4 / 10))
           then zone r = GREEN \<and> score r = Fin 1
           else if js_gt ratio (rnd (12 / 10)) \<and> js_gt away (rnd (3 / 10))
           then zone r = BLUE \<and> score r = Fin (75 / 100)
           else if js_gt ratio (Fin 1)
           then zone r = YELLOW \<and> score r = Fin (50 / 100)
           else zone r = RED \<and> score r = Fin (25 / 100) \<and> pass r = Some False))
     \<and> (\<exists>r. evaluateThumb hypot (map Some landmarks) frm False = Inr r \<and>
       (let pastIndex = js_lt (px (landmarks ! 4))
                          (js_sub (px (landmarks ! 5)) (js_mul (handWidth frm) (rnd (3 / 10))));
            farOut = js_gt (distance hypot (landmarks ! 4) (landmarks ! 0))
                       (js_mul (handLength frm) (rnd (6 / 10)))
        in (if pastIndex \<and> farOut then zone r = YELLOW \<and> score r = rnd (8 / 10)
            else zone r = GREEN \<and> score r = Fin 1)
         \<and> violation r = Some False \<and> severity r \<noteq> Some ''major''))"
proof -
  note at = lm_at_21 [OF assms]
  have "lm_at (map Some landmarks) 0 = Some (landmarks ! 0)"
    "lm_at (map Some landmarks) 2 = Some (landmarks ! 2)"
    "lm_at (map Some landmarks) 4 = Some (landmarks ! 4)"
    "lm_at (map Some landmarks) 5 = Some (landmarks ! 5)"
    using at [of 0] at [of 2] at [of 4] at [of 5] by simp_all
  then show ?thesis
    by (simp add: evaluateThumb_def Let_def resultObj_def)
qed

theorem evaluateThumb_tiers_witness:
  "21 \<le> length thumbOutHand \<and>
   zone (projr (evaluateThumb hypotNearest (map Some thumbOutHand) pointFrame True)) = GREEN \<and>
   score (projr (evaluateThumb hypotNearest (map Some thumbOutHand) pointFrame True)) = Fin 1 \<and>
   zone (projr (evaluateThumb hypotNearest (map Some thumbOutHand) pointFrame False)) = YELLOW \<and>
   score (projr (evaluateThumb hypotNearest (map Some thumbOutHand) pointFrame False))
     = rnd (8 / 10) \<and>
   violation (projr (evaluateThumb hypotNearest (map Some thumbOutHand) pointFrame False))
     = Some False"
proof -
  have len: "21 \<le> length thumbOutHand" by (simp add: thumbOutHand_def pointHand_def)
  from evaluateThumb_tiers [OF len, of hypotNearest pointFrame]
  show ?thesis
    using len by (auto simp add: hand_eval)
qed

text \<open>
  The claim as the specification states it fails on the other hand. On the mirrored hand
  the thumb tip lies past the index base by more than 0.3 hand widths (on the side away
  from the other fingers) and farther than 0.6 hand lengths from the wrist, and the
  non-target thumb is GREEN with score 1.0, not YELLOW with 0.8.
\<close>

theorem evaluateThumb_mirrored_counterexample:
  "length mirrorHand = 21 \<and>
   getHandFrame hypotNearest (map Some mirrorHand) = Inr mirrorFrame \<and>
   js_gt (px (mirrorHand ! 4))
         (js_add (px (mirrorHand ! 5)) (js_mul (handWidth mirrorFrame) (rnd (3 / 10)))) \<and>
   js_gt (distance hypotNearest (mirrorHand ! 4) (mirrorHand ! 0))
         (js_mul (handLength mirrorFrame) (rnd (6 / 10))) \<and>
   evaluateThumb hypotNearest (map Some mirrorHand) mirrorFrame False =
     Inr ((resultObj GREEN (Fin 1))
            \<lparr>inSafeZone := Some True, violation := Some False, ignored := Some True,
             detail := Some ''thumb in safe zone (lenient)''\<rparr>)"
  by (simp add: getHandFrame_def evaluateThumb_def hand_eval)

section \<open>Boundary construction\<close>

lemma sort_first_Min:
  fixes xs :: "int list"
  assumes "xs \<noteq> []"
  shows "sort xs ! 0 = Min (set xs)"
proof -
  have ne: "sort xs \<noteq> []" using assms by (metis length_0_conv length_sort)
  have "sort xs ! 0 \<in> set (sort xs)" using assms by (intro nth_mem) simp
  moreover have "\<forall>y \<in> set (sort xs). sort xs ! 0 \<le> y"
    using sorted_sort [of xs] ne
    by (metis in_set_conv_nth le0 sorted_nth_mono)
  ultimately show ?thesis
    by (metis List.finite_set Min_eqI set_sort)
qed

lemma sort_last_Max:
  fixes xs :: "int list"
  assumes "xs \<noteq> []"
  shows "sort xs ! (length (sort xs) - 1) = Max (set xs)"
proof -
  have ne: "sort xs \<noteq> []" using assms by (metis length_0_conv length_sort)
  have "sort xs ! (length (sort xs) - 1) \<in> set (sort xs)"
    using assms by (intro nth_mem) simp
  moreover have "\<forall>y \<in> set (sort xs). y \<le> sort xs ! (length (sort xs) - 1)"
  proof
    fix y assume "y \<in> set (sort xs)"
    then obtain k where "k < length (sort xs)" "sort xs ! k = y"
      by (metis in_set_conv_nth)
    then show "y \<le> sort xs ! (length (sort xs) - 1)"
      using sorted_nth_mono [OF sorted_sort, of k "length (sort xs) - 1" xs] by auto
  qed
  ultimately show ?thesis
    by (metis List.finite_set Max_eqI set_sort)
qed

lemma createBoundaryForFinger_unfold:
  assumes len: "21 \<le> length landmarks" and i: "0 \<le> i" "i \<le> 4"
  shows "createBoundaryForFinger i (map Some landmarks) frm =
     Inr (let pipJ = landmarks ! nat (4 * i + 2);
              dipJ = landmarks ! nat (4 * i + 3);
              mcpJ = landmarks ! nat (4 * i + 1);
              lineExtent = js_mul (handWidth frm) (Fin (3 / 2))
          in \<lparr>greenBoundary =
              \<lparr>lineStart = Some \<lparr>px = js_sub (px pipJ) lineExtent, py = py pipJ, pz = None\<rparr>,
               lineEnd = Some \<lparr>px = js_add (px pipJ) lineExtent, py = py pipJ, pz = None\<rparr>,
               level = ''GREEN'', referenceNode = Some (4 * i + 2)\<rparr>,
            acceptableBoundary =
              \<lparr>lineStart = Some \<lparr>px = js_sub (px dipJ) lineExtent, py = py dipJ, pz = None\<rparr>,
               lineEnd = Some \<lparr>px = js_add (px dipJ) lineExtent, py = py dipJ, pz = None\<rparr>,
               level = ''ACCEPTABLE'', referenceNode = Some (4 * i + 3)\<rparr>,
            lowBoundary =
              \<lparr>lineStart = Some \<lparr>px = js_sub (px mcpJ) lineExtent, py = py mcpJ, pz = None\<rparr>,
               lineEnd = Some \<lparr>px = js_add (px mcpJ) lineExtent, py = py mcpJ, pz = None\<rparr>,
               level = ''LOW'', referenceNode = Some (4 * i + 1)\<rparr>\<rparr>)"
proof -
  obtain n where n: "FINGER_NODES i = Some n" "mcp n = 4 * i + 1" "pip n = 4 * i + 2"
      "dip n = 4 * i + 3"
    using FINGER_NODES_valid [OF i] by blast
  have at: "lm_at (map Some landmarks) (4 * i + 1) = Some (landmarks ! nat (4 * i + 1))"
     "lm_at (map Some landmarks) (4 * i + 2) = Some (landmarks ! nat (4 * i + 2))"
     "lm_at (map Some landmarks) (4 * i + 3) = Some (landmarks ! nat (4 * i + 3))"
    using lm_at_21 [OF len, of "4 * i + 1"] lm_at_21 [OF len, of "4 * i + 2"]
      lm_at_21 [OF len, of "4 * i + 3"] i by simp_all
  show ?thesis
    by (simp add: createBoundaryForFinger_def n at Let_def)
qed

lemma createBoundariesForTargets_multi:
  assumes len: "21 \<le> length landmarks" and two: "2 \<le> length ts"
    and ts: "set ts \<subseteq> {0, 1, 2, 3, 4}"
  shows "createBoundariesForTargets ts (map Some landmarks) frm =
     Inr (let lo = Min (set ts); hi = Max (set ts)
          in \<lparr>greenBoundary =
                \<lparr>lineStart = Some (landmarks ! nat (4 * lo + 2)),
                 lineEnd = Some (landmarks ! nat (4 * hi + 2)),
                 level = ''GREEN'', referenceNode = None\<rparr>,
              acceptableBoundary =
                \<lparr>lineStart = Some (landmarks ! nat (4 * lo + 3)),
                 lineEnd = Some (landmarks ! nat (4 * hi + 3)),
                 level = ''ACCEPTABLE'', referenceNode = None\<rparr>,
              lowBoundary =
                \<lparr>lineStart = Some (landmarks ! nat (4 * lo + 1)),
                 lineEnd = Some (landmarks ! nat (4 * hi + 1)),
                 level = ''LOW'', referenceNode = None\<rparr>\<rparr>)"
proof -
  have ne: "ts \<noteq> []" using two by auto
  have lo: "sort ts ! 0 = Min (set ts)" by (rule sort_first_Min [OF ne])
  have hi: "sort ts ! (length ts - 1) = Max (set ts)"
    using sort_last_Max [OF ne] by simp
  have "Min (set ts) \<in> set ts" "Max (set ts) \<in> set ts" using ne by simp_all
  with ts have rl: "0 \<le> Min (set ts)" "Min (set ts) \<le> 4" "0 \<le> Max (set ts)" "Max (set ts) \<le> 4"
    by auto
  obtain nl where nl: "FINGER_NODES (Min (set ts)) = Some nl" "mcp nl = 4 * Min (set ts) + 1"
      "pip nl = 4 * Min (set ts) + 2" "dip nl = 4 * Min (set ts) + 3"
    using FINGER_NODES_valid [OF rl(1,2)] by blast
  obtain nr where nr: "FINGER_NODES (Max (set ts)) = Some nr" "mcp nr = 4 * Max (set ts) + 1"
      "pip nr = 4 * Max (set ts) + 2" "dip nr = 4 * Max (set ts) + 3"
    using FINGER_NODES_valid [OF rl(3,4)] by blast
  note at = lm_at_21 [OF len]
  have ats: "lm_at (map Some landmarks) (4 * Min (set ts) + 1) = Some (landmarks ! nat (4 * Min (set ts) + 1))"
    "lm_at (map Some landmarks) (4 * Min (set ts) + 2) = Some (landmarks ! nat (4 * Min (set ts) + 2))"
    "lm_at (map Some landmarks) (4 * Min (set ts) + 3) = Some (landmarks ! nat (4 * Min (set ts) + 3))"
    "lm_at (map Some landmarks) (4 * Max (set ts) + 1) = Some (landmarks ! nat (4 * Max (set ts) + 1))"
    "lm_at (map Some landmarks) (4 * Max (set ts) + 2) = Some (landmarks ! nat (4 * Max (set ts) + 2))"
    "lm_at (map Some landmarks) (4 * Max (set ts) + 3) = Some (landmarks ! nat (4 * Max (set ts) + 3))"
    using rl at [of "4 * Min (set ts) + 1"] at [of "4 * Min (set ts) + 2"]
      at [of "4 * Min (set ts) + 3"] at [of "4 * Max (set ts) + 1"]
      at [of "4 * Max (set ts) + 2"] at [of "4 * Max (set ts) + 3"] by simp_all
  have l2: "length ts \<noteq> 0" "length ts \<noteq> 1" using two by auto
  show ?thesis
    unfolding createBoundariesForTargets_def
    by (simp only: l2 if_False Let_def length_sort lo hi nl nr bindE_simps deref_simps ats)
qed

text \<open>
  Claim C7. For at least 21 landmarks: with exactly one target finger 1 to 4 the three
  boundaries are horizontal lines (start and end have the same y) at the y of that
  finger's PIP (green), DIP (acceptable) and MCP (low) joint, from 1.5 hand widths left of
  the joint to 1.5 hand widths right of it; with no target the construction is that of the
  middle finger (index 2); with two or more targets each boundary runs from the joint of
  the lowest target to the same joint of the highest target (PIP to PIP, DIP to DIP,
  MCP to MCP), for targets among the fingers 0 to 4. Joint \<open>k\<close> of finger \<open>i\<close> is
  landmark \<open>4 i + k\<close> (MCP 1, PIP 2, DIP 3).
\<close>

theorem boundary_construction:
  assumes "21 \<le> length landmarks"
  shows "(f \<in> {1, 2, 3, 4} \<longrightarrow>
       (let ext = js_mul (handWidth frm) (Fin (3 / 2));
            horizontal = (\<lambda>j lvl.
              \<lparr>lineStart = Some \<lparr>px = js_sub (px (landmarks ! nat j)) ext,
                                  py = py (landmarks ! nat j), pz = None\<rparr>,
               lineEnd = Some \<lparr>px = js_add (px (landmarks ! nat j)) ext,
                                py = py (landmarks ! nat j), pz = None\<rparr>,
               level = lvl, referenceNode = Some j\<rparr>)
        in createBoundariesForTargets [f] (map Some landmarks) frm =
             Inr \<lparr>greenBoundary = horizontal (4 * f + 2) ''GREEN'',
                  acceptableBoundary = horizontal (4 * f + 3) ''ACCEPTABLE'',
                  lowBoundary = horizontal (4 * f + 1) ''LOW''\<rparr>))
     \<and> createBoundariesForTargets [] (map Some landmarks) frm = createBoundariesForTargets [2] (map Some landmarks) frm
     \<and> (2 \<le> length ts \<and> set ts \<subseteq> {0, 1, 2, 3, 4} \<longrightarrow>
         (let lo = Min (set ts); hi = Max (set ts);
              segment = (\<lambda>k lvl.
                \<lparr>lineStart = Some (landmarks ! nat (4 * lo + k)),
                 lineEnd = Some (landmarks ! nat (4 * hi + k)),
                 level = lvl, referenceNode = None\<rparr>)
          in createBoundariesForTargets ts (map Some landmarks) frm =
               Inr \<lparr>greenBoundary = segment 2 ''GREEN'',
                    acceptableBoundary = segment 3 ''ACCEPTABLE'',
                    lowBoundary = segment 1 ''LOW''\<rparr>))"
proof (intro conjI impI)
  assume "f \<in> {1, 2, 3, 4}"
  then have i: "0 \<le> f" "f \<le> 4" by auto
  have single: "createBoundariesForTargets [f] (map Some landmarks) frm = createBoundaryForFinger f (map Some landmarks) frm"
    by (simp add: createBoundariesForTargets_def)
  show "let ext = js_mul (handWidth frm) (Fin (3 / 2));
            horizontal = (\<lambda>j lvl.
              \<lparr>lineStart = Some \<lparr>px = js_sub (px (landmarks ! nat j)) ext,
                                  py = py (landmarks ! nat j), pz = None\<rparr>,
               lineEnd = Some \<lparr>px = js_add (px (landmarks ! nat j)) ext,
                                py = py (landmarks ! nat j), pz = None\<rparr>,
               level = lvl, referenceNode = Some j\<rparr>)
        in createBoundariesForTargets [f] (map Some landmarks) frm =
             Inr \<lparr>greenBoundary = horizontal (4 * f + 2) ''GREEN'',
                  acceptableBoundary = horizontal (4 * f + 3) ''ACCEPTABLE'',
                  lowBoundary = horizontal (4 * f + 1) ''LOW''\<rparr>"
    unfolding single createBoundaryForFinger_unfold [OF assms i]
    by (simp add: Let_def)
next
  show "createBoundariesForTargets [] (map Some landmarks) frm = createBoundariesForTargets [2] (map Some landmarks) frm"
    by (simp add: createBoundariesForTargets_def)
next
  assume "2 \<le> length ts \<and> set ts \<subseteq> {0, 1, 2, 3, 4}"
  then have h: "2 \<le> length ts" "set ts \<subseteq> {0, 1, 2, 3, 4}" by simp_all
  show "let lo = Min (set ts); hi = Max (set ts);
              segment = (\<lambda>k lvl.
                \<lparr>lineStart = Some (landmarks ! nat (4 * lo + k)),
                 lineEnd = Some (landmarks ! nat (4 * hi + k)),
                 level = lvl, referenceNode = None\<rparr>)
          in createBoundariesForTargets ts (map Some landmarks) frm =
               Inr \<lparr>greenBoundary = segment 2 ''GREEN'',
                    acceptableBoundary = segment 3 ''ACCEPTABLE'',
                    lowBoundary = segment 1 ''LOW''\<rparr>"
    unfolding createBoundariesForTargets_multi [OF assms h]
    by (simp add: Let_def)
qed

theorem boundary_construction_witness:
  "21 \<le> length pointHand \<and> (1 :: int) \<in> {1, 2, 3, 4} \<and>
   2 \<le> length [3, 1 :: int] \<and> set [3, 1 :: int] \<subseteq> {0, 1, 2, 3, 4} \<and>
   lineStart (greenBoundary (projr (createBoundariesForTargets [1] (map Some pointHand) pointFrame)))
     = Some \<lparr>px = Fin (- (83 / 256)), py = Fin (58 / 128), pz = None\<rparr> \<and>
   lineEnd (greenBoundary (projr (createBoundariesForTargets [1] (map Some pointHand) pointFrame)))
     = Some \<lparr>px = Fin (187 / 256), py = Fin (58 / 128), pz = None\<rparr> \<and>
   lineStart (lowBoundary (projr (createBoundariesForTargets [3, 1] (map Some pointHand) pointFrame)))
     = Some (lm (35 / 128) (70 / 128)) \<and>
   lineEnd (lowBoundary (projr (createBoundariesForTargets [3, 1] (map Some pointHand) pointFrame)))
     = Some (lm (65 / 128) (70 / 128))"
proof -
  have len: "21 \<le> length pointHand" by (simp add: pointHand_def)
  from boundary_construction [OF len, of 1 pointFrame "[3, 1]"]
  show ?thesis
    by (simp add: Let_def pointHand_def pointFrame_def js_sub_def rnd_eval)
qed

section \<open>Every classifier returns a score between 0 and 1\<close>

lemma unit_rnd [simp]: "0 \<le> c \<Longrightarrow> c \<le> 1 \<Longrightarrow> unit_score (rnd c)"
  using rnd_unit [of c] by auto

lemma unit_score_FinD: "unit_score s \<Longrightarrow> \<exists>v. s = Fin v \<and> 0 \<le> v \<and> v \<le> 1"
  by (cases s) simp_all

lemma unit_mul:
  assumes "unit_score a" "unit_score b"
  shows "unit_score (js_mul a b)"
proof -
  from unit_score_FinD [OF assms(1)] obtain x where x: "a = Fin x" "0 \<le> x" "x \<le> 1" by blast
  from unit_score_FinD [OF assms(2)] obtain y where y: "b = Fin y" "0 \<le> y" "y \<le> 1" by blast
  have "0 \<le> x * y" "x * y \<le> 1" using x y by (simp_all add: mult_le_one)
  then show ?thesis by (simp add: x y)
qed

lemma unit_div_nat:
  assumes "0 \<le> t" "t \<le> real n" "0 < n"
  shows "unit_score (js_div (Fin t) (Fin (real n)))"
proof -
  have "0 \<le> t / real n" "t / real n \<le> 1" using assms by (simp_all add: divide_le_eq)
  then show ?thesis using assms(3) by simp
qed

text \<open>The score of the first tier: \<open>min(1, 0.85 + extension)\<close> for an extension above
  0.15, which may be infinite.\<close>

lemma green_score_unit:
  assumes "js_gt e (rnd (3 / 20))"
  shows "unit_score (js_min (Fin 1) (js_add (rnd (17 / 20)) e))"
proof -
  obtain c where c: "rnd (3 / 20) = Fin c" "0 \<le> c" using rnd_unit [of "3 / 20"] by auto
  obtain d where d: "rnd (17 / 20) = Fin d" "0 \<le> d" using rnd_unit [of "17 / 20"] by auto
  show ?thesis
  proof (cases e)
    case (Fin a)
    with assms c have "0 \<le> d + a" using d by (simp add: js_gt_def)
    from rnd_nonneg [OF this] show ?thesis
      by (auto simp add: Fin d js_min_def)
  qed (use assms c in \<open>simp_all add: d js_gt_def js_min_def\<close>)
qed

lemma evaluateTargetFinger_ok:
  assumes "21 \<le> length lms" "0 \<le> i" "i \<le> 4"
  shows "\<exists>r. evaluateTargetFinger hypot i (map Some lms) frm = Inr r \<and> unit_score (score r)"
  unfolding evaluateTargetFinger_unfold [OF assms]
  by (simp add: Let_def resultObj_def green_score_unit)

lemma evaluateThumb_ok:
  assumes "21 \<le> length lms"
  shows "\<exists>r. evaluateThumb hypot (map Some lms) frm t = Inr r \<and> unit_score (score r)
           \<and> (t \<longrightarrow> pass r = Some True \<or> pass r = Some False)
           \<and> (\<not> t \<longrightarrow> violation r = Some False)"
proof -
  note at = lm_at_21 [OF assms]
  have "lm_at (map Some lms) 0 = Some (lms ! 0)" "lm_at (map Some lms) 2 = Some (lms ! 2)"
    "lm_at (map Some lms) 4 = Some (lms ! 4)" "lm_at (map Some lms) 5 = Some (lms ! 5)"
    using at [of 0] at [of 2] at [of 4] at [of 5] by simp_all
  then show ?thesis
    by (simp add: evaluateThumb_def Let_def resultObj_def)
qed

text \<open>Boundaries whose green and acceptable lines have both end points.\<close>

lemma evaluateNonTargetFinger_unfold:
  assumes "21 \<le> length lms" "0 \<le> i" "i \<le> 4"
    and "lineStart (greenBoundary bnds) = Some gs" and "lineEnd (greenBoundary bnds) = Some ge"
    and "lineStart (acceptableBoundary bnds) = Some as"
    and "lineEnd (acceptableBoundary bnds) = Some ae"
  shows "evaluateNonTargetFinger i (map Some lms) bnds frm =
     Inr (if isAboveLine (lms ! nat (4 * i + 4)) gs ge
         then (resultObj RED (rnd (3 / 10)))
                \<lparr>inSafeZone := Some False, violation := Some True, severity := Some ''major'',
                 detail := Some ''finger extended into target zone''\<rparr>
         else if isAboveLine (lms ! nat (4 * i + 4)) as ae
         then (resultObj YELLOW (rnd (7 / 10)))
                \<lparr>inSafeZone := Some True, violation := Some False, severity := Some ''none'',
                 detail := Some ''finger slightly raised but acceptable''\<rparr>
         else (resultObj GREEN (Fin 1))
                \<lparr>inSafeZone := Some True, violation := Some False, severity := Some ''none'',
                 detail := Some ''in safe zone''\<rparr>)"
proof -
  obtain n where n: "FINGER_NODES i = Some n" "tip n = 4 * i + 4"
    using FINGER_NODES_valid [OF assms(2,3)] by blast
  have at: "lm_at (map Some lms) (4 * i + 4) = Some (lms ! nat (4 * i + 4))"
    using lm_at_21 [OF assms(1), of "4 * i + 4"] assms(2,3) by simp
  show ?thesis
    by (simp add: evaluateNonTargetFinger_def n at assms Let_def)
qed

lemma evaluateNonTargetFinger_ok:
  assumes "21 \<le> length lms" "0 \<le> i" "i \<le> 4"
    and "lineStart (greenBoundary bnds) \<noteq> None" and "lineEnd (greenBoundary bnds) \<noteq> None"
    and "lineStart (acceptableBoundary bnds) \<noteq> None"
    and "lineEnd (acceptableBoundary bnds) \<noteq> None"
  shows "\<exists>r. evaluateNonTargetFinger i (map Some lms) bnds frm = Inr r \<and> unit_score (score r)
           \<and> (violation r = Some True \<or> violation r = Some False)
           \<and> (violation r = Some True \<longrightarrow> severity r = Some ''major'')"
proof -
  from assms(4-7) obtain gs ge as ae where
    "lineStart (greenBoundary bnds) = Some gs" "lineEnd (greenBoundary bnds) = Some ge"
    "lineStart (acceptableBoundary bnds) = Some as" "lineEnd (acceptableBoundary bnds) = Some ae"
    by auto
  from evaluateNonTargetFinger_unfold [OF assms(1-3) this]
  show ?thesis by (simp add: resultObj_def)
qed

lemma createBoundariesForTargets_ok:
  assumes len: "21 \<le> length lms" and ts: "set ts \<subseteq> {0, 1, 2, 3, 4}"
  shows "\<exists>b. createBoundariesForTargets ts (map Some lms) frm = Inr b
      \<and> lineStart (greenBoundary b) \<noteq> None \<and> lineEnd (greenBoundary b) \<noteq> None
      \<and> lineStart (acceptableBoundary b) \<noteq> None \<and> lineEnd (acceptableBoundary b) \<noteq> None"
proof -
  consider "length ts = 0" | "length ts = 1" | "2 \<le> length ts" by linarith
  then show ?thesis
  proof cases
    case 1
    then show ?thesis
      using createBoundaryForFinger_unfold [OF len, of 2 frm]
      by (simp add: createBoundariesForTargets_def Let_def)
  next
    case 2
    then obtain f where f: "ts = [f]" by (cases ts) auto
    with ts have "0 \<le> f" "f \<le> 4" by auto
    from createBoundaryForFinger_unfold [OF len this, of frm] f show ?thesis
      by (simp add: createBoundariesForTargets_def Let_def)
  next
    case 3
    from createBoundariesForTargets_multi [OF len 3 ts, of frm] show ?thesis
      by (simp add: Let_def)
  qed
qed

section \<open>The isolation strategy\<close>

text \<open>One step of the loop over the fingers, and the whole loop, in terms of the classifier
  results.\<close>

lemma isoStep_effect:
  assumes len: "21 \<le> length lms" and i: "0 \<le> i" "i \<le> 4"
    and b: "lineStart (greenBoundary bnds) \<noteq> None" "lineEnd (greenBoundary bnds) \<noteq> None"
      "lineStart (acceptableBoundary bnds) \<noteq> None" "lineEnd (acceptableBoundary bnds) \<noteq> None"
  shows "\<exists>v'. isoStep hypot (map Some lms) tf frm bnds i v = Inr v' \<and>
     unit_score (score (fingerOutcome hypot (map Some lms) tf frm bnds i)) \<and>
     targetScoreSum v' =
       (if i \<in> set tf then js_add (targetScoreSum v) (score (fingerOutcome hypot (map Some lms) tf frm bnds i))
        else targetScoreSum v) \<and>
     targetCount v' = (if i \<in> set tf then targetCount v + 1 else targetCount v) \<and>
     allTargetsOk v' =
       (allTargetsOk v \<and>
        (i \<in> set tf \<longrightarrow> (if i = 0 then pass (fingerOutcome hypot (map Some lms) tf frm bnds i) \<noteq> Some False
                         else zone (fingerOutcome hypot (map Some lms) tf frm bnds i) \<noteq> RED))) \<and>
     hasMajorViolation v' =
       (hasMajorViolation v \<or>
        (i \<notin> set tf \<and> violation (fingerOutcome hypot (map Some lms) tf frm bnds i) = Some True
           \<and> severity (fingerOutcome hypot (map Some lms) tf frm bnds i) = Some ''major'')) \<and>
     (violations (results v') = [] \<longleftrightarrow>
        violations (results v) = [] \<and>
        \<not> (i \<notin> set tf \<and> violation (fingerOutcome hypot (map Some lms) tf frm bnds i) = Some True)) \<and>
     (list_all unit_score (map score (isoFingerResults (results v))) \<longrightarrow>
        list_all unit_score (map score (isoFingerResults (results v'))))"
proof (cases "i = 0")
  case True
  obtain r where r: "evaluateThumb hypot (map Some lms) frm (0 \<in> set tf) = Inr r" "unit_score (score r)"
     "0 \<in> set tf \<longrightarrow> pass r = Some True \<or> pass r = Some False"
     "0 \<notin> set tf \<longrightarrow> violation r = Some False"
    using evaluateThumb_ok [OF len, of hypot frm "0 \<in> set tf"] by blast
  have fo: "fingerOutcome hypot (map Some lms) tf frm bnds 0 = r" by (simp add: fingerOutcome_def r)
  show ?thesis
    unfolding True fo
    using r(2,3,4)
    by (auto simp add: isoStep_def r(1) Let_def isoFingerResults_def split: option.splits)
next
  case False
  show ?thesis
  proof (cases "i \<in> set tf")
    case True
    obtain r where r: "evaluateTargetFinger hypot i (map Some lms) frm = Inr r" "unit_score (score r)"
      using evaluateTargetFinger_ok [OF len i, of hypot frm] by blast
    have fo: "fingerOutcome hypot (map Some lms) tf frm bnds i = r" using False True by (simp add: fingerOutcome_def r)
    show ?thesis
      unfolding fo
      using r(2) False True
      by (auto simp add: isoStep_def r(1) Let_def isoFingerResults_def split: option.splits)
  next
    case nt: False
    obtain r where r: "evaluateNonTargetFinger i (map Some lms) bnds frm = Inr r" "unit_score (score r)"
      "violation r = Some True \<or> violation r = Some False"
      "violation r = Some True \<longrightarrow> severity r = Some ''major''"
      using evaluateNonTargetFinger_ok [OF len i b, of frm] by blast
    have fo: "fingerOutcome hypot (map Some lms) tf frm bnds i = r" using False nt by (simp add: fingerOutcome_def r)
    show ?thesis
      unfolding fo
      using r(2,3,4) False nt
      by (auto simp add: isoStep_def r(1) Let_def isoFingerResults_def split: option.splits)
  qed
qed

lemma fingerOutcome_unit:
  assumes len: "21 \<le> length lms" and i: "0 \<le> i" "i \<le> 4"
    and b: "lineStart (greenBoundary bnds) \<noteq> None" "lineEnd (greenBoundary bnds) \<noteq> None"
      "lineStart (acceptableBoundary bnds) \<noteq> None" "lineEnd (acceptableBoundary bnds) \<noteq> None"
  shows "unit_score (score (fingerOutcome hypot (map Some lms) tf frm bnds i))"
  using isoStep_effect [OF len i b, of hypot tf frm isoInit] by blast

lemma isoLoop_effect:
  assumes len: "21 \<le> length lms"
    and b: "lineStart (greenBoundary bnds) \<noteq> None" "lineEnd (greenBoundary bnds) \<noteq> None"
      "lineStart (acceptableBoundary bnds) \<noteq> None" "lineEnd (acceptableBoundary bnds) \<noteq> None"
    and "set js \<subseteq> {0, 1, 2, 3, 4}"
  shows "\<exists>v'. forE js (isoStep hypot (map Some lms) tf frm bnds) v = Inr v' \<and>
     targetScoreSum v' =
       foldl js_add (targetScoreSum v)
         (map (\<lambda>i. score (fingerOutcome hypot (map Some lms) tf frm bnds i))
              (filter (\<lambda>i. i \<in> set tf) js)) \<and>
     targetCount v' = targetCount v + int (length (filter (\<lambda>i. i \<in> set tf) js)) \<and>
     allTargetsOk v' =
       (allTargetsOk v \<and>
        (\<forall>i \<in> set js. i \<in> set tf \<longrightarrow>
           (if i = 0 then pass (fingerOutcome hypot (map Some lms) tf frm bnds i) \<noteq> Some False
            else zone (fingerOutcome hypot (map Some lms) tf frm bnds i) \<noteq> RED))) \<and>
     hasMajorViolation v' =
       (hasMajorViolation v \<or>
        (\<exists>i \<in> set js. i \<notin> set tf
           \<and> violation (fingerOutcome hypot (map Some lms) tf frm bnds i) = Some True
           \<and> severity (fingerOutcome hypot (map Some lms) tf frm bnds i) = Some ''major'')) \<and>
     (violations (results v') = [] \<longleftrightarrow>
        violations (results v) = [] \<and>
        \<not> (\<exists>i \<in> set js. i \<notin> set tf
             \<and> violation (fingerOutcome hypot (map Some lms) tf frm bnds i) = Some True)) \<and>
     (list_all unit_score (map score (isoFingerResults (results v))) \<longrightarrow>
        list_all unit_score (map score (isoFingerResults (results v'))))"
  using assms(6)
proof (induction js arbitrary: v)
  case Nil
  then show ?case by simp
next
  case (Cons i js)
  from Cons.prems(1) have i: "0 \<le> i" "i \<le> 4" and js: "set js \<subseteq> {0, 1, 2, 3, 4}" by auto
  let ?fo = "fingerOutcome hypot (map Some lms) tf frm bnds"
  obtain v1 where v1: "isoStep hypot (map Some lms) tf frm bnds i v = Inr v1"
    and s1: "targetScoreSum v1 =
       (if i \<in> set tf then js_add (targetScoreSum v) (score (?fo i)) else targetScoreSum v)"
    and c1: "targetCount v1 = (if i \<in> set tf then targetCount v + 1 else targetCount v)"
    and o1: "allTargetsOk v1 =
       (allTargetsOk v \<and>
        (i \<in> set tf \<longrightarrow> (if i = 0 then pass (?fo i) \<noteq> Some False else zone (?fo i) \<noteq> RED)))"
    and m1: "hasMajorViolation v1 =
       (hasMajorViolation v \<or>
        (i \<notin> set tf \<and> violation (?fo i) = Some True \<and> severity (?fo i) = Some ''major''))"
    and e1: "(violations (results v1) = [] \<longleftrightarrow>
        violations (results v) = [] \<and> \<not> (i \<notin> set tf \<and> violation (?fo i) = Some True))"
    and l1: "(list_all unit_score (map score (isoFingerResults (results v))) \<longrightarrow>
        list_all unit_score (map score (isoFingerResults (results v1))))"
    using isoStep_effect [OF len i b, of hypot tf frm v] by blast
  obtain v' where v': "forE js (isoStep hypot (map Some lms) tf frm bnds) v1 = Inr v'"
    and s2: "targetScoreSum v' =
       foldl js_add (targetScoreSum v1)
         (map (\<lambda>i. score (?fo i)) (filter (\<lambda>i. i \<in> set tf) js))"
    and c2: "targetCount v' = targetCount v1 + int (length (filter (\<lambda>i. i \<in> set tf) js))"
    and o2: "allTargetsOk v' =
       (allTargetsOk v1 \<and>
        (\<forall>i \<in> set js. i \<in> set tf \<longrightarrow>
           (if i = 0 then pass (?fo i) \<noteq> Some False else zone (?fo i) \<noteq> RED)))"
    and m2: "hasMajorViolation v' =
       (hasMajorViolation v1 \<or>
        (\<exists>i \<in> set js. i \<notin> set tf \<and> violation (?fo i) = Some True
           \<and> severity (?fo i) = Some ''major''))"
    and e2: "(violations (results v') = [] \<longleftrightarrow>
        violations (results v1) = [] \<and>
        \<not> (\<exists>i \<in> set js. i \<notin> set tf \<and> violation (?fo i) = Some True))"
    and l2: "(list_all unit_score (map score (isoFingerResults (results v1))) \<longrightarrow>
        list_all unit_score (map score (isoFingerResults (results v'))))"
    using Cons.IH [OF js, of v1] by blast
  have run: "forE (i # js) (isoStep hypot (map Some lms) tf frm bnds) v = Inr v'"
    by (simp add: v1 v')
  have S: "targetScoreSum v' =
       foldl js_add (targetScoreSum v)
         (map (\<lambda>i. score (?fo i)) (filter (\<lambda>i. i \<in> set tf) (i # js)))"
    by (simp add: s2 s1)
  have C: "targetCount v' = targetCount v + int (length (filter (\<lambda>i. i \<in> set tf) (i # js)))"
    by (simp add: c2 c1)
  have O: "allTargetsOk v' =
       (allTargetsOk v \<and>
        (\<forall>k \<in> set (i # js). k \<in> set tf \<longrightarrow>
           (if k = 0 then pass (?fo k) \<noteq> Some False else zone (?fo k) \<noteq> RED)))"
    unfolding o2 o1 by auto
  have M: "hasMajorViolation v' =
       (hasMajorViolation v \<or>
        (\<exists>k \<in> set (i # js). k \<notin> set tf \<and> violation (?fo k) = Some True
           \<and> severity (?fo k) = Some ''major''))"
    unfolding m2 m1 by auto
  have E: "(violations (results v') = [] \<longleftrightarrow>
        violations (results v) = [] \<and>
        \<not> (\<exists>k \<in> set (i # js). k \<notin> set tf \<and> violation (?fo k) = Some True))"
    unfolding e2 e1 by auto
  have L: "(list_all unit_score (map score (isoFingerResults (results v))) \<longrightarrow>
        list_all unit_score (map score (isoFingerResults (results v'))))"
    using l1 l2 by blast
  from run S C O M E L show ?case by blast
qed

lemma isoInit_fields [simp]:
  "targetScoreSum isoInit = Fin 0" "targetCount isoInit = 0" "allTargetsOk isoInit"
  "\<not> hasMajorViolation isoInit" "violations (results isoInit) = []"
  "isoFingerResults (results isoInit) = []"
  by (simp_all add: isoInit_def isoFingerResults_def)

lemma ball_filter: "(\<forall>i \<in> set (filter P xs). Q i) = (\<forall>i \<in> set xs. P i \<longrightarrow> Q i)"
  by auto

lemma bex_filter: "(\<exists>i \<in> set (filter P xs). Q i) = (\<exists>i \<in> set xs. P i \<and> Q i)"
  by auto

lemma isolation_run:
  assumes len: "21 \<le> length landmarks" and tf: "set targetFingers \<subseteq> {0, 1, 2, 3, 4}"
  shows "\<exists>frm bnds v. getHandFrame hypot (map Some landmarks) = Inr frm
     \<and> createBoundariesForTargets (filter (\<lambda>f. f \<noteq> 0) targetFingers) (map Some landmarks) frm
         = Inr bnds
     \<and> forE [0, 1, 2, 3, 4] (isoStep hypot (map Some landmarks) targetFingers frm bnds) isoInit
         = Inr v
     \<and> targetScoreSum v =
         js_sum (map (\<lambda>i. score (fingerOutcome hypot (map Some landmarks) targetFingers frm bnds i))
                     (filter (\<lambda>i. i \<in> set targetFingers) [0, 1, 2, 3, 4]))
     \<and> targetCount v = int (length (filter (\<lambda>i. i \<in> set targetFingers) [0, 1, 2, 3, 4]))
     \<and> allTargetsOk v =
         (\<forall>i \<in> set (filter (\<lambda>i. i \<in> set targetFingers) [0, 1, 2, 3, 4]).
            if i = 0
            then pass (fingerOutcome hypot (map Some landmarks) targetFingers frm bnds i) \<noteq> Some False
            else zone (fingerOutcome hypot (map Some landmarks) targetFingers frm bnds i) \<noteq> RED)
     \<and> hasMajorViolation v =
         (\<exists>i \<in> set (filter (\<lambda>i. i \<notin> set targetFingers) [0, 1, 2, 3, 4]).
            violation (fingerOutcome hypot (map Some landmarks) targetFingers frm bnds i) = Some True
            \<and> severity (fingerOutcome hypot (map Some landmarks) targetFingers frm bnds i)
                = Some ''major'')
     \<and> (violations (results v) \<noteq> [] \<longleftrightarrow>
         (\<exists>i \<in> set (filter (\<lambda>i. i \<notin> set targetFingers) [0, 1, 2, 3, 4]).
            violation (fingerOutcome hypot (map Some landmarks) targetFingers frm bnds i)
              = Some True))
     \<and> list_all unit_score (map score (isoFingerResults (results v)))
     \<and> (\<forall>i \<in> set [0, 1, 2, 3, 4].
           unit_score (score (fingerOutcome hypot (map Some landmarks) targetFingers frm bnds i)))"
proof -
  let ?lms = "map Some landmarks"
  obtain frm where frm: "getHandFrame hypot ?lms = Inr frm"
    using getHandFrame_ok [of landmarks hypot] len by auto
  have "set (filter (\<lambda>f. f \<noteq> 0) targetFingers) \<subseteq> {0, 1, 2, 3, 4}" using tf by auto
  from createBoundariesForTargets_ok [OF len this, of frm]
  obtain bnds where bnds:
    "createBoundariesForTargets (filter (\<lambda>f. f \<noteq> 0) targetFingers) ?lms frm = Inr bnds"
    and b: "lineStart (greenBoundary bnds) \<noteq> None" "lineEnd (greenBoundary bnds) \<noteq> None"
      "lineStart (acceptableBoundary bnds) \<noteq> None" "lineEnd (acceptableBoundary bnds) \<noteq> None"
    by blast
  let ?fo = "fingerOutcome hypot ?lms targetFingers frm bnds"
  have js: "set [0, 1, 2, 3, 4 :: int] \<subseteq> {0, 1, 2, 3, 4}" by simp
  from isoLoop_effect [OF len b js, of hypot targetFingers frm isoInit]
  obtain v where v: "forE [0, 1, 2, 3, 4] (isoStep hypot ?lms targetFingers frm bnds) isoInit = Inr v"
    and S: "targetScoreSum v =
       foldl js_add (targetScoreSum isoInit)
         (map (\<lambda>i. score (?fo i)) (filter (\<lambda>i. i \<in> set targetFingers) [0, 1, 2, 3, 4]))"
    and C: "targetCount v = targetCount isoInit
              + int (length (filter (\<lambda>i. i \<in> set targetFingers) [0, 1, 2, 3, 4]))"
    and O: "allTargetsOk v =
       (allTargetsOk isoInit \<and>
        (\<forall>i \<in> set [0, 1, 2, 3, 4]. i \<in> set targetFingers \<longrightarrow>
           (if i = 0 then pass (?fo i) \<noteq> Some False else zone (?fo i) \<noteq> RED)))"
    and M: "hasMajorViolation v =
       (hasMajorViolation isoInit \<or>
        (\<exists>i \<in> set [0, 1, 2, 3, 4]. i \<notin> set targetFingers
           \<and> violation (?fo i) = Some True \<and> severity (?fo i) = Some ''major''))"
    and E: "(violations (results v) = [] \<longleftrightarrow>
        violations (results isoInit) = [] \<and>
        \<not> (\<exists>i \<in> set [0, 1, 2, 3, 4]. i \<notin> set targetFingers
             \<and> violation (?fo i) = Some True))"
    and L: "(list_all unit_score (map score (isoFingerResults (results isoInit))) \<longrightarrow>
        list_all unit_score (map score (isoFingerResults (results v))))"
    by blast
  have S': "targetScoreSum v =
         js_sum (map (\<lambda>i. score (?fo i)) (filter (\<lambda>i. i \<in> set targetFingers) [0, 1, 2, 3, 4]))"
    unfolding S js_sum_def by (simp only: isoInit_fields)
  have C': "targetCount v = int (length (filter (\<lambda>i. i \<in> set targetFingers) [0, 1, 2, 3, 4]))"
    using C by simp
  have O': "allTargetsOk v =
         (\<forall>i \<in> set (filter (\<lambda>i. i \<in> set targetFingers) [0, 1, 2, 3, 4]).
            if i = 0 then pass (?fo i) \<noteq> Some False else zone (?fo i) \<noteq> RED)"
    by (simp only: O ball_filter isoInit_fields simp_thms)
  have M': "hasMajorViolation v =
         (\<exists>i \<in> set (filter (\<lambda>i. i \<notin> set targetFingers) [0, 1, 2, 3, 4]).
            violation (?fo i) = Some True \<and> severity (?fo i) = Some ''major'')"
    by (simp only: M bex_filter isoInit_fields simp_thms)
  have E': "(violations (results v) \<noteq> [] \<longleftrightarrow>
         (\<exists>i \<in> set (filter (\<lambda>i. i \<notin> set targetFingers) [0, 1, 2, 3, 4]).
            violation (?fo i) = Some True))"
    by (simp only: E bex_filter isoInit_fields simp_thms)
  have L': "list_all unit_score (map score (isoFingerResults (results v)))"
    using L by simp
  have U: "\<forall>i \<in> set [0, 1, 2, 3, 4]. unit_score (score (?fo i))"
  proof
    fix i :: int assume "i \<in> set [0, 1, 2, 3, 4]"
    then have "0 \<le> i" "i \<le> 4" by auto
    from fingerOutcome_unit [OF len this b]
    show "unit_score (score (?fo i))" .
  qed
  show ?thesis
    by (rule exI [of _ frm], rule exI [of _ bnds], rule exI [of _ v])
       (intro conjI frm bnds v S' C' O' M' E' L' U)
qed

text \<open>The aggregation after the loop.\<close>

lemma iso_avg0:
  assumes "targetScoreSum v = s" and "targetCount v = int n"
  shows "(if targetCount v > 0
            then js_div (targetScoreSum v) (Fin (real_of_int (targetCount v)))
            else Fin 0) = (if n = 0 then Fin 0 else js_div s (Fin (real n)))"
    by (simp add: assms)

lemma iso_penalty:
  "(if hasMajorViolation v then js_mul m (Fin (1 / 2))
    else if length (violations (results v)) > 0 then js_mul m (rnd (85 / 100))
    else m) =
   (if hasMajorViolation v then js_mul m (Fin (1 / 2))
    else if violations (results v) \<noteq> [] then js_mul m (rnd (85 / 100))
    else m)"
  by simp

lemma evaluateIsolation_final:
  assumes "getHandFrame hypot landmarks = Inr frm"
    and "createBoundariesForTargets (filter (\<lambda>f. f \<noteq> 0) targetFingers) landmarks frm = Inr bnds"
    and "forE [0, 1, 2, 3, 4] (isoStep hypot landmarks targetFingers frm bnds) isoInit = Inr v"
    and "targetScoreSum v = s" and "targetCount v = int n"
    and "final = (if hasMajorViolation v
                  then js_mul (if n = 0 then Fin 0 else js_div s (Fin (real n))) (Fin (1 / 2))
                  else if violations (results v) \<noteq> []
                  then js_mul (if n = 0 then Fin 0 else js_div s (Fin (real n))) (rnd (85 / 100))
                  else (if n = 0 then Fin 0 else js_div s (Fin (real n))))"
  shows "evaluateIsolation hypot landmarks targetFingers =
     Inr ((results v)
                \<lparr>overallScore := final,
                 overallZone := (if js_ge final (rnd (85 / 100)) then GREEN
                                 else if js_ge final (rnd (65 / 100)) then BLUE
                                 else if js_ge final (rnd (40 / 100)) then YELLOW
                                 else RED),
                 passed := (allTargetsOk v \<and> \<not> hasMajorViolation v
                            \<and> js_ge final (rnd (65 / 100)))\<rparr>)"
  unfolding evaluateIsolation_def assms(1) bindE_simps assms(2) assms(3) Let_def
    iso_avg0 [OF assms(4,5)] iso_penalty assms(6) [symmetric]
  by (rule refl)

text \<open>
  Claim C2. For at least 21 landmarks and targets among the fingers 0 to 4,
  \<open>evaluateIsolation\<close> returns a result whose \<open>overallScore\<close> is the arithmetic mean of
  the target fingers' scores (their sum from 0 in the order of the fingers, divided by
  their number, as doubles; 0 when there is no target), multiplied by 0.5 if a non-target
  finger has a violation of severity major, else by 0.85 if a non-target finger has a
  violation; \<open>overallZone\<close> is GREEN from 0.85, BLUE from 0.65, YELLOW from 0.40, else RED;
  and \<open>passed\<close> holds exactly when no target finger is RED (for the thumb: its \<open>pass\<close> is
  not false), there is no major violation, and the penalised mean is at least 0.65. The
  result of each finger is that of its classifier, with the boundaries built from the
  targets other than the thumb.
\<close>

theorem evaluateIsolation_aggregate:
  assumes "21 \<le> length landmarks" and "set targetFingers \<subseteq> {0, 1, 2, 3, 4}"
  shows "\<exists>frm bnds r. getHandFrame hypot (map Some landmarks) = Inr frm
     \<and> createBoundariesForTargets (filter (\<lambda>f. f \<noteq> 0) targetFingers) (map Some landmarks) frm
         = Inr bnds
     \<and> evaluateIsolation hypot (map Some landmarks) targetFingers = Inr r
     \<and> (let res = fingerOutcome hypot (map Some landmarks) targetFingers frm bnds;
             tgts = filter (\<lambda>i. i \<in> set targetFingers) [0, 1, 2, 3, 4];
             others = filter (\<lambda>i. i \<notin> set targetFingers) [0, 1, 2, 3, 4];
             mean = (if tgts = [] then Fin 0
                     else js_div (js_sum (map (\<lambda>i. score (res i)) tgts))
                                 (Fin (real (length tgts))));
             major = (\<exists>i \<in> set others. violation (res i) = Some True
                                        \<and> severity (res i) = Some ''major'');
             anyViolation = (\<exists>i \<in> set others. violation (res i) = Some True);
             final = (if major then js_mul mean (Fin (1 / 2))
                      else if anyViolation then js_mul mean (rnd (85 / 100))
                      else mean)
         in overallScore r = final
          \<and> overallZone r = (if js_ge final (rnd (85 / 100)) then GREEN
                             else if js_ge final (rnd (65 / 100)) then BLUE
                             else if js_ge final (rnd (40 / 100)) then YELLOW
                             else RED)
          \<and> passed r = ((\<forall>i \<in> set tgts. if i = 0 then pass (res i) \<noteq> Some False
                                           else zone (res i) \<noteq> RED)
                        \<and> \<not> major \<and> js_ge final (rnd (65 / 100))))"
proof -
  let ?lms = "map Some landmarks"
  let ?res = "fingerOutcome hypot ?lms targetFingers"
  let ?tgts = "filter (\<lambda>i. i \<in> set targetFingers) [0, 1, 2, 3, 4 :: int]"
  let ?others = "filter (\<lambda>i. i \<notin> set targetFingers) [0, 1, 2, 3, 4 :: int]"
  obtain frm bnds v where frm: "getHandFrame hypot ?lms = Inr frm"
    and bnds: "createBoundariesForTargets (filter (\<lambda>f. f \<noteq> 0) targetFingers) ?lms frm
                 = Inr bnds"
    and v: "forE [0, 1, 2, 3, 4] (isoStep hypot ?lms targetFingers frm bnds) isoInit = Inr v"
    and S: "targetScoreSum v = js_sum (map (\<lambda>i. score (?res frm bnds i)) ?tgts)"
    and C: "targetCount v = int (length ?tgts)"
    and O: "allTargetsOk v =
         (\<forall>i \<in> set ?tgts. if i = 0 then pass (?res frm bnds i) \<noteq> Some False
                           else zone (?res frm bnds i) \<noteq> RED)"
    and M: "hasMajorViolation v =
         (\<exists>i \<in> set ?others. violation (?res frm bnds i) = Some True
            \<and> severity (?res frm bnds i) = Some ''major'')"
    and E: "(violations (results v) \<noteq> [] \<longleftrightarrow>
         (\<exists>i \<in> set ?others. violation (?res frm bnds i) = Some True))"
    using isolation_run [OF assms, of hypot] by blast
  define mean where "mean =
     (if length ?tgts = 0 then Fin 0
      else js_div (js_sum (map (\<lambda>i. score (?res frm bnds i)) ?tgts)) (Fin (real (length ?tgts))))"
  define final where "final =
     (if hasMajorViolation v then js_mul mean (Fin (1 / 2))
      else if violations (results v) \<noteq> [] then js_mul mean (rnd (85 / 100))
      else mean)"
  note fin = evaluateIsolation_final [OF frm bnds v S C final_def [unfolded mean_def]]
  have final': "final =
     (if (\<exists>i \<in> set ?others. violation (?res frm bnds i) = Some True
                \<and> severity (?res frm bnds i) = Some ''major'')
      then js_mul (if ?tgts = [] then Fin 0
                   else js_div (js_sum (map (\<lambda>i. score (?res frm bnds i)) ?tgts))
                               (Fin (real (length ?tgts)))) (Fin (1 / 2))
      else if (\<exists>i \<in> set ?others. violation (?res frm bnds i) = Some True)
      then js_mul (if ?tgts = [] then Fin 0
                   else js_div (js_sum (map (\<lambda>i. score (?res frm bnds i)) ?tgts))
                               (Fin (real (length ?tgts)))) (rnd (85 / 100))
      else (if ?tgts = [] then Fin 0
            else js_div (js_sum (map (\<lambda>i. score (?res frm bnds i)) ?tgts))
                        (Fin (real (length ?tgts)))))"
    unfolding final_def mean_def M E length_0_conv ..
  define r where "r = (results v)
                \<lparr>overallScore := final,
                 overallZone := (if js_ge final (rnd (85 / 100)) then GREEN
                                 else if js_ge final (rnd (65 / 100)) then BLUE
                                 else if js_ge final (rnd (40 / 100)) then YELLOW
                                 else RED),
                 passed := (allTargetsOk v \<and> \<not> hasMajorViolation v
                            \<and> js_ge final (rnd (65 / 100)))\<rparr>"
  have run: "evaluateIsolation hypot ?lms targetFingers = Inr r"
    unfolding r_def by (rule fin)
  have r1: "overallScore r = final" by (simp add: r_def)
  have r2: "overallZone r = (if js_ge final (rnd (85 / 100)) then GREEN
                             else if js_ge final (rnd (65 / 100)) then BLUE
                             else if js_ge final (rnd (40 / 100)) then YELLOW
                             else RED)"
    unfolding r_def by simp
  have "passed r = (allTargetsOk v \<and> \<not> hasMajorViolation v \<and> js_ge final (rnd (65 / 100)))"
    unfolding r_def by simp
  then have r3: "passed r =
       ((\<forall>i \<in> set ?tgts. if i = 0 then pass (?res frm bnds i) \<noteq> Some False
                           else zone (?res frm bnds i) \<noteq> RED)
        \<and> \<not> (\<exists>i \<in> set ?others. violation (?res frm bnds i) = Some True
                  \<and> severity (?res frm bnds i) = Some ''major'')
        \<and> js_ge final (rnd (65 / 100)))"
    unfolding O M .
  show ?thesis
    unfolding Let_def
    by (rule exI [of _ frm], rule exI [of _ bnds], rule exI [of _ r])
       (intro conjI frm bnds run r1 [unfolded final'] r2 [unfolded final'] r3 [unfolded final'])
qed

text \<open>The two hands evaluated: the pointing hand passes with score 1; the stretched middle
  finger is a major violation and halves the score.\<close>

lemma pointHand_frame: "getHandFrame hypotNearest (map Some pointHand) = Inr pointFrame"
  by (simp add: getHandFrame_def hand_eval)

lemma twoUpHand_frame: "getHandFrame hypotNearest (map Some twoUpHand) = Inr twoUpFrame"
  by (simp add: getHandFrame_def hand_eval)

lemma pointHand_lines:
  "createBoundariesForTargets [1] (map Some pointHand) pointFrame = Inr indexLines"
  by (simp add: createBoundariesForTargets_def createBoundaryForFinger_def hand_eval)

lemma twoUpHand_lines:
  "createBoundariesForTargets [1] (map Some twoUpHand) twoUpFrame = Inr indexLines"
  by (simp add: createBoundariesForTargets_def createBoundaryForFinger_def hand_eval)

lemma pointHand_outcomes:
  "score (fingerOutcome hypotNearest (map Some pointHand) [1] pointFrame indexLines 1) = Fin 1"
  "zone (fingerOutcome hypotNearest (map Some pointHand) [1] pointFrame indexLines 1) = GREEN"
  "violation (fingerOutcome hypotNearest (map Some pointHand) [1] pointFrame indexLines 0)
     = Some False"
  "violation (fingerOutcome hypotNearest (map Some pointHand) [1] pointFrame indexLines 2)
     = Some False"
  "violation (fingerOutcome hypotNearest (map Some pointHand) [1] pointFrame indexLines 3)
     = Some False"
  "violation (fingerOutcome hypotNearest (map Some pointHand) [1] pointFrame indexLines 4)
     = Some False"
  by (simp_all add: fingerOutcome_def evaluateTargetFinger_def evaluateThumb_def
        evaluateNonTargetFinger_def hand_eval)

lemma twoUpHand_outcomes:
  "score (fingerOutcome hypotNearest (map Some twoUpHand) [1] twoUpFrame indexLines 1) = Fin 1"
  "zone (fingerOutcome hypotNearest (map Some twoUpHand) [1] twoUpFrame indexLines 1) = GREEN"
  "violation (fingerOutcome hypotNearest (map Some twoUpHand) [1] twoUpFrame indexLines 0)
     = Some False"
  "violation (fingerOutcome hypotNearest (map Some twoUpHand) [1] twoUpFrame indexLines 2)
     = Some True"
  "severity (fingerOutcome hypotNearest (map Some twoUpHand) [1] twoUpFrame indexLines 2)
     = Some ''major''"
  "violation (fingerOutcome hypotNearest (map Some twoUpHand) [1] twoUpFrame indexLines 3)
     = Some False"
  "violation (fingerOutcome hypotNearest (map Some twoUpHand) [1] twoUpFrame indexLines 4)
     = Some False"
  by (simp_all add: fingerOutcome_def evaluateTargetFinger_def evaluateThumb_def
        evaluateNonTargetFinger_def hand_eval)

theorem evaluateIsolation_aggregate_witness:
  "21 \<le> length pointHand \<and> 21 \<le> length twoUpHand \<and> set [1 :: int] \<subseteq> {0, 1, 2, 3, 4} \<and>
   overallScore (projr (evaluateIsolation hypotNearest (map Some pointHand) [1])) = Fin 1 \<and>
   overallZone (projr (evaluateIsolation hypotNearest (map Some pointHand) [1])) = GREEN \<and>
   passed (projr (evaluateIsolation hypotNearest (map Some pointHand) [1])) \<and>
   overallScore (projr (evaluateIsolation hypotNearest (map Some twoUpHand) [1])) = Fin (1 / 2) \<and>
   overallZone (projr (evaluateIsolation hypotNearest (map Some twoUpHand) [1])) = YELLOW \<and>
   \<not> passed (projr (evaluateIsolation hypotNearest (map Some twoUpHand) [1]))"
proof -
  have len: "21 \<le> length pointHand" "21 \<le> length twoUpHand"
    by (simp_all add: twoUpHand_def pointHand_def)
  have tf: "set [1 :: int] \<subseteq> {0, 1, 2, 3, 4}" by simp
  have tg: "filter (\<lambda>i. i \<in> set [1]) [0, 1, 2, 3, 4] = [1 :: int]" by simp
  have ot: "filter (\<lambda>i. i \<notin> set [1]) [0, 1, 2, 3, 4] = [0, 2, 3, 4 :: int]" by simp
  have "overallScore (projr (evaluateIsolation hypotNearest (map Some pointHand) [1])) = Fin 1
      \<and> overallZone (projr (evaluateIsolation hypotNearest (map Some pointHand) [1])) = GREEN
      \<and> passed (projr (evaluateIsolation hypotNearest (map Some pointHand) [1]))"
  proof -
    from evaluateIsolation_aggregate [OF len(1) tf, of hypotNearest] obtain frm bnds r
      where f: "getHandFrame hypotNearest (map Some pointHand) = Inr frm"
        and b: "createBoundariesForTargets (filter (\<lambda>f. f \<noteq> 0) [1]) (map Some pointHand) frm
                  = Inr bnds"
        and r: "evaluateIsolation hypotNearest (map Some pointHand) [1] = Inr r"
        and P: "(let res = fingerOutcome hypotNearest (map Some pointHand) [1] frm bnds;
             tgts = filter (\<lambda>i. i \<in> set [1]) [0, 1, 2, 3, 4];
             others = filter (\<lambda>i. i \<notin> set [1]) [0, 1, 2, 3, 4];
             mean = (if tgts = [] then Fin 0
                     else js_div (js_sum (map (\<lambda>i. score (res i)) tgts))
                                 (Fin (real (length tgts))));
             major = (\<exists>i \<in> set others. violation (res i) = Some True
                                        \<and> severity (res i) = Some ''major'');
             anyViolation = (\<exists>i \<in> set others. violation (res i) = Some True);
             final = (if major then js_mul mean (Fin (1 / 2))
                      else if anyViolation then js_mul mean (rnd (85 / 100))
                      else mean)
         in overallScore r = final
          \<and> overallZone r = (if js_ge final (rnd (85 / 100)) then GREEN
                             else if js_ge final (rnd (65 / 100)) then BLUE
                             else if js_ge final (rnd (40 / 100)) then YELLOW
                             else RED)
          \<and> passed r = ((\<forall>i \<in> set tgts. if i = 0 then pass (res i) \<noteq> Some False
                                           else zone (res i) \<noteq> RED)
                        \<and> \<not> major \<and> js_ge final (rnd (65 / 100))))"
      by (elim exE conjE) (rule that; assumption)
    have frm: "frm = pointFrame" using f pointHand_frame by simp
    have bnds: "bnds = indexLines" using b pointHand_lines unfolding frm by simp
    from P have "overallScore r = Fin 1 \<and> overallZone r = GREEN \<and> passed r"
      unfolding Let_def tg ot frm bnds by (simp add: pointHand_outcomes js_sum_def rnd_eval)
    then show ?thesis by (simp add: r)
  qed
  moreover
  have "overallScore (projr (evaluateIsolation hypotNearest (map Some twoUpHand) [1])) = Fin (1 / 2)
      \<and> overallZone (projr (evaluateIsolation hypotNearest (map Some twoUpHand) [1])) = YELLOW
      \<and> \<not> passed (projr (evaluateIsolation hypotNearest (map Some twoUpHand) [1]))"
  proof -
    from evaluateIsolation_aggregate [OF len(2) tf, of hypotNearest] obtain frm bnds r
      where f: "getHandFrame hypotNearest (map Some twoUpHand) = Inr frm"
        and b: "createBoundariesForTargets (filter (\<lambda>f. f \<noteq> 0) [1]) (map Some twoUpHand) frm
                  = Inr bnds"
        and r: "evaluateIsolation hypotNearest (map Some twoUpHand) [1] = Inr r"
        and P: "(let res = fingerOutcome hypotNearest (map Some twoUpHand) [1] frm bnds;
             tgts = filter (\<lambda>i. i \<in> set [1]) [0, 1, 2, 3, 4];
             others = filter (\<lambda>i. i \<notin> set [1]) [0, 1, 2, 3, 4];
             mean = (if tgts = [] then Fin 0
                     else js_div (js_sum (map (\<lambda>i. score (res i)) tgts))
                                 (Fin (real (length tgts))));
             major = (\<exists>i \<in> set others. violation (res i) = Some True
                                        \<and> severity (res i) = Some ''major'');
             anyViolation = (\<exists>i \<in> set others. violation (res i) = Some True);
             final = (if major then js_mul mean (Fin (1 / 2))
                      else if anyViolation then js_mul mean (rnd (85 / 100))
                      else mean)
         in overallScore r = final
          \<and> overallZone r = (if js_ge final (rnd (85 / 100)) then GREEN
                             else if js_ge final (rnd (65 / 100)) then BLUE
                             else if js_ge final (rnd (40 / 100)) then YELLOW
                             else RED)
          \<and> passed r = ((\<forall>i \<in> set tgts. if i = 0 then pass (res i) \<noteq> Some False
                                           else zone (res i) \<noteq> RED)
                        \<and> \<not> major \<and> js_ge final (rnd (65 / 100))))"
      by (elim exE conjE) (rule that; assumption)
    have frm: "frm = twoUpFrame" using f twoUpHand_frame by simp
    have bnds: "bnds = indexLines" using b twoUpHand_lines unfolding frm by simp
    from P have "overallScore r = Fin (1 / 2) \<and> overallZone r = YELLOW \<and> \<not> passed r"
      unfolding Let_def tg ot frm bnds by (simp add: twoUpHand_outcomes js_sum_def rnd_eval)
    then show ?thesis by (simp add: r)
  qed
  ultimately show ?thesis using len tf by simp
qed

section \<open>The pinch strategy\<close>

lemma indexOf_ALL_TIPS:
  assumes "a \<in> set ALL_TIPS"
  shows "indexOf ALL_TIPS a = a div 4 - 1 \<and> 0 \<le> a div 4 - 1 \<and> a div 4 - 1 \<le> 4
         \<and> 0 \<le> a \<and> a \<le> 20"
  using assms by (auto simp add: ALL_TIPS_def)

lemma pinchStep_effect:
  assumes len: "21 \<le> length lms" and i: "0 \<le> i" "i \<le> 4"
    and b: "lineStart (greenBoundary bnds) \<noteq> None" "lineEnd (greenBoundary bnds) \<noteq> None"
      "lineStart (acceptableBoundary bnds) \<noteq> None" "lineEnd (acceptableBoundary bnds) \<noteq> None"
  shows "pinchStep (map Some lms) involved bnds frm i vs =
     Inr (if i \<notin> set involved
            \<and> violation (projr (evaluateNonTargetFinger i (map Some lms) bnds frm)) = Some True
            \<and> severity (projr (evaluateNonTargetFinger i (map Some lms) bnds frm)) = Some ''major''
          then vs @ [\<lparr>v_finger = FINGER_NAMES ! nat i, v_fingerIndex = None,
                      v_severity = Some ''major''\<rparr>]
          else vs)"
proof -
  obtain r where r: "evaluateNonTargetFinger i (map Some lms) bnds frm = Inr r"
    using evaluateNonTargetFinger_ok [OF len i b, of frm] by blast
  show ?thesis by (simp add: pinchStep_def r)
qed

lemma pinchLoop_effect:
  assumes len: "21 \<le> length lms"
    and b: "lineStart (greenBoundary bnds) \<noteq> None" "lineEnd (greenBoundary bnds) \<noteq> None"
      "lineStart (acceptableBoundary bnds) \<noteq> None" "lineEnd (acceptableBoundary bnds) \<noteq> None"
    and "set js \<subseteq> {0, 1, 2, 3, 4}"
  shows "forE js (pinchStep (map Some lms) involved bnds frm) vs =
     Inr (vs @ map (\<lambda>i. \<lparr>v_finger = FINGER_NAMES ! nat i, v_fingerIndex = None,
                          v_severity = Some ''major''\<rparr>)
            (filter (\<lambda>i. i \<notin> set involved
                \<and> violation (projr (evaluateNonTargetFinger i (map Some lms) bnds frm)) = Some True
                \<and> severity (projr (evaluateNonTargetFinger i (map Some lms) bnds frm))
                    = Some ''major'') js))"
  using assms(6)
proof (induction js arbitrary: vs)
  case Nil
  then show ?case by simp
next
  case (Cons i js)
  from Cons.prems have i: "0 \<le> i" "i \<le> 4" and js: "set js \<subseteq> {0, 1, 2, 3, 4}" by auto
  show ?case
    by (simp add: pinchStep_effect [OF len i b] Cons.IH [OF js])
qed

lemma evaluatePinch_unfold:
  assumes len: "21 \<le> length landmarks" and a: "a \<in> set ALL_TIPS" and b: "b \<in> set ALL_TIPS"
    and frm: "getHandFrame hypot (map Some landmarks) = Inr frm"
    and bnds: "createBoundariesForTargets (filter (\<lambda>f. f \<noteq> 0) [a div 4 - 1, b div 4 - 1])
                 (map Some landmarks) frm = Inr bnds"
    and lines: "lineStart (greenBoundary bnds) \<noteq> None" "lineEnd (greenBoundary bnds) \<noteq> None"
      "lineStart (acceptableBoundary bnds) \<noteq> None" "lineEnd (acceptableBoundary bnds) \<noteq> None"
  shows "evaluatePinch hypot (map Some landmarks) [a, b] =
     Inr (let d = js_div (distance hypot (landmarks ! nat a) (landmarks ! nat b)) (handWidth frm);
              zs = (if js_lt d (rnd (5 / 100)) then (GREEN, Fin 1)
                    else if js_lt d (rnd (8 / 100)) then (GREEN, rnd (90 / 100))
                    else if js_lt d (rnd (12 / 100)) then (BLUE, Fin (75 / 100))
                    else if js_lt d (rnd (18 / 100)) then (YELLOW, rnd (55 / 100))
                    else if js_lt d (rnd (28 / 100)) then (YELLOW, rnd (40 / 100))
                    else (RED, rnd (20 / 100)));
              vs = map (\<lambda>i. \<lparr>v_finger = FINGER_NAMES ! nat i, v_fingerIndex = None,
                                v_severity = Some ''major''\<rparr>)
                    (filter (\<lambda>i. i \<notin> set [a div 4 - 1, b div 4 - 1]
                        \<and> violation (projr (evaluateNonTargetFinger i (map Some landmarks) bnds frm))
                            = Some True
                        \<and> severity (projr (evaluateNonTargetFinger i (map Some landmarks) bnds frm))
                            = Some ''major'')
                      [1, 2, 3, 4]);
              finalScore = (if length vs > 0 then js_mul (snd zs) (rnd (7 / 10)) else snd zs)
          in \<lparr>p_distance = d,
              p_zone = (if length vs > 0 \<and> fst zs = GREEN then BLUE else fst zs),
              p_score = finalScore,
              p_passed = js_ge finalScore (rnd (65 / 100)), p_violations = vs,
              involvedFingers = [a div 4 - 1, b div 4 - 1], thumbHandling = ''lenient''\<rparr>)"
proof -
  note ia = indexOf_ALL_TIPS [OF a] and ib = indexOf_ALL_TIPS [OF b]
  have at: "lm_at (map Some landmarks) a = Some (landmarks ! nat a)"
    "lm_at (map Some landmarks) b = Some (landmarks ! nat b)"
    using lm_at_21 [OF len, of a] lm_at_21 [OF len, of b] ia ib by simp_all
  have js: "set [1, 2, 3, 4 :: int] \<subseteq> {0, 1, 2, 3, 4}" by simp
  note loop = pinchLoop_effect [OF len lines js, of "[a div 4 - 1, b div 4 - 1]" frm "[]"]
  have bsel: "(if length (filter (\<lambda>f. f \<noteq> 0) [a div 4 - 1, b div 4 - 1]) > 0
         then createBoundariesForTargets (filter (\<lambda>f. f \<noteq> 0) [a div 4 - 1, b div 4 - 1])
                (map Some landmarks) frm
         else createBoundaryForFinger 2 (map Some landmarks) frm) = Inr bnds"
  proof (cases "length (filter (\<lambda>f. f \<noteq> 0) [a div 4 - 1, b div 4 - 1]) > 0")
    case True
    then show ?thesis by (simp only: if_True bnds)
  next
    case False
    then have e: "filter (\<lambda>f. f \<noteq> 0) [a div 4 - 1, b div 4 - 1] = []" by simp
    from bnds show ?thesis
      unfolding e by (simp add: createBoundariesForTargets_def)
  qed
  have inv: "map (indexOf ALL_TIPS) [a, b] = [a div 4 - 1, b div 4 - 1]"
    using ia ib by simp
  have pre: "deref (idx_at [a, b] 0) = Inr a" "deref (idx_at [a, b] 1) = Inr b"
    "deref (lm_at (map Some landmarks) a) = Inr (landmarks ! nat a)"
    "deref (lm_at (map Some landmarks) b) = Inr (landmarks ! nat b)"
    by (simp_all add: idx_at_def at)
  show ?thesis
    unfolding evaluatePinch_def frm bindE_simps pre Let_def inv bsel loop append_Nil
    by (rule refl)
qed

lemma evaluatePinch_final:
  assumes len: "21 \<le> length landmarks" and a: "a \<in> set ALL_TIPS" and b: "b \<in> set ALL_TIPS"
    and frm: "getHandFrame hypot (map Some landmarks) = Inr frm"
    and bnds: "createBoundariesForTargets (filter (\<lambda>f. f \<noteq> 0) [a div 4 - 1, b div 4 - 1])
                 (map Some landmarks) frm = Inr bnds"
    and lines: "lineStart (greenBoundary bnds) \<noteq> None" "lineEnd (greenBoundary bnds) \<noteq> None"
      "lineStart (acceptableBoundary bnds) \<noteq> None" "lineEnd (acceptableBoundary bnds) \<noteq> None"
    and d: "d = js_div (distance hypot (landmarks ! nat a) (landmarks ! nat b)) (handWidth frm)"
    and B: "B = (if js_lt d (rnd (5 / 100)) then (GREEN, Fin 1)
                 else if js_lt d (rnd (8 / 100)) then (GREEN, rnd (90 / 100))
                 else if js_lt d (rnd (12 / 100)) then (BLUE, Fin (75 / 100))
                 else if js_lt d (rnd (18 / 100)) then (YELLOW, rnd (55 / 100))
                 else if js_lt d (rnd (28 / 100)) then (YELLOW, rnd (40 / 100))
                 else (RED, rnd (20 / 100)))"
    and off: "off = filter (\<lambda>i. i \<notin> set [a div 4 - 1, b div 4 - 1]
                  \<and> violation (projr (evaluateNonTargetFinger i (map Some landmarks) bnds frm))
                      = Some True
                  \<and> severity (projr (evaluateNonTargetFinger i (map Some landmarks) bnds frm))
                      = Some ''major'')
                [1, 2, 3, 4]"
    and final: "final = (if off \<noteq> [] then js_mul (snd B) (rnd (7 / 10)) else snd B)"
  shows "evaluatePinch hypot (map Some landmarks) [a, b] =
     Inr \<lparr>p_distance = d,
          p_zone = (if off \<noteq> [] \<and> fst B = GREEN then BLUE else fst B),
          p_score = final,
          p_passed = js_ge final (rnd (65 / 100)),
          p_violations = map (\<lambda>i. \<lparr>v_finger = FINGER_NAMES ! nat i, v_fingerIndex = None,
                                    v_severity = Some ''major''\<rparr>) off,
          involvedFingers = [a div 4 - 1, b div 4 - 1], thumbHandling = ''lenient''\<rparr>"
proof -
  have ln: "(0 < length (map (\<lambda>i. \<lparr>v_finger = FINGER_NAMES ! nat i, v_fingerIndex = None,
                                    v_severity = Some ''major''\<rparr>) off)) = (off \<noteq> [])"
    by simp
  show ?thesis
    unfolding evaluatePinch_unfold [OF len a b frm bnds lines] Let_def d [symmetric]
      B [symmetric] off [symmetric] ln final [symmetric]
    by (rule refl)
qed

text \<open>
  Claim C5, as the code has it. For at least 21 landmarks and a pinch pair of two tip
  nodes, \<open>evaluatePinch\<close> returns a result. Its score comes from the distance of the two
  tips over the hand width alone, by the bands below 0.05 GREEN, 1.0; below 0.08 GREEN,
  0.90; below 0.12 BLUE, 0.75; below 0.18 YELLOW, 0.55; below 0.28 YELLOW, 0.40; else RED,
  0.20. The fingers 1 to 4 that are not involved (tip node \<open>4 k + 4\<close> is finger \<open>k\<close>)
  are listed in \<open>violations\<close> exactly when they have a violation of severity major; if
  there is one the score is multiplied by 0.7 and a GREEN zone becomes BLUE; \<open>passed\<close> holds
  exactly when the final score is at least 0.65. With the two tips at distance 0 the
  result is GREEN with score 1.0 when the hand width is neither zero nor \<open>NaN\<close> and no
  other finger has a major violation.
\<close>

theorem evaluatePinch_bands:
  assumes "21 \<le> length landmarks" and "a \<in> set ALL_TIPS" and "b \<in> set ALL_TIPS"
  shows "\<exists>frm bnds r. getHandFrame hypot (map Some landmarks) = Inr frm
     \<and> createBoundariesForTargets (filter (\<lambda>f. f \<noteq> 0) [a div 4 - 1, b div 4 - 1])
           (map Some landmarks) frm = Inr bnds
     \<and> evaluatePinch hypot (map Some landmarks) [a, b] = Inr r
     \<and> (let d = js_div (distance hypot (landmarks ! nat a) (landmarks ! nat b)) (handWidth frm);
             base = (if js_lt d (rnd (5 / 100)) then (GREEN, Fin 1)
                     else if js_lt d (rnd (8 / 100)) then (GREEN, rnd (90 / 100))
                     else if js_lt d (rnd (12 / 100)) then (BLUE, Fin (75 / 100))
                     else if js_lt d (rnd (18 / 100)) then (YELLOW, rnd (55 / 100))
                     else if js_lt d (rnd (28 / 100)) then (YELLOW, rnd (40 / 100))
                     else (RED, rnd (20 / 100)));
             offenders = filter (\<lambda>i. i \<notin> set [a div 4 - 1, b div 4 - 1]
                  \<and> violation (projr (evaluateNonTargetFinger i (map Some landmarks) bnds frm))
                      = Some True
                  \<and> severity (projr (evaluateNonTargetFinger i (map Some landmarks) bnds frm))
                      = Some ''major'')
                [1, 2, 3, 4];
             final = (if offenders \<noteq> [] then js_mul (snd base) (rnd (7 / 10)) else snd base)
         in p_distance r = d
          \<and> p_score r = final
          \<and> p_zone r = (if offenders \<noteq> [] \<and> fst base = GREEN then BLUE else fst base)
          \<and> p_passed r = js_ge final (rnd (65 / 100))
          \<and> p_violations r =
              map (\<lambda>i. \<lparr>v_finger = FINGER_NAMES ! nat i, v_fingerIndex = None,
                        v_severity = Some ''major''\<rparr>) offenders
          \<and> (distance hypot (landmarks ! nat a) (landmarks ! nat b) = Fin 0
               \<and> handWidth frm \<noteq> Fin 0 \<and> handWidth frm \<noteq> NaN \<and> offenders = []
              \<longrightarrow> p_zone r = GREEN \<and> p_score r = Fin 1))"
proof -
  let ?lms = "map Some landmarks"
  obtain frm where frm: "getHandFrame hypot ?lms = Inr frm"
    using getHandFrame_ok [of landmarks hypot] assms(1) by auto
  have "set (filter (\<lambda>f. f \<noteq> 0) [a div 4 - 1, b div 4 - 1]) \<subseteq> {0, 1, 2, 3, 4}"
    using indexOf_ALL_TIPS [OF assms(2)] indexOf_ALL_TIPS [OF assms(3)] by auto
  from createBoundariesForTargets_ok [OF assms(1) this, of frm]
  obtain bnds where bnds:
    "createBoundariesForTargets (filter (\<lambda>f. f \<noteq> 0) [a div 4 - 1, b div 4 - 1]) ?lms frm
       = Inr bnds"
    and lines: "lineStart (greenBoundary bnds) \<noteq> None" "lineEnd (greenBoundary bnds) \<noteq> None"
      "lineStart (acceptableBoundary bnds) \<noteq> None" "lineEnd (acceptableBoundary bnds) \<noteq> None"
    by blast
  define d where
    "d = js_div (distance hypot (landmarks ! nat a) (landmarks ! nat b)) (handWidth frm)"
  define B :: "zone \<times> jsnum" where
    "B = (if js_lt d (rnd (5 / 100)) then (GREEN, Fin 1)
          else if js_lt d (rnd (8 / 100)) then (GREEN, rnd (90 / 100))
          else if js_lt d (rnd (12 / 100)) then (BLUE, Fin (75 / 100))
          else if js_lt d (rnd (18 / 100)) then (YELLOW, rnd (55 / 100))
          else if js_lt d (rnd (28 / 100)) then (YELLOW, rnd (40 / 100))
          else (RED, rnd (20 / 100)))"
  define off where
    "off = filter (\<lambda>i. i \<notin> set [a div 4 - 1, b div 4 - 1]
                  \<and> violation (projr (evaluateNonTargetFinger i ?lms bnds frm)) = Some True
                  \<and> severity (projr (evaluateNonTargetFinger i ?lms bnds frm)) = Some ''major'')
                [1, 2, 3, 4]"
  define final where "final = (if off \<noteq> [] then js_mul (snd B) (rnd (7 / 10)) else snd B)"
  define r where "r =
     \<lparr>p_distance = d,
      p_zone = (if off \<noteq> [] \<and> fst B = GREEN then BLUE else fst B),
      p_score = final,
      p_passed = js_ge final (rnd (65 / 100)),
      p_violations = map (\<lambda>i. \<lparr>v_finger = FINGER_NAMES ! nat i, v_fingerIndex = None,
                                v_severity = Some ''major''\<rparr>) off,
      involvedFingers = [a div 4 - 1, b div 4 - 1], thumbHandling = ''lenient''\<rparr>"
  have run: "evaluatePinch hypot ?lms [a, b] = Inr r"
    unfolding r_def
    by (rule evaluatePinch_final [OF assms frm bnds lines d_def B_def off_def final_def])
  have r1: "p_distance r = d" by (simp add: r_def)
  have r2: "p_score r = final" by (simp add: r_def)
  have r3: "p_zone r = (if off \<noteq> [] \<and> fst B = GREEN then BLUE else fst B)"
    by (simp add: r_def)
  have r4: "p_passed r = js_ge final (rnd (65 / 100))" by (simp add: r_def)
  have r5: "p_violations r =
      map (\<lambda>i. \<lparr>v_finger = FINGER_NAMES ! nat i, v_fingerIndex = None,
                v_severity = Some ''major''\<rparr>) off"
    by (simp add: r_def)
  have r6: "distance hypot (landmarks ! nat a) (landmarks ! nat b) = Fin 0
               \<and> handWidth frm \<noteq> Fin 0 \<and> handWidth frm \<noteq> NaN \<and> off = []
              \<longrightarrow> p_zone r = GREEN \<and> p_score r = Fin 1"
  proof
    assume h: "distance hypot (landmarks ! nat a) (landmarks ! nat b) = Fin 0
               \<and> handWidth frm \<noteq> Fin 0 \<and> handWidth frm \<noteq> NaN \<and> off = []"
    then have "d = Fin 0" by (cases "handWidth frm") (simp_all add: d_def rnd_def)
    moreover have "js_lt (Fin 0) (rnd (5 / 100))" by (simp add: rnd_eval)
    ultimately have "B = (GREEN, Fin 1)" by (simp only: B_def if_True)
    with h show "p_zone r = GREEN \<and> p_score r = Fin 1"
      by (simp add: r_def final_def)
  qed
  note u = final_def off_def B_def d_def
  show ?thesis
    unfolding Let_def
    by (rule exI [of _ frm], rule exI [of _ bnds], rule exI [of _ r])
       (intro conjI frm bnds run r1 [unfolded u] r2 [unfolded u] r3 [unfolded u]
          r4 [unfolded u] r5 [unfolded u] r6 [unfolded u])
qed

lemma pinchHand_facts:
  "getHandFrame hypotNearest (map Some pinchHand) = Inr pointFrame"
  "createBoundariesForTargets [1] (map Some pinchHand) pointFrame = Inr indexLines"
  "distance hypotNearest (pinchHand ! 4) (pinchHand ! 8) = Fin 0"
  "violation (projr (evaluateNonTargetFinger 2 (map Some pinchHand) indexLines pointFrame))
     = Some False"
  "violation (projr (evaluateNonTargetFinger 3 (map Some pinchHand) indexLines pointFrame))
     = Some False"
  "violation (projr (evaluateNonTargetFinger 4 (map Some pinchHand) indexLines pointFrame))
     = Some False"
  by (simp_all add: getHandFrame_def createBoundariesForTargets_def createBoundaryForFinger_def
        evaluateNonTargetFinger_def hand_eval)

lemma pinchUpHand_facts:
  "getHandFrame hypotNearest (map Some pinchUpHand) = Inr twoUpFrame"
  "createBoundariesForTargets [1] (map Some pinchUpHand) twoUpFrame = Inr indexLines"
  "distance hypotNearest (pinchUpHand ! 4) (pinchUpHand ! 8) = Fin 0"
  "violation (projr (evaluateNonTargetFinger 2 (map Some pinchUpHand) indexLines twoUpFrame))
     = Some True"
  "severity (projr (evaluateNonTargetFinger 2 (map Some pinchUpHand) indexLines twoUpFrame))
     = Some ''major''"
  "violation (projr (evaluateNonTargetFinger 3 (map Some pinchUpHand) indexLines twoUpFrame))
     = Some False"
  "violation (projr (evaluateNonTargetFinger 4 (map Some pinchUpHand) indexLines twoUpFrame))
     = Some False"
  by (simp_all add: getHandFrame_def createBoundariesForTargets_def createBoundaryForFinger_def
        evaluateNonTargetFinger_def hand_eval)

lemma frame_widths:
  "handWidth pointFrame = Fin (45 / 128)" "handWidth twoUpFrame = Fin (45 / 128)"
  by (simp_all add: pointFrame_def twoUpFrame_def)

theorem evaluatePinch_bands_witness:
  "21 \<le> length pinchHand \<and> (4 :: int) \<in> set ALL_TIPS \<and> (8 :: int) \<in> set ALL_TIPS \<and>
   p_zone (projr (evaluatePinch hypotNearest (map Some pinchHand) [4, 8])) = GREEN \<and>
   p_score (projr (evaluatePinch hypotNearest (map Some pinchHand) [4, 8])) = Fin 1 \<and>
   p_passed (projr (evaluatePinch hypotNearest (map Some pinchHand) [4, 8])) \<and>
   p_violations (projr (evaluatePinch hypotNearest (map Some pinchHand) [4, 8])) = []"
proof -
  have len: "21 \<le> length pinchHand" by (simp add: pinchHand_def pointHand_def)
  have tips: "(4 :: int) \<in> set ALL_TIPS" "(8 :: int) \<in> set ALL_TIPS" by (simp_all add: ALL_TIPS_def)
  have inv: "filter (\<lambda>f. f \<noteq> 0) [4 div 4 - 1, 8 div 4 - 1] = [1 :: int]" by simp
  from evaluatePinch_bands [OF len tips, of hypotNearest] obtain frm bnds r
    where f: "getHandFrame hypotNearest (map Some pinchHand) = Inr frm"
      and b: "createBoundariesForTargets (filter (\<lambda>f. f \<noteq> 0) [4 div 4 - 1, 8 div 4 - 1])
                (map Some pinchHand) frm = Inr bnds"
      and r: "evaluatePinch hypotNearest (map Some pinchHand) [4, 8] = Inr r"
      and P: "(let d = js_div (distance hypotNearest (pinchHand ! nat 4) (pinchHand ! nat 8))
                         (handWidth frm);
             base = (if js_lt d (rnd (5 / 100)) then (GREEN, Fin 1)
                     else if js_lt d (rnd (8 / 100)) then (GREEN, rnd (90 / 100))
                     else if js_lt d (rnd (12 / 100)) then (BLUE, Fin (75 / 100))
                     else if js_lt d (rnd (18 / 100)) then (YELLOW, rnd (55 / 100))
                     else if js_lt d (rnd (28 / 100)) then (YELLOW, rnd (40 / 100))
                     else (RED, rnd (20 / 100)));
             offenders = filter (\<lambda>i. i \<notin> set [4 div 4 - 1, 8 div 4 - 1]
                  \<and> violation (projr (evaluateNonTargetFinger i (map Some pinchHand) bnds frm))
                      = Some True
                  \<and> severity (projr (evaluateNonTargetFinger i (map Some pinchHand) bnds frm))
                      = Some ''major'')
                [1, 2, 3, 4];
             final = (if offenders \<noteq> [] then js_mul (snd base) (rnd (7 / 10)) else snd base)
         in p_distance r = d
          \<and> p_score r = final
          \<and> p_zone r = (if offenders \<noteq> [] \<and> fst base = GREEN then BLUE else fst base)
          \<and> p_passed r = js_ge final (rnd (65 / 100))
          \<and> p_violations r =
              map (\<lambda>i. \<lparr>v_finger = FINGER_NAMES ! nat i, v_fingerIndex = None,
                        v_severity = Some ''major''\<rparr>) offenders
          \<and> (distance hypotNearest (pinchHand ! nat 4) (pinchHand ! nat 8) = Fin 0
               \<and> handWidth frm \<noteq> Fin 0 \<and> handWidth frm \<noteq> NaN \<and> offenders = []
              \<longrightarrow> p_zone r = GREEN \<and> p_score r = Fin 1))"
    by (elim exE conjE) (rule that; assumption)
  have frm: "frm = pointFrame" using f pinchHand_facts(1) by simp
  have bnds: "bnds = indexLines" using b pinchHand_facts(2) unfolding frm inv by simp
  from P have "p_zone r = GREEN \<and> p_score r = Fin 1 \<and> p_passed r \<and> p_violations r = []"
    unfolding Let_def frm bnds by (simp add: pinchHand_facts frame_widths rnd_eval)
  with len tips show ?thesis by (simp add: r)
qed

text \<open>
  Coincident tips alone do not give GREEN with score 1.0: with the thumb tip on the index
  tip and the middle finger stretched above the green line, the middle finger is a major
  violation and the result is BLUE with score 0.7.
\<close>

theorem evaluatePinch_coincident_counterexample:
  "21 \<le> length pinchUpHand \<and> pinchUpHand ! 4 = pinchUpHand ! 8 \<and>
   evaluatePinch hypotNearest (map Some pinchUpHand) [4, 8] =
     Inr \<lparr>p_distance = Fin 0, p_zone = BLUE, p_score = rnd (7 / 10), p_passed = True,
          p_violations = [\<lparr>v_finger = ''middle'', v_fingerIndex = None,
                            v_severity = Some ''major''\<rparr>],
          involvedFingers = [0, 1], thumbHandling = ''lenient''\<rparr>"
proof -
  have len: "21 \<le> length pinchUpHand" by (simp add: pinchUpHand_def twoUpHand_def pointHand_def)
  have same: "pinchUpHand ! 4 = pinchUpHand ! 8"
    by (simp add: pinchUpHand_def twoUpHand_def pointHand_def)
  have tips: "(4 :: int) \<in> set ALL_TIPS" "(8 :: int) \<in> set ALL_TIPS" by (simp_all add: ALL_TIPS_def)
  have bnds: "createBoundariesForTargets (filter (\<lambda>f. f \<noteq> 0) [4 div 4 - 1, 8 div 4 - 1])
                (map Some pinchUpHand) twoUpFrame = Inr indexLines"
    using pinchUpHand_facts(2) by simp
  have lines: "lineStart (greenBoundary indexLines) \<noteq> None"
    "lineEnd (greenBoundary indexLines) \<noteq> None"
    "lineStart (acceptableBoundary indexLines) \<noteq> None"
    "lineEnd (acceptableBoundary indexLines) \<noteq> None"
    by (simp_all add: indexLines_def)
  have d: "Fin 0 = js_div (distance hypotNearest (pinchUpHand ! nat 4) (pinchUpHand ! nat 8))
                          (handWidth twoUpFrame)"
    by (simp add: pinchUpHand_facts frame_widths rnd_def)
  have B: "(GREEN, Fin 1) =
       (if js_lt (Fin 0) (rnd (5 / 100)) then (GREEN, Fin 1)
        else if js_lt (Fin 0) (rnd (8 / 100)) then (GREEN, rnd (90 / 100))
        else if js_lt (Fin 0) (rnd (12 / 100)) then (BLUE, Fin (75 / 100))
        else if js_lt (Fin 0) (rnd (18 / 100)) then (YELLOW, rnd (55 / 100))
        else if js_lt (Fin 0) (rnd (28 / 100)) then (YELLOW, rnd (40 / 100))
        else (RED, rnd (20 / 100)))"
    by (simp add: rnd_eval)
  have off: "[2 :: int] = filter (\<lambda>i. i \<notin> set [4 div 4 - 1, 8 div 4 - 1]
        \<and> violation (projr (evaluateNonTargetFinger i (map Some pinchUpHand) indexLines twoUpFrame))
            = Some True
        \<and> severity (projr (evaluateNonTargetFinger i (map Some pinchUpHand) indexLines twoUpFrame))
            = Some ''major'')
      [1, 2, 3, 4]"
    by (simp add: pinchUpHand_facts)
  have final: "rnd (7 / 10) = (if [2 :: int] \<noteq> [] then js_mul (snd (GREEN, Fin 1)) (rnd (7 / 10))
                               else snd (GREEN, Fin 1))"
    by (simp add: rnd_eval)
  from evaluatePinch_final [OF len tips pinchUpHand_facts(1) bnds lines d B off final]
  have "evaluatePinch hypotNearest (map Some pinchUpHand) [4, 8] =
     Inr \<lparr>p_distance = Fin 0, p_zone = BLUE, p_score = rnd (7 / 10), p_passed = True,
          p_violations = [\<lparr>v_finger = ''middle'', v_fingerIndex = None,
                            v_severity = Some ''major''\<rparr>],
          involvedFingers = [0, 1], thumbHandling = ''lenient''\<rparr>"
    by (simp add: FINGER_NAMES_def rnd_eval)
  with len same show ?thesis by simp
qed

section \<open>Scores of every strategy\<close>

text \<open>A loop of at most \<open>n\<close> steps whose every step keeps an invariant indexed by the
  number of steps taken.\<close>

lemma forE_invariant:
  assumes "\<And>i s k. i \<in> set js \<Longrightarrow> k < n \<Longrightarrow> I k s \<Longrightarrow> \<exists>s'. f i s = Inr s' \<and> I (Suc k) s'"
    and "I k s" and "k + length js \<le> n"
  shows "\<exists>s'. forE js f s = Inr s' \<and> I (k + length js) s'"
  using assms
proof (induction js arbitrary: k s)
  case Nil
  then show ?case by simp
next
  case (Cons i js)
  from Cons.prems(3) have k: "k < n" "Suc k + length js \<le> n" by simp_all
  from Cons.prems(1) [of i k s] Cons.prems(2) k(1)
  obtain s1 where s1: "f i s = Inr s1" "I (Suc k) s1" by auto
  have "\<exists>s'. forE js f s1 = Inr s' \<and> I (Suc k + length js) s'"
    by (rule Cons.IH [OF _ s1(2) k(2)]) (rule Cons.prems(1), simp_all)
  then show ?case by (simp add: s1)
qed

text \<open>Adding a unit score to a running sum of at most \<open>k\<close> gives a sum of at most
  \<open>k + 1\<close>, also after rounding.\<close>

lemma add_unit_bound:
  assumes "unit_score s" "0 \<le> v" "v \<le> real k" "k < 8"
  shows "\<exists>v'. js_add (Fin v) s = Fin v' \<and> 0 \<le> v' \<and> v' \<le> real (Suc k)"
proof -
  from unit_score_FinD [OF assms(1)] obtain x where x: "s = Fin x" "0 \<le> x" "x \<le> 1" by blast
  have "0 \<le> v + x" "v + x \<le> real (Suc k)" "Suc k \<le> 8" using assms x by simp_all
  from rnd_le_nat [OF this] show ?thesis by (simp add: x)
qed

lemma js_sum_unit:
  assumes "list_all unit_score xs" "0 \<le> v" "v \<le> real k" "k + length xs \<le> 8"
  shows "\<exists>t. foldl js_add (Fin v) xs = Fin t \<and> 0 \<le> t \<and> t \<le> real (k + length xs)"
  using assms
proof (induction xs arbitrary: v k)
  case Nil
  then show ?case by simp
next
  case (Cons x xs)
  from Cons.prems have x: "unit_score x" and xs: "list_all unit_score xs" and k: "k < 8"
    and k': "Suc k + length xs \<le> 8" by simp_all
  from add_unit_bound [OF x Cons.prems(2,3) k]
  obtain v' where v': "js_add (Fin v) x = Fin v'" "0 \<le> v'" "v' \<le> real (Suc k)" by blast
  from Cons.IH [OF xs v'(2,3) k'] show ?case by (simp add: v')
qed

lemma accumulate_ok:
  assumes "unit_score (score r)" "list_all unit_score (map score rs)"
    and "0 \<le> v" "v \<le> real k" "k < 8"
  shows "list_all unit_score (map score (rs @ [r])) \<and>
         (\<exists>v'. js_add (Fin v) (score r) = Fin v' \<and> 0 \<le> v' \<and> v' \<le> real (Suc k))"
  using add_unit_bound [OF assms(1,3,4,5)] assms(1,2) by simp

text \<open>The weights of spread (0.5 and 0.5) and of flat (0.6 and 0.4, whose doubles add up
  to 1 exactly).\<close>

lemma flat_weights:
  "rnd (6 / 10) = Fin (5404319552844595 / 9007199254740992)"
  "rnd (4 / 10) = Fin (3602879701896397 / 9007199254740992)"
  by (simp_all add: rnd_eval)

lemma spread_combine:
  assumes "unit_score a" "unit_score b"
  shows "unit_score (js_add (js_mul a (Fin (5 / 10))) (js_mul b (Fin (5 / 10))))"
proof -
  from unit_score_FinD [OF assms(1)] obtain x where x: "a = Fin x" "0 \<le> x" "x \<le> 1" by blast
  from unit_score_FinD [OF assms(2)] obtain y where y: "b = Fin y" "0 \<le> y" "y \<le> 1" by blast
  from rnd_le_half [of "x * (5 / 10)"] x
  obtain v where v: "rnd (x * (5 / 10)) = Fin v" "0 \<le> v" "v \<le> 1 / 2" by auto
  from rnd_le_half [of "y * (5 / 10)"] y
  obtain w where w: "rnd (y * (5 / 10)) = Fin w" "0 \<le> w" "w \<le> 1 / 2" by auto
  from rnd_unit [of "v + w"] v w obtain t where "rnd (v + w) = Fin t" "0 \<le> t" "t \<le> 1" by auto
  then show ?thesis using v(1) w(1) by (simp add: x y)
qed

lemma flat_combine:
  assumes "unit_score a" "unit_score b"
  shows "unit_score (js_add (js_mul a (rnd (6 / 10))) (js_mul b (rnd (4 / 10))))"
proof -
  from unit_score_FinD [OF assms(1)] obtain x where x: "a = Fin x" "0 \<le> x" "x \<le> 1" by blast
  from unit_score_FinD [OF assms(2)] obtain y where y: "b = Fin y" "0 \<le> y" "y \<le> 1" by blast
  let ?c = "5404319552844595 / 9007199254740992 :: real"
  let ?d = "3602879701896397 / 9007199254740992 :: real"
  have c: "?c = of_int 5404319552844595 * pow2 (- 53)" by (simp add: pow2_def)
  have d: "?d = of_int 3602879701896397 * pow2 (- 53)" by (simp add: pow2_def)
  have "0 \<le> x * ?c" "x * ?c \<le> of_int 5404319552844595 * pow2 (- 53)"
    using x unfolding c [symmetric] by (simp_all add: mult_left_le_one_le)
  from rnd_upper [OF this]
  obtain v where v: "rnd (x * ?c) = Fin v" "0 \<le> v" "v \<le> ?c" unfolding c [symmetric] by auto
  have "0 \<le> y * ?d" "y * ?d \<le> of_int 3602879701896397 * pow2 (- 53)"
    using y unfolding d [symmetric] by (simp_all add: mult_left_le_one_le)
  from rnd_upper [OF this]
  obtain w where w: "rnd (y * ?d) = Fin w" "0 \<le> w" "w \<le> ?d" unfolding d [symmetric] by auto
  have "0 \<le> v + w" "v + w \<le> 1" using v w by simp_all
  from rnd_unit [OF this] obtain t where "rnd (v + w) = Fin t" "0 \<le> t" "t \<le> 1" by auto
  then show ?thesis using v(1) w(1) unfolding x y flat_weights by simp
qed

lemma extensionStep_ok:
  assumes len: "21 \<le> length lms" and i: "0 \<le> i" "i \<le> 4"
    and st: "list_all unit_score (map score (fst st))"
            "\<exists>v. snd st = Fin v \<and> 0 \<le> v \<and> v \<le> real k" and k: "k < 8"
  shows "\<exists>st'. extensionStep hypot w (map Some lms) frm i st = Inr st'
     \<and> list_all unit_score (map score (fst st'))
     \<and> (\<exists>v. snd st' = Fin v \<and> 0 \<le> v \<and> v \<le> real (Suc k))"
proof -
  have "\<exists>r. (if i = 0 then evaluateThumb hypot (map Some lms) frm True
              else evaluateTargetFinger hypot i (map Some lms) frm) = Inr r
          \<and> unit_score (score r)"
    using evaluateThumb_ok [OF len, of hypot frm True]
      evaluateTargetFinger_ok [OF len i, of hypot frm]
    by auto
  then obtain r where r: "(if i = 0 then evaluateThumb hypot (map Some lms) frm True
                           else evaluateTargetFinger hypot i (map Some lms) frm) = Inr r"
    and u: "unit_score (score r)" by blast
  from st(2) obtain v where v: "snd st = Fin v" "0 \<le> v" "v \<le> real k" by blast
  define r' where "r' = (if w then r\<lparr>finger := Some (FINGER_NAMES ! nat i), fingerIndex := Some i\<rparr>
                          else r\<lparr>finger := Some (FINGER_NAMES ! nat i)\<rparr>)"
  have u': "unit_score (score r')" using u by (simp add: r'_def)
  have run: "extensionStep hypot w (map Some lms) frm i st
               = Inr (fst st @ [r'], js_add (Fin v) (score r'))"
    unfolding extensionStep_def r bindE_simps Let_def r'_def v(1) ..
  from accumulate_ok [OF u' st(1) v(2,3) k] show ?thesis
    unfolding run by simp
qed

lemma fistStep_ok:
  assumes len: "21 \<le> length lms" and i: "0 \<le> i" "i \<le> 4"
    and st: "list_all unit_score (map score (fst st))"
            "\<exists>v. snd st = Fin v \<and> 0 \<le> v \<and> v \<le> real k" and k: "k < 8"
  shows "\<exists>st'. fistStep hypot (map Some lms) frm i st = Inr st'
     \<and> list_all unit_score (map score (fst st'))
     \<and> (\<exists>v. snd st' = Fin v \<and> 0 \<le> v \<and> v \<le> real (Suc k))"
proof -
  obtain n where n: "FINGER_NODES i = Some n" "mcp n = 4 * i + 1" "tip n = 4 * i + 4"
    using FINGER_NODES_valid [OF i] by blast
  have at: "lm_at (map Some lms) (4 * i + 1) = Some (lms ! nat (4 * i + 1))"
     "lm_at (map Some lms) (4 * i + 4) = Some (lms ! nat (4 * i + 4))"
     "lm_at (map Some lms) 0 = Some (lms ! 0)"
    using lm_at_21 [OF len, of "4 * i + 1"] lm_at_21 [OF len, of "4 * i + 4"]
      lm_at_21 [OF len, of 0] i by simp_all
  from st(2) obtain v where v: "snd st = Fin v" "0 \<le> v" "v \<le> real k" by blast
  define curl where
    "curl = js_div (js_sub (py (lms ! nat (4 * i + 4))) (py (lms ! nat (4 * i + 1))))
                   (handLength frm)"
  define ratio where
    "ratio = js_div (distance hypot (lms ! nat (4 * i + 4)) (lms ! 0))
                    (distance hypot (lms ! nat (4 * i + 1)) (lms ! 0))"
  define r where
    "r = (if js_gt curl (rnd (8 / 100)) \<and> js_lt ratio (rnd (9 / 10))
          then (resultObj GREEN (Fin 1))\<lparr>curled := Some True\<rparr>
          else if js_gt curl (rnd (2 / 100)) \<and> js_lt ratio (Fin 1)
          then (resultObj BLUE (Fin (75 / 100)))\<lparr>curled := Some True\<rparr>
          else if js_gt curl (rnd (- (5 / 100))) \<and> js_lt ratio (rnd (11 / 10))
          then (resultObj YELLOW (Fin (50 / 100)))\<lparr>curled := Some True\<rparr>
          else (resultObj RED (Fin (25 / 100)))\<lparr>curled := Some False\<rparr>)
         \<lparr>finger := Some (FINGER_NAMES ! nat i), fingerIndex := Some i\<rparr>"
  have u: "unit_score (score r)" by (simp add: r_def resultObj_def)
  have run: "fistStep hypot (map Some lms) frm i st = Inr (fst st @ [r], js_add (Fin v) (score r))"
    unfolding fistStep_def n deref_simps bindE_simps at Let_def r_def curl_def ratio_def v(1) ..
  from accumulate_ok [OF u st(1) v(2,3) k] show ?thesis
    unfolding run by simp
qed

lemma tipGap_ok:
  assumes len: "21 \<le> length lms" and i: "0 \<le> i" "i \<le> 3"
  shows "\<exists>g. tipGap hypot (map Some lms) frm i = Inr g"
proof -
  from i have "i = 0 \<or> i = 1 \<or> i = 2 \<or> i = 3" by arith
  then show ?thesis
    using lm_at_21 [OF len, of 4] lm_at_21 [OF len, of 8] lm_at_21 [OF len, of 12]
      lm_at_21 [OF len, of 16] lm_at_21 [OF len, of 20]
    by (auto simp add: tipGap_def ALL_TIPS_def)
qed

lemma spreadGapStep_ok:
  assumes len: "21 \<le> length lms" and i: "0 \<le> i" "i \<le> 3"
    and st: "\<exists>v. fst st = Fin v \<and> 0 \<le> v \<and> v \<le> real k" and k: "k < 8"
  shows "\<exists>st'. spreadGapStep hypot (map Some lms) frm i st = Inr st'
     \<and> (\<exists>v. fst st' = Fin v \<and> 0 \<le> v \<and> v \<le> real (Suc k))"
proof -
  obtain g where g: "tipGap hypot (map Some lms) frm i = Inr g"
    using tipGap_ok [OF len i] by blast
  from st obtain v where v: "fst st = Fin v" "0 \<le> v" "v \<le> real k" by blast
  define s where "s = (if js_gt g (rnd (30 / 100)) then Fin 1
               else if js_gt g (rnd (20 / 100)) then rnd (80 / 100)
               else if js_gt g (rnd (12 / 100)) then rnd (60 / 100)
               else if js_gt g (rnd (6 / 100)) then rnd (40 / 100)
               else rnd (20 / 100))"
  have u: "unit_score s" by (simp add: s_def)
  have run: "spreadGapStep hypot (map Some lms) frm i st = Inr (js_add (Fin v) s, snd st @ [g])"
    unfolding spreadGapStep_def g bindE_simps s_def v(1) ..
  from add_unit_bound [OF u v(2,3) k] show ?thesis
    unfolding run by simp
qed

lemma flatGapStep_ok:
  assumes len: "21 \<le> length lms" and i: "0 \<le> i" "i \<le> 3"
    and st: "\<exists>v. st = Fin v \<and> 0 \<le> v \<and> v \<le> real k" and k: "k < 8"
  shows "\<exists>st'. flatGapStep hypot (map Some lms) frm i st = Inr st'
     \<and> (\<exists>v. st' = Fin v \<and> 0 \<le> v \<and> v \<le> real (Suc k))"
proof -
  obtain g where g: "tipGap hypot (map Some lms) frm i = Inr g"
    using tipGap_ok [OF len i] by blast
  from st obtain v where v: "st = Fin v" "0 \<le> v" "v \<le> real k" by blast
  define s where "s = (if js_lt g (rnd (6 / 100)) then Fin 1
               else if js_lt g (rnd (10 / 100)) then rnd (80 / 100)
               else if js_lt g (rnd (15 / 100)) then rnd (60 / 100)
               else if js_lt g (rnd (22 / 100)) then rnd (40 / 100)
               else rnd (20 / 100))"
  have u: "unit_score s" by (simp add: s_def)
  have run: "flatGapStep hypot (map Some lms) frm i st = Inr (js_add (Fin v) s)"
    unfolding flatGapStep_def g bindE_simps s_def v(1) ..
  from add_unit_bound [OF u v(2,3) k] show ?thesis
    unfolding run by simp
qed

lemma extension_loop_ok:
  assumes len: "21 \<le> length lms"
  shows "\<exists>rs t. forE [0, 1, 2, 3, 4] (extensionStep hypot w (map Some lms) frm) ([], Fin 0)
                  = Inr (rs, Fin t)
     \<and> list_all unit_score (map score rs) \<and> 0 \<le> t \<and> t \<le> 5"
proof -
  let ?I = "\<lambda>k st. list_all unit_score (map score (fst st))
                \<and> (\<exists>v. snd st = Fin v \<and> 0 \<le> v \<and> v \<le> real k)"
  have "\<exists>s'. forE [0, 1, 2, 3, 4] (extensionStep hypot w (map Some lms) frm) ([], Fin 0) = Inr s'
          \<and> ?I (0 + length [0, 1, 2, 3, 4 :: int]) s'"
  proof (rule forE_invariant [where I = ?I and n = 5])
    fix i :: int and s :: "fingerResult list \<times> jsnum" and k :: nat
    assume "i \<in> set [0, 1, 2, 3, 4]" and k: "k < 5" and I: "?I k s"
    then have i: "0 \<le> i" "i \<le> 4" by auto
    from I have a: "list_all unit_score (map score (fst s))"
      and b: "\<exists>v. snd s = Fin v \<and> 0 \<le> v \<and> v \<le> real k" by blast+
    from k have k8: "k < 8" by simp
    show "\<exists>s'. extensionStep hypot w (map Some lms) frm i s = Inr s' \<and> ?I (Suc k) s'"
      by (rule extensionStep_ok [OF len i a b k8])
  next
    show "?I 0 ([], Fin 0)" by simp
  next
    show "0 + length [0, 1, 2, 3, 4 :: int] \<le> 5" by simp
  qed
  then obtain s' where
    "forE [0, 1, 2, 3, 4] (extensionStep hypot w (map Some lms) frm) ([], Fin 0) = Inr s'"
    "list_all unit_score (map score (fst s'))" "\<exists>v. snd s' = Fin v \<and> 0 \<le> v \<and> v \<le> 5"
    by auto
  then show ?thesis by (cases s') auto
qed

lemma fist_loop_ok:
  assumes len: "21 \<le> length lms"
  shows "\<exists>rs t. forE [0, 1, 2, 3, 4] (fistStep hypot (map Some lms) frm) ([], Fin 0)
                  = Inr (rs, Fin t)
     \<and> list_all unit_score (map score rs) \<and> 0 \<le> t \<and> t \<le> 5"
proof -
  let ?I = "\<lambda>k st. list_all unit_score (map score (fst st))
                \<and> (\<exists>v. snd st = Fin v \<and> 0 \<le> v \<and> v \<le> real k)"
  have "\<exists>s'. forE [0, 1, 2, 3, 4] (fistStep hypot (map Some lms) frm) ([], Fin 0) = Inr s'
          \<and> ?I (0 + length [0, 1, 2, 3, 4 :: int]) s'"
  proof (rule forE_invariant [where I = ?I and n = 5])
    fix i :: int and s :: "fingerResult list \<times> jsnum" and k :: nat
    assume "i \<in> set [0, 1, 2, 3, 4]" and k: "k < 5" and I: "?I k s"
    then have i: "0 \<le> i" "i \<le> 4" by auto
    from I have a: "list_all unit_score (map score (fst s))"
      and b: "\<exists>v. snd s = Fin v \<and> 0 \<le> v \<and> v \<le> real k" by blast+
    from k have k8: "k < 8" by simp
    show "\<exists>s'. fistStep hypot (map Some lms) frm i s = Inr s' \<and> ?I (Suc k) s'"
      by (rule fistStep_ok [OF len i a b k8])
  next
    show "?I 0 ([], Fin 0)" by simp
  next
    show "0 + length [0, 1, 2, 3, 4 :: int] \<le> 5" by simp
  qed
  then obtain s' where
    "forE [0, 1, 2, 3, 4] (fistStep hypot (map Some lms) frm) ([], Fin 0) = Inr s'"
    "list_all unit_score (map score (fst s'))" "\<exists>v. snd s' = Fin v \<and> 0 \<le> v \<and> v \<le> 5"
    by auto
  then show ?thesis by (cases s') auto
qed

lemma spread_gap_loop_ok:
  assumes len: "21 \<le> length lms"
  shows "\<exists>g gs. forE [0, 1, 2, 3] (spreadGapStep hypot (map Some lms) frm) (Fin 0, [])
                  = Inr (Fin g, gs)
     \<and> 0 \<le> g \<and> g \<le> 4"
proof -
  let ?I = "\<lambda>k st. \<exists>v. fst st = Fin v \<and> 0 \<le> v \<and> v \<le> real k"
  have "\<exists>s'. forE [0, 1, 2, 3] (spreadGapStep hypot (map Some lms) frm) (Fin 0, []) = Inr s'
          \<and> ?I (0 + length [0, 1, 2, 3 :: int]) s'"
  proof (rule forE_invariant [where I = ?I and n = 4])
    fix i :: int and s :: "jsnum \<times> jsnum list" and k :: nat
    assume "i \<in> set [0, 1, 2, 3]" and k: "k < 4" and I: "?I k s"
    then have i: "0 \<le> i" "i \<le> 3" by auto
    from k have k8: "k < 8" by simp
    show "\<exists>s'. spreadGapStep hypot (map Some lms) frm i s = Inr s' \<and> ?I (Suc k) s'"
      by (rule spreadGapStep_ok [OF len i I k8])
  next
    show "?I 0 (Fin 0, [])" by simp
  next
    show "0 + length [0, 1, 2, 3 :: int] \<le> 4" by simp
  qed
  then obtain s' where
    "forE [0, 1, 2, 3] (spreadGapStep hypot (map Some lms) frm) (Fin 0, []) = Inr s'"
    "\<exists>v. fst s' = Fin v \<and> 0 \<le> v \<and> v \<le> 4"
    by auto
  then show ?thesis by (cases s') auto
qed

lemma flat_gap_loop_ok:
  assumes len: "21 \<le> length lms"
  shows "\<exists>g. forE [0, 1, 2, 3] (flatGapStep hypot (map Some lms) frm) (Fin 0) = Inr (Fin g)
     \<and> 0 \<le> g \<and> g \<le> 4"
proof -
  let ?I = "\<lambda>k st. \<exists>v. st = Fin v \<and> 0 \<le> v \<and> v \<le> real k"
  have "\<exists>s'. forE [0, 1, 2, 3] (flatGapStep hypot (map Some lms) frm) (Fin 0) = Inr s'
          \<and> ?I (0 + length [0, 1, 2, 3 :: int]) s'"
  proof (rule forE_invariant [where I = ?I and n = 4])
    fix i :: int and s :: jsnum and k :: nat
    assume "i \<in> set [0, 1, 2, 3]" and k: "k < 4" and I: "?I k s"
    then have i: "0 \<le> i" "i \<le> 3" by auto
    from k have k8: "k < 8" by simp
    show "\<exists>s'. flatGapStep hypot (map Some lms) frm i s = Inr s' \<and> ?I (Suc k) s'"
      by (rule flatGapStep_ok [OF len i I k8])
  next
    show "?I 0 (Fin 0)" by simp
  next
    show "0 + length [0, 1, 2, 3 :: int] \<le> 4" by simp
  qed
  then show ?thesis by auto
qed

lemma mean5_unit: "0 \<le> t \<Longrightarrow> t \<le> 5 \<Longrightarrow> unit_score (js_div (Fin t) (Fin 5))"
  using unit_div_nat [of t 5] by simp

lemma mean4_unit: "0 \<le> t \<Longrightarrow> t \<le> 4 \<Longrightarrow> unit_score (js_div (Fin t) (Fin 4))"
  using unit_div_nat [of t 4] by simp

lemma evaluateSpread_ok:
  assumes len: "21 \<le> length lms"
  shows "\<exists>r. evaluateSpread hypot (map Some lms) = Inr r
           \<and> list_all unit_score (scores_of (SpreadR r))"
proof -
  obtain frm where frm: "getHandFrame hypot (map Some lms) = Inr frm"
    using getHandFrame_ok [of lms hypot] len by auto
  obtain rs t where
    ext: "forE [0, 1, 2, 3, 4] (extensionStep hypot True (map Some lms) frm) ([], Fin 0)
            = Inr (rs, Fin t)"
    and u: "list_all unit_score (map score rs)" and t: "0 \<le> t" "t \<le> 5"
    using extension_loop_ok [OF len, of hypot True frm] by blast
  obtain g gs where
    gp: "forE [0, 1, 2, 3] (spreadGapStep hypot (map Some lms) frm) (Fin 0, []) = Inr (Fin g, gs)"
    and g: "0 \<le> g" "g \<le> 4"
    using spread_gap_loop_ok [OF len, of hypot frm] by blast
  note a = mean5_unit [OF t] and b = mean4_unit [OF g]
  show ?thesis
    unfolding evaluateSpread_def frm bindE_simps ext gp Let_def
    using u a b spread_combine [OF a b] by simp
qed

lemma evaluateFlat_ok:
  assumes len: "21 \<le> length lms"
  shows "\<exists>r. evaluateFlat hypot (map Some lms) = Inr r
           \<and> list_all unit_score (scores_of (FlatR r))"
proof -
  obtain frm where frm: "getHandFrame hypot (map Some lms) = Inr frm"
    using getHandFrame_ok [of lms hypot] len by auto
  obtain rs t where
    ext: "forE [0, 1, 2, 3, 4] (extensionStep hypot False (map Some lms) frm) ([], Fin 0)
            = Inr (rs, Fin t)"
    and u: "list_all unit_score (map score rs)" and t: "0 \<le> t" "t \<le> 5"
    using extension_loop_ok [OF len, of hypot False frm] by blast
  obtain g where gp: "forE [0, 1, 2, 3] (flatGapStep hypot (map Some lms) frm) (Fin 0) = Inr (Fin g)"
    and g: "0 \<le> g" "g \<le> 4"
    using flat_gap_loop_ok [OF len, of hypot frm] by blast
  note a = mean5_unit [OF t] and b = mean4_unit [OF g]
  show ?thesis
    unfolding evaluateFlat_def frm bindE_simps ext gp Let_def
    using u a b flat_combine [OF a b] by simp
qed

lemma evaluateFist_ok:
  assumes len: "21 \<le> length lms"
  shows "\<exists>r. evaluateFist hypot (map Some lms) = Inr r
           \<and> list_all unit_score (scores_of (FistR r))"
proof -
  obtain frm where frm: "getHandFrame hypot (map Some lms) = Inr frm"
    using getHandFrame_ok [of lms hypot] len by auto
  obtain rs t where
    ext: "forE [0, 1, 2, 3, 4] (fistStep hypot (map Some lms) frm) ([], Fin 0) = Inr (rs, Fin t)"
    and u: "list_all unit_score (map score rs)" and t: "0 \<le> t" "t \<le> 5"
    using fist_loop_ok [OF len, of hypot frm] by blast
  note a = mean5_unit [OF t]
  show ?thesis
    unfolding evaluateFist_def frm bindE_simps ext Let_def
    using u a by simp
qed

lemma evaluateIsolation_ok:
  assumes len: "21 \<le> length lms" and tf: "set tf \<subseteq> {0, 1, 2, 3, 4}"
  shows "\<exists>r. evaluateIsolation hypot (map Some lms) tf = Inr r
           \<and> list_all unit_score (scores_of (IsolationR r))"
proof -
  let ?tgts = "filter (\<lambda>i. i \<in> set tf) [0, 1, 2, 3, 4 :: int]"
  let ?fo = "fingerOutcome hypot (map Some lms) tf"
  obtain frm bnds v where frm: "getHandFrame hypot (map Some lms) = Inr frm"
    and bnds: "createBoundariesForTargets (filter (\<lambda>f. f \<noteq> 0) tf) (map Some lms) frm = Inr bnds"
    and v: "forE [0, 1, 2, 3, 4] (isoStep hypot (map Some lms) tf frm bnds) isoInit = Inr v"
    and S: "targetScoreSum v = js_sum (map (\<lambda>i. score (?fo frm bnds i)) ?tgts)"
    and C: "targetCount v = int (length ?tgts)"
    and L: "list_all unit_score (map score (isoFingerResults (results v)))"
    and U: "\<forall>i \<in> set [0, 1, 2, 3, 4]. unit_score (score (?fo frm bnds i))"
    using isolation_run [OF len tf, of hypot] by blast
  define ss where "ss = map (\<lambda>i. score (?fo frm bnds i)) ?tgts"
  define n where "n = length ?tgts"
  have nl: "length ss = n" by (simp add: ss_def n_def)
  have n5: "n \<le> 5" unfolding n_def using length_filter_le [of "\<lambda>i. i \<in> set tf" "[0, 1, 2, 3, 4]"]
    by simp
  have us: "list_all unit_score ss"
    unfolding ss_def list_all_iff
  proof
    fix s assume "s \<in> set (map (\<lambda>i. score (?fo frm bnds i)) ?tgts)"
    then obtain i where "i \<in> set ?tgts" "s = score (?fo frm bnds i)" by auto
    then have "i \<in> set [0, 1, 2, 3, 4 :: int]" unfolding set_filter by blast
    with U \<open>s = score (?fo frm bnds i)\<close> show "unit_score s" by blast
  qed
  from js_sum_unit [OF us, of 0 0] n5 nl
  obtain t where t: "js_sum ss = Fin t" "0 \<le> t" "t \<le> real n"
    by (auto simp add: js_sum_def)
  define m where "m = (if n = 0 then Fin 0 else js_div (js_sum ss) (Fin (real n)))"
  have um: "unit_score m"
  proof (cases "n = 0")
    case True
    then show ?thesis by (simp add: m_def)
  next
    case False
    then have "0 < n" by simp
    from unit_div_nat [OF t(2,3) this] False show ?thesis by (simp add: m_def t(1))
  qed
  define final where "final =
     (if hasMajorViolation v then js_mul m (Fin (1 / 2))
      else if violations (results v) \<noteq> [] then js_mul m (rnd (85 / 100))
      else m)"
  have uf: "unit_score final"
    unfolding final_def using um unit_mul [OF um, of "Fin (1 / 2)"] unit_mul [OF um, of "rnd (85 / 100)"]
    by simp
  note run = evaluateIsolation_final [OF frm bnds v S [folded ss_def] C [folded n_def]
      final_def [unfolded m_def]]
  show ?thesis
    unfolding run
    using L uf by (simp add: isoFingerResults_def)
qed

lemma evaluatePinch_ok:
  assumes len: "21 \<le> length lms" and a: "a \<in> set ALL_TIPS" and b: "b \<in> set ALL_TIPS"
  shows "\<exists>r. evaluatePinch hypot (map Some lms) [a, b] = Inr r
           \<and> list_all unit_score (scores_of (PinchR r))"
proof -
  obtain frm where frm: "getHandFrame hypot (map Some lms) = Inr frm"
    using getHandFrame_ok [of lms hypot] len by auto
  have "set (filter (\<lambda>f. f \<noteq> 0) [a div 4 - 1, b div 4 - 1]) \<subseteq> {0, 1, 2, 3, 4}"
    using indexOf_ALL_TIPS [OF a] indexOf_ALL_TIPS [OF b] by auto
  from createBoundariesForTargets_ok [OF len this, of frm]
  obtain bnds where bnds:
    "createBoundariesForTargets (filter (\<lambda>f. f \<noteq> 0) [a div 4 - 1, b div 4 - 1]) (map Some lms) frm
       = Inr bnds"
    and lines: "lineStart (greenBoundary bnds) \<noteq> None" "lineEnd (greenBoundary bnds) \<noteq> None"
      "lineStart (acceptableBoundary bnds) \<noteq> None" "lineEnd (acceptableBoundary bnds) \<noteq> None"
    by blast
  define d where "d = js_div (distance hypot (lms ! nat a) (lms ! nat b)) (handWidth frm)"
  define B :: "zone \<times> jsnum" where
    "B = (if js_lt d (rnd (5 / 100)) then (GREEN, Fin 1)
          else if js_lt d (rnd (8 / 100)) then (GREEN, rnd (90 / 100))
          else if js_lt d (rnd (12 / 100)) then (BLUE, Fin (75 / 100))
          else if js_lt d (rnd (18 / 100)) then (YELLOW, rnd (55 / 100))
          else if js_lt d (rnd (28 / 100)) then (YELLOW, rnd (40 / 100))
          else (RED, rnd (20 / 100)))"
  define off where
    "off = filter (\<lambda>i. i \<notin> set [a div 4 - 1, b div 4 - 1]
                  \<and> violation (projr (evaluateNonTargetFinger i (map Some lms) bnds frm)) = Some True
                  \<and> severity (projr (evaluateNonTargetFinger i (map Some lms) bnds frm))
                      = Some ''major'')
                [1, 2, 3, 4]"
  define final where "final = (if off \<noteq> [] then js_mul (snd B) (rnd (7 / 10)) else snd B)"
  have Bb: "unit_score (snd B)" by (simp add: B_def)
  have fb: "unit_score final"
    unfolding final_def using Bb unit_mul [OF Bb, of "rnd (7 / 10)"] by simp
  note run = evaluatePinch_final [OF len a b frm bnds lines d_def B_def off_def final_def]
  show ?thesis
    unfolding run using fb by simp
qed

lemma evaluate_total:
  assumes ok: "descriptor_ok ex"
  shows "\<exists>r. evaluate hypot (map_option (map Some) lo) ex = Inr r
           \<and> list_all unit_score (scores_of r)"
proof (cases lo)
  case None
  then show ?thesis by (simp add: evaluate_def)
next
  case (Some lms)
  show ?thesis
  proof (cases "length lms < 21")
    case True
    with Some show ?thesis by (simp add: evaluate_def)
  next
    case False
    then have len: "21 \<le> length lms" by simp
    have tf: "set (case ex_targetFingers ex of None \<Rightarrow> [] | Some t \<Rightarrow> t) \<subseteq> {0, 1, 2, 3, 4}"
      using ok by (simp add: descriptor_ok_def split: option.splits)
    have "\<exists>a b. (case ex_pinchPair ex of None \<Rightarrow> [4, 8] | Some pr \<Rightarrow> pr) = [a, b]
            \<and> a \<in> set ALL_TIPS \<and> b \<in> set ALL_TIPS"
    proof (cases "ex_pinchPair ex")
      case None
      then show ?thesis by (simp add: ALL_TIPS_def)
    next
      case (Some pr)
      with ok have "length pr = 2" "set pr \<subseteq> set ALL_TIPS"
        by (simp_all add: descriptor_ok_def)
      then obtain a b where "pr = [a, b]"
        by (cases pr; cases "tl pr") auto
      with \<open>set pr \<subseteq> set ALL_TIPS\<close> Some show ?thesis by simp
    qed
    then obtain a b where pp: "(case ex_pinchPair ex of None \<Rightarrow> [4, 8] | Some pr \<Rightarrow> pr) = [a, b]"
      and ab: "a \<in> set ALL_TIPS" "b \<in> set ALL_TIPS" by blast
    consider (iso) "ex_type ex = ''isolation''"
      | (pinch) "ex_type ex = ''pinch''"
      | (spread) "ex_type ex = ''spread''"
      | (fist) "ex_type ex = ''fist''"
      | (flat) "ex_type ex = ''flat''"
      | (other) "ex_type ex \<noteq> ''isolation''" "ex_type ex \<noteq> ''pinch''" "ex_type ex \<noteq> ''spread''"
          "ex_type ex \<noteq> ''fist''" "ex_type ex \<noteq> ''flat''"
      by blast
    then show ?thesis
    proof cases
      case iso
      from evaluateIsolation_ok [OF len tf, of hypot] obtain r where
        "evaluateIsolation hypot (map Some lms)
           (case ex_targetFingers ex of None \<Rightarrow> [] | Some t \<Rightarrow> t) = Inr r"
        "list_all unit_score (scores_of (IsolationR r))" by blast
      with Some False iso show ?thesis by (simp add: evaluate_def)
    next
      case pinch
      from evaluatePinch_ok [OF len ab, of hypot] obtain r where
        "evaluatePinch hypot (map Some lms) [a, b] = Inr r"
        "list_all unit_score (scores_of (PinchR r))" by blast
      with Some False pinch pp show ?thesis by (simp add: evaluate_def)
    next
      case spread
      from evaluateSpread_ok [OF len, of hypot] obtain r where
        "evaluateSpread hypot (map Some lms) = Inr r"
        "list_all unit_score (scores_of (SpreadR r))" by blast
      with Some False spread show ?thesis by (simp add: evaluate_def)
    next
      case fist
      from evaluateFist_ok [OF len, of hypot] obtain r where
        "evaluateFist hypot (map Some lms) = Inr r"
        "list_all unit_score (scores_of (FistR r))" by blast
      with Some False fist show ?thesis by (simp add: evaluate_def)
    next
      case flat
      from evaluateFlat_ok [OF len, of hypot] obtain r where
        "evaluateFlat hypot (map Some lms) = Inr r"
        "list_all unit_score (scores_of (FlatR r))" by blast
      with Some False flat show ?thesis by (simp add: evaluate_def)
    next
      case other
      with Some False show ?thesis by (simp add: evaluate_def)
    qed
  qed
qed

section \<open>The dispatcher: scores, failures and defaults\<close>

text \<open>
  Claim C8. For every landmark input whose entries are landmarks (absent, short, or 21
  and more landmarks with any coordinates, finite or not, so also a degenerate hand whose
  length or width is 0 and whose quotients are \<open>NaN\<close> or infinite), every descriptor
  within the interface contract and every \<open>Math.hypot\<close>, \<open>evaluate\<close> returns a result in
  which every score (overall, per finger, and the part scores of spread and flat) is a
  finite number between 0 and 1, and every zone is one of GREEN, BLUE, YELLOW and RED.
\<close>

theorem evaluate_scores_and_zones:
  assumes "descriptor_ok ex"
  shows "\<exists>r. evaluate hypot (map_option (map Some) landmarksOpt) ex = Inr r
     \<and> (\<forall>s \<in> set (scores_of r). \<exists>v. s = Fin v \<and> 0 \<le> v \<and> v \<le> 1)
     \<and> (\<forall>z \<in> set (zones_of r). z \<in> {GREEN, BLUE, YELLOW, RED})"
proof -
  from evaluate_total [OF assms, of hypot landmarksOpt]
  obtain r where r: "evaluate hypot (map_option (map Some) landmarksOpt) ex = Inr r"
    and u: "list_all unit_score (scores_of r)" by blast
  have "\<forall>s \<in> set (scores_of r). \<exists>v. s = Fin v \<and> 0 \<le> v \<and> v \<le> 1"
    using u unit_score_FinD by (auto simp add: list_all_iff)
  moreover have "\<forall>z \<in> set (zones_of r). z \<in> {GREEN, BLUE, YELLOW, RED}"
  proof
    fix z show "z \<in> {GREEN, BLUE, YELLOW, RED}" by (cases z) simp_all
  qed
  ultimately show ?thesis using r by blast
qed

theorem evaluate_scores_and_zones_witness:
  "descriptor_ok (bareExercise ''spread'') \<and> descriptor_ok (isolationOf [0, 2]) \<and>
   getHandFrame hypotNearest (map Some degenerateHand) =
     Inr \<lparr>wrist = lm (1 / 2) (1 / 2), handLength = Fin 0, handWidth = Fin 0,
          palmCenter = \<lparr>px = Fin (1 / 2), py = Fin (1 / 2), pz = None\<rparr>\<rparr> \<and>
   list_all unit_score
     (scores_of (projr (evaluate hypotNearest (Some (map Some degenerateHand))
                          (bareExercise ''spread'')))) \<and>
   list_all unit_score
     (scores_of (projr (evaluate hypotNearest (Some (map Some degenerateHand))
                          (isolationOf [0, 2]))))"
proof -
  have ok: "descriptor_ok (bareExercise ''spread'')" "descriptor_ok (isolationOf [0, 2])"
    by (simp_all add: descriptor_ok_def bareExercise_def isolationOf_def)
  have fr: "getHandFrame hypotNearest (map Some degenerateHand) =
     Inr \<lparr>wrist = lm (1 / 2) (1 / 2), handLength = Fin 0, handWidth = Fin 0,
          palmCenter = \<lparr>px = Fin (1 / 2), py = Fin (1 / 2), pz = None\<rparr>\<rparr>"
    by (simp add: getHandFrame_def degenerateHand_def hand_eval)
  have conv: "\<And>r. (\<forall>s \<in> set (scores_of r). \<exists>v. s = Fin v \<and> 0 \<le> v \<and> v \<le> 1)
                 \<Longrightarrow> list_all unit_score (scores_of r)"
    by (auto simp add: list_all_iff)
  from evaluate_scores_and_zones [OF ok(1), of hypotNearest "Some degenerateHand"]
  have a: "list_all unit_score
             (scores_of (projr (evaluate hypotNearest (Some (map Some degenerateHand))
                                  (bareExercise ''spread''))))"
    using conv by auto
  from evaluate_scores_and_zones [OF ok(2), of hypotNearest "Some degenerateHand"]
  have b: "list_all unit_score
             (scores_of (projr (evaluate hypotNearest (Some (map Some degenerateHand))
                                  (isolationOf [0, 2]))))"
    using conv by auto
  from ok fr a b show ?thesis by simp
qed

text \<open>
  Claim C1, as the code has it. \<open>evaluate\<close> returns the failure result with error
  \<open>Invalid landmarks\<close>, \<open>passed = false\<close>, \<open>score = 0\<close> and \<open>zone = RED\<close> when the
  landmark array is absent or has fewer than 21 entries, whatever the entries and the
  descriptor; it returns the failure result with error \<open>Unknown type\<close> when there are at
  least 21 entries, whatever they are, and the type is none of isolation, pinch, spread,
  fist and flat; and it raises nothing when every entry of the array is a landmark and
  the descriptor is within the interface contract (target fingers among 0 to 4, pinch
  pair two tip nodes). The dispatcher has no handler for exceptions, so it promises no
  more.
\<close>

theorem evaluate_failure_results:
  "(entriesOpt = None \<or> (\<exists>l. entriesOpt = Some l \<and> length l < 21) \<longrightarrow>
      evaluate hypot entriesOpt ex =
        Inr (FailureR \<lparr>e_error = ''Invalid landmarks'', e_passed = False, e_score = Fin 0,
                       e_zone = RED\<rparr>))
   \<and> ((\<exists>l. entriesOpt = Some l \<and> 21 \<le> length l)
        \<and> ex_type ex \<notin> {''isolation'', ''pinch'', ''spread'', ''fist'', ''flat''} \<longrightarrow>
      evaluate hypot entriesOpt ex =
        Inr (FailureR \<lparr>e_error = ''Unknown type'', e_passed = False, e_score = Fin 0,
                       e_zone = RED\<rparr>))
   \<and> (descriptor_ok ex \<longrightarrow>
        (\<exists>r. evaluate hypot (map_option (map Some) landmarksOpt) ex = Inr r))"
proof (intro conjI impI)
  assume "entriesOpt = None \<or> (\<exists>l. entriesOpt = Some l \<and> length l < 21)"
  then show "evaluate hypot entriesOpt ex =
        Inr (FailureR \<lparr>e_error = ''Invalid landmarks'', e_passed = False, e_score = Fin 0,
                       e_zone = RED\<rparr>)"
    by (auto simp add: evaluate_def)
next
  assume "(\<exists>l. entriesOpt = Some l \<and> 21 \<le> length l)
        \<and> ex_type ex \<notin> {''isolation'', ''pinch'', ''spread'', ''fist'', ''flat''}"
  then obtain l where l: "entriesOpt = Some l" "21 \<le> length l"
    and t: "ex_type ex \<noteq> ''isolation''" "ex_type ex \<noteq> ''pinch''" "ex_type ex \<noteq> ''spread''"
        "ex_type ex \<noteq> ''fist''" "ex_type ex \<noteq> ''flat''" by auto
  then show "evaluate hypot entriesOpt ex =
        Inr (FailureR \<lparr>e_error = ''Unknown type'', e_passed = False, e_score = Fin 0,
                       e_zone = RED\<rparr>)"
    by (simp add: evaluate_def)
next
  assume "descriptor_ok ex"
  from evaluate_total [OF this, of hypot landmarksOpt]
  show "\<exists>r. evaluate hypot (map_option (map Some) landmarksOpt) ex = Inr r" by blast
qed

theorem evaluate_failure_results_witness:
  "evaluate hypotNearest None (bareExercise ''spread'') =
     Inr (FailureR \<lparr>e_error = ''Invalid landmarks'', e_passed = False, e_score = Fin 0,
                    e_zone = RED\<rparr>) \<and>
   evaluate hypotNearest (Some (replicate 20 None)) (isolationOf [1]) =
     Inr (FailureR \<lparr>e_error = ''Invalid landmarks'', e_passed = False, e_score = Fin 0,
                    e_zone = RED\<rparr>) \<and>
   evaluate hypotNearest (Some (replicate 21 None)) (bareExercise ''wave'') =
     Inr (FailureR \<lparr>e_error = ''Unknown type'', e_passed = False, e_score = Fin 0,
                    e_zone = RED\<rparr>) \<and>
   descriptor_ok (isolationOf [1]) \<and>
   evaluate hypotNearest (Some (map Some pointHand)) (isolationOf [1]) \<noteq> Inl TypeError"
proof -
  have ok: "descriptor_ok (isolationOf [1])"
    by (simp add: descriptor_ok_def isolationOf_def)
  have ty: "ex_type (bareExercise ''wave'') \<notin> {''isolation'', ''pinch'', ''spread'', ''fist'', ''flat''}"
    by (simp add: bareExercise_def)
  from evaluate_failure_results [of None hypotNearest "bareExercise ''spread''"]
  have a: "evaluate hypotNearest None (bareExercise ''spread'') =
     Inr (FailureR \<lparr>e_error = ''Invalid landmarks'', e_passed = False, e_score = Fin 0,
                    e_zone = RED\<rparr>)" by simp
  from evaluate_failure_results [of "Some (replicate 20 None)" hypotNearest "isolationOf [1]"]
  have b: "evaluate hypotNearest (Some (replicate 20 None)) (isolationOf [1]) =
     Inr (FailureR \<lparr>e_error = ''Invalid landmarks'', e_passed = False, e_score = Fin 0,
                    e_zone = RED\<rparr>)" by simp
  from evaluate_failure_results [of "Some (replicate 21 None)" hypotNearest "bareExercise ''wave''"] ty
  have c: "evaluate hypotNearest (Some (replicate 21 None)) (bareExercise ''wave'') =
     Inr (FailureR \<lparr>e_error = ''Unknown type'', e_passed = False, e_score = Fin 0,
                    e_zone = RED\<rparr>)" by simp
  from evaluate_failure_results [of _ hypotNearest "isolationOf [1]" "Some pointHand"] ok
  have d: "evaluate hypotNearest (Some (map Some pointHand)) (isolationOf [1]) \<noteq> Inl TypeError"
    by auto
  from a b c ok d show ?thesis by simp
qed

text \<open>
  It does raise otherwise. For the target finger 5 the node table has no entry, and
  reading its \<open>pip\<close> is a \<open>TypeError\<close>; and with 21 entries of which the first is
  \<open>null\<close>, reading its \<open>x\<close> is a \<open>TypeError\<close>.
\<close>

theorem evaluate_throws_counterexample:
  "length pointHand = 21 \<and>
   evaluate hypotNearest (Some (map Some pointHand)) (isolationOf [5]) = Inl TypeError \<and>
   length ((map Some pointHand)[0 := None]) = 21 \<and>
   evaluate hypotNearest (Some ((map Some pointHand)[0 := None])) (bareExercise ''spread'')
     = Inl TypeError"
proof -
  have len: "length pointHand = 21" by (simp add: pointHand_def)
  have "createBoundariesForTargets [5] (map Some pointHand) pointFrame = Inl TypeError"
    by (simp add: createBoundariesForTargets_def createBoundaryForFinger_def FINGER_NODES_def)
  then have "evaluateIsolation hypotNearest (map Some pointHand) [5] = Inl TypeError"
    by (simp add: evaluateIsolation_def pointHand_frame)
  then have a: "evaluate hypotNearest (Some (map Some pointHand)) (isolationOf [5]) = Inl TypeError"
    using len by (simp add: evaluate_def isolationOf_def)
  have "lm_at ((map Some pointHand)[0 := None]) 0 = None"
    by (simp add: lm_at_def pointHand_def)
  then have "getHandFrame hypotNearest ((map Some pointHand)[0 := None]) = Inl TypeError"
    by (simp add: getHandFrame_def)
  then have "evaluateSpread hypotNearest ((map Some pointHand)[0 := None]) = Inl TypeError"
    by (simp add: evaluateSpread_def)
  then have b: "evaluate hypotNearest (Some ((map Some pointHand)[0 := None]))
                  (bareExercise ''spread'') = Inl TypeError"
    using len by (simp add: evaluate_def bareExercise_def)
  from len a b show ?thesis by simp
qed



end
